(* ===== verification/Sbc_Prelude.thy ===== *)
theory Sbc_Prelude
  imports Main "HOL-Library.Word"
begin

unbundle bit_operations_syntax

text \<open>
  Shared ground of the development: the machine integer types of the C code,
  byte buffers with slices and overlays (\<^verbatim>\<open>CopyMem\<close> from and to an offset),
  little endian encoding of integers, and the outcome of a C call that may
  return, may leave the program for good (a reset or an endless loop) or may
  do something C gives no meaning to (a fault).  The lemmas of the collections
  \<open>buf_simps\<close> and \<open>exec_simps\<close> carry most proofs of the components.
\<close>

named_theorems buf_simps "lengths, slices and overlays of byte buffers"
named_theorems exec_simps "evaluation of program outcomes"
named_theorems ro "programs that change nothing"

section \<open>Machine integers and buffers\<close>

type_synonym byte = "8 word"
type_synonym u16 = "16 word"
type_synonym u32 = "32 word"
type_synonym u64 = "64 word"
type_synonym bytes = "8 word list"

definition slice :: "nat \<Rightarrow> nat \<Rightarrow> bytes \<Rightarrow> bytes" where
  "slice ofs n buf = take n (drop ofs buf)"

definition overlay :: "nat \<Rightarrow> bytes \<Rightarrow> bytes \<Rightarrow> bytes" where
  "overlay ofs src buf = take ofs buf @ src @ drop (ofs + length src) buf"

definition zeros :: "nat \<Rightarrow> bytes" where
  "zeros n = replicate n 0"

lemma length_slice [buf_simps]: "ofs + n \<le> length buf \<Longrightarrow> length (slice ofs n buf) = n"
  by (simp add: slice_def)

lemma length_overlay [buf_simps]:
  "ofs + length src \<le> length buf \<Longrightarrow> length (overlay ofs src buf) = length buf"
  by (simp add: overlay_def)

lemma length_zeros [buf_simps, simp]: "length (zeros n) = n"
  by (simp add: zeros_def)

lemma slice_all [buf_simps]: "n = length buf \<Longrightarrow> slice 0 n buf = buf"
  by (simp add: slice_def)

lemma slice_slice [buf_simps]:
  "o2 + n2 \<le> n1 \<Longrightarrow> slice o2 n2 (slice o1 n1 buf) = slice (o1 + o2) n2 buf"
  by (simp add: slice_def drop_take add.commute)

lemma slice_overlay_same [buf_simps]:
  "ofs + length src \<le> length buf \<Longrightarrow> n = length src \<Longrightarrow> slice ofs n (overlay ofs src buf) = src"
  by (simp add: slice_def overlay_def)

lemma overlay_nth:
  "ofs + length src \<le> length buf \<Longrightarrow> i < length buf \<Longrightarrow>
   overlay ofs src buf ! i = (if ofs \<le> i \<and> i < ofs + length src then src ! (i - ofs) else buf ! i)"
  by (auto simp: overlay_def nth_append min_def add.commute)

lemma slice_nth: "ofs + n \<le> length buf \<Longrightarrow> i < n \<Longrightarrow> slice ofs n buf ! i = buf ! (ofs + i)"
  by (simp add: slice_def)

lemma slice_overlay_other [buf_simps]:
  assumes "ofs + length src \<le> length buf" "o2 + n \<le> ofs \<or> ofs + length src \<le> o2" "o2 + n \<le> length buf"
  shows "slice o2 n (overlay ofs src buf) = slice o2 n buf"
proof (rule nth_equalityI)
  show "length (slice o2 n (overlay ofs src buf)) = length (slice o2 n buf)"
    using assms by (simp add: buf_simps)
next
  fix i assume "i < length (slice o2 n (overlay ofs src buf))"
  then have "i < n" using assms by (simp add: buf_simps)
  then show "slice o2 n (overlay ofs src buf) ! i = slice o2 n buf ! i"
    using assms by (auto simp: slice_nth buf_simps overlay_nth)
qed

lemma slice_map_upt [buf_simps]:
  "ofs + n \<le> len \<Longrightarrow> slice ofs n (map f [a..<a + len]) = map f [a + ofs..<a + ofs + n]"
  by (simp add: slice_def drop_map take_map drop_upt take_upt del: upt_conv_Cons)

lemma slice_join:
  "b = a + m \<Longrightarrow> slice a m bs @ slice b n bs = slice a (m + n) bs"
  "b = a + m \<Longrightarrow> slice a m bs @ slice b n bs @ rest = slice a (m + n) bs @ rest"
  by (simp_all add: slice_def take_add add.commute)

lemma slice_append_right [buf_simps]:
  "length xs \<le> ofs \<Longrightarrow> slice ofs n (xs @ ys) = slice (ofs - length xs) n ys"
  by (simp add: slice_def)

lemma slice_append_left [buf_simps]:
  "ofs + n \<le> length xs \<Longrightarrow> slice ofs n (xs @ ys) = slice ofs n xs"
  by (simp add: slice_def)

section \<open>Little endian integers\<close>

fun to_le :: "nat \<Rightarrow> nat \<Rightarrow> bytes" where
  "to_le 0 v = []"
| "to_le (Suc n) v = word_of_nat v # to_le n (v div 256)"

fun of_le :: "bytes \<Rightarrow> nat" where
  "of_le [] = 0"
| "of_le (b # bs) = unat b + 256 * of_le bs"

lemma length_to_le [simp, buf_simps]: "length (to_le n v) = n"
  by (induction n v rule: to_le.induct) auto

lemma of_le_to_le [buf_simps]: "of_le (to_le n v) = v mod 256 ^ n"
proof (induction n v rule: to_le.induct)
  case (2 n v)
  then show ?case
    by (simp add: unat_of_nat mod_mult2_eq mult.commute)
qed simp

lemma unat_bound: "unat (w :: 'a::len word) < 2 ^ LENGTH('a)"
  by (rule unsigned_less)

lemma unat_ucast_u64 [simp]: "unat (ucast (k :: u32) :: u64) = unat k"
  using unat_bound [of k] by (simp add: unsigned_ucast_eq take_bit_nat_eq_self)

lemma of_le_bound: "of_le bs < 256 ^ length bs"
proof (induction bs)
  case (Cons b bs)
  have "unat b \<le> 255" using unat_bound [of b] by simp
  moreover have "256 * of_le bs + 256 \<le> 256 * 256 ^ length bs" using Cons by simp
  ultimately show ?case by simp
qed simp

lemma to_le_of_le [buf_simps]: "n = length bs \<Longrightarrow> to_le n (of_le bs) = bs"
proof (induction bs arbitrary: n)
  case (Cons b bs)
  have "unat b < 256" using unat_bound [of b] by simp
  moreover have "(word_of_nat (unat b + 256 * of_le bs) :: byte) = b"
  proof -
    have "(word_of_nat (256 * of_le bs) :: byte) = 0"
      by (rule word_of_nat_eq_0_iff [THEN iffD2]) simp
    then show ?thesis by (simp add: of_nat_add)
  qed
  ultimately show ?case using Cons by simp
qed simp

definition le16 :: "u16 \<Rightarrow> bytes" where "le16 w = to_le 2 (unat w)"
definition le32 :: "u32 \<Rightarrow> bytes" where "le32 w = to_le 4 (unat w)"
definition rd16 :: "bytes \<Rightarrow> u16" where "rd16 bs = word_of_nat (of_le bs)"
definition rd32 :: "bytes \<Rightarrow> u32" where "rd32 bs = word_of_nat (of_le bs)"

lemma length_le [simp, buf_simps]: "length (le16 w) = 2" "length (le32 v) = 4"
  by (simp_all add: le16_def le32_def)

lemma rd16_le16 [simp, buf_simps]: "rd16 (le16 w) = w"
  using unat_bound [of w] by (simp add: rd16_def le16_def of_le_to_le)

lemma rd32_le32 [simp, buf_simps]: "rd32 (le32 w) = w"
  using unat_bound [of w] by (simp add: rd32_def le32_def of_le_to_le)

lemma le16_rd16 [buf_simps]: "length bs = 2 \<Longrightarrow> le16 (rd16 bs) = bs"
  using of_le_bound [of bs] by (simp add: rd16_def le16_def unat_of_nat to_le_of_le)

lemma le32_rd32 [buf_simps]: "length bs = 4 \<Longrightarrow> le32 (rd32 bs) = bs"
  using of_le_bound [of bs] by (simp add: rd32_def le32_def unat_of_nat to_le_of_le)

section \<open>Outcomes of a call\<close>

text \<open>
  A call returns a value and the changed world, or it never returns: the
  platform was reset, or an operation without a meaning in C was reached.
  \<open>BadArith\<close> is arithmetic without a value, such as a division by zero.
\<close>

datatype fault = NullDeref | OutOfBounds | WildPointer | BadArith
datatype halt = EfiResetCold | EfiResetShutdown

datatype ('w, 'a) exec = Done 'a 'w | Halted halt 'w | Faulted fault 'w

type_synonym ('w, 'a) prog = "'w \<Rightarrow> ('w, 'a) exec"

definition retn :: "'a \<Rightarrow> ('w, 'a) prog" where "retn a w = Done a w"
definition fail :: "fault \<Rightarrow> ('w, 'a) prog" where "fail f w = Faulted f w"
definition halt :: "halt \<Rightarrow> ('w, 'a) prog" where "halt h w = Halted h w"

definition andthen :: "('w, 'a) prog \<Rightarrow> ('a \<Rightarrow> ('w, 'b) prog) \<Rightarrow> ('w, 'b) prog" where
  "andthen m k w = (case m w of
      Done a w' \<Rightarrow> k a w'
    | Halted h w' \<Rightarrow> Halted h w'
    | Faulted f w' \<Rightarrow> Faulted f w')"

lemma exec_basic [exec_simps, simp]:
  "retn a w = Done a w" "fail f w = Faulted f w" "halt h w = Halted h w"
  by (simp_all add: retn_def fail_def halt_def)

lemma andthen_Done [exec_simps]: "m w = Done a w' \<Longrightarrow> andthen m k w = k a w'"
  by (simp add: andthen_def)

lemma andthen_Halted [exec_simps]: "m w = Halted h w' \<Longrightarrow> andthen m k w = Halted h w'"
  by (simp add: andthen_def)

lemma andthen_Faulted [exec_simps]: "m w = Faulted f w' \<Longrightarrow> andthen m k w = Faulted f w'"
  by (simp add: andthen_def)

lemma andthen_eq_Done:
  "andthen m k w = Done b w2 \<longleftrightarrow> (\<exists>a w1. m w = Done a w1 \<and> k a w1 = Done b w2)"
  by (cases "m w") (auto simp: andthen_def)

lemma andthen_assoc:
  "andthen (andthen m k) l = andthen m (\<lambda>a. andthen (k a) l)"
  by (rule ext) (simp add: andthen_def split: exec.split)

text \<open>The world a call leaves behind, however it ends.\<close>

primrec final_world :: "('w, 'a) exec \<Rightarrow> 'w" where
  "final_world (Done a w) = w"
| "final_world (Halted h w) = w"
| "final_world (Faulted f w) = w"

primrec returned :: "('w, 'a) exec \<Rightarrow> 'a option" where
  "returned (Done a w) = Some a"
| "returned (Halted h w) = None"
| "returned (Faulted f w) = None"

text \<open>
  A call that leaves a property of the world alone: a relation between the
  worlds before and after that is reflexive and transitive is kept by a
  sequence when each part keeps it.
\<close>

definition keeps :: "('w \<Rightarrow> 'w \<Rightarrow> bool) \<Rightarrow> ('w, 'a) prog \<Rightarrow> bool" where
  "keeps R m \<longleftrightarrow> (\<forall>w. R w (final_world (m w)))"

lemma keepsI: "(\<And>w. R w (final_world (m w))) \<Longrightarrow> keeps R m"
  by (simp add: keeps_def)

lemma keepsD: "keeps R m \<Longrightarrow> R w (final_world (m w))"
  by (simp add: keeps_def)

lemma keeps_basic [intro, simp]:
  "reflp R \<Longrightarrow> keeps R (retn a)" "reflp R \<Longrightarrow> keeps R (fail f)" "reflp R \<Longrightarrow> keeps R (halt h)"
  by (simp_all add: keeps_def reflp_def)

lemma keeps_andthen [intro]:
  assumes "transp R" "keeps R m" "\<And>a. keeps R (k a)"
  shows "keeps R (andthen m k)"
  unfolding keeps_def
proof
  fix w show "R w (final_world (andthen m k w))"
  proof (cases "m w")
    case (Done a w')
    then have "R w w'" using keepsD [OF assms(2), of w] by simp
    moreover have "R w' (final_world (k a w'))" using assms(3) by (rule keepsD)
    ultimately show ?thesis using Done assms(1) by (auto simp: exec_simps dest: transpD)
  qed (use keepsD [OF assms(2), of w] in \<open>auto simp: exec_simps\<close>)
qed

lemma keeps_if [intro]: "keeps R a \<Longrightarrow> keeps R b \<Longrightarrow> keeps R (if c then a else b)"
  by simp

lemma keeps_outcome [intro, simp]:
  "reflp R \<Longrightarrow> keeps R (Done a)" "reflp R \<Longrightarrow> keeps R (Faulted f)" "reflp R \<Longrightarrow> keeps R (Halted h)"
  by (simp_all add: keeps_def reflp_def)

text \<open>A program that changes nothing.\<close>

abbreviation readonly :: "('w, 'a) prog \<Rightarrow> bool" where
  "readonly m \<equiv> keeps (=) m"

lemma readonly_keeps: "reflp R \<Longrightarrow> readonly m \<Longrightarrow> keeps R m"
  unfolding keeps_def by (metis reflpD)

lemma readonly_andthen [intro]: "readonly m \<Longrightarrow> (\<And>a. readonly (k a)) \<Longrightarrow> readonly (andthen m k)"
  by (rule keeps_andthen) (auto intro: transpI)

lemma readonly_basic [simp, intro]:
  "readonly (retn a)" "readonly (fail f)" "readonly (halt h)" "readonly (Done a)" "readonly (Faulted f)" "readonly (Halted h)"
  by (simp_all add: keeps_def)

lemma final_readonly_andthen:
  "readonly m \<Longrightarrow> final_world (andthen m k w) =
     (case m w of Done a w' \<Rightarrow> final_world (k a w) | Halted h w' \<Rightarrow> w | Faulted f w' \<Rightarrow> w)"
  using keepsD [of "(=)" m w] by (auto simp: andthen_def split: exec.split)

lemma readonly_Done: "readonly m \<Longrightarrow> m w = Done a w' \<Longrightarrow> w' = w"
  using keepsD [of "(=)" m w] by simp

lemma map_andthen:
  assumes "p (u w) = map_exec u id (p w)" "\<And>a w'. p w = Done a w' \<Longrightarrow> k' a (u w') = map_exec u id (k a w')"
  shows "andthen p k' (u w) = map_exec u id (andthen p k w)"
  using assms by (cases "p w") (simp_all add: andthen_def)

end
