(* ===== verification/Uefi_Nvme.thy ===== *)
theory Uefi_Nvme
  imports Sbc_Prelude
begin

text \<open>
  The block device under the raw partition: the block I/O entry points of the
  NVMe driver (\<^verbatim>\<open>NvmExpressBlockIo.c\<close>).  A device is its media description, the
  controller's transfer limit and its contents as a byte at every address; the
  hardware behind \<^verbatim>\<open>PassThru\<close> is the field \<open>sector_bad\<close>, the sectors on which a
  command fails, and \<open>media\<close>.  A request that goes through \<^verbatim>\<open>NvmeRead\<close> or
  \<^verbatim>\<open>NvmeWrite\<close> is cut into commands of at most \<open>MaxTransferBlocks\<close> blocks; the
  lemmas show that the loops return, and that on sound sectors the pieces add up
  to the one transfer asked for.  Not modelled: task priority changes, the null
  check of \<^verbatim>\<open>This\<close>, the check that the buffer is aligned to \<^verbatim>\<open>IoAlign\<close>, the wait for
  the asynchronous queue, and failures of the queue hardware and of the mapping
  of the buffer.  The locale \<open>raw_store\<close> is what the boot loader relies on: a load
  gives what was stored last.
\<close>

datatype efi_status =
    EFI_SUCCESS | EFI_LOAD_ERROR | EFI_INVALID_PARAMETER | EFI_UNSUPPORTED | EFI_VOLUME_FULL
  | EFI_BAD_BUFFER_SIZE | EFI_BUFFER_TOO_SMALL | EFI_NOT_READY | EFI_DEVICE_ERROR
  | EFI_WRITE_PROTECTED | EFI_OUT_OF_RESOURCES | EFI_NO_MEDIA | EFI_MEDIA_CHANGED
  | EFI_NOT_FOUND | EFI_ACCESS_DENIED

definition EFI_ERROR :: "efi_status \<Rightarrow> bool" where
  "EFI_ERROR s \<longleftrightarrow> s \<noteq> EFI_SUCCESS"

record nvme_device =
  MediaId :: u32
  BlockSize :: u32
  LastBlock :: u64
  Mdts :: byte
  Mpsmin :: "4 word"
  sector_bad :: "nat \<Rightarrow> bool"
  media :: "nat \<Rightarrow> byte"

section \<open>The contents\<close>

definition dev_bytes :: "nvme_device \<Rightarrow> nat \<Rightarrow> nat \<Rightarrow> bytes" where
  "dev_bytes dev a n = map (media dev) [a..<a + n]"

definition dev_put :: "nvme_device \<Rightarrow> nat \<Rightarrow> bytes \<Rightarrow> nvme_device" where
  "dev_put dev a bs = dev\<lparr>media := \<lambda>i. if a \<le> i \<and> i < a + length bs then bs ! (i - a) else media dev i\<rparr>"

definition sectors_ok :: "nvme_device \<Rightarrow> nat \<Rightarrow> nat \<Rightarrow> bool" where
  "sectors_ok dev lba n \<longleftrightarrow> list_all (\<lambda>i. \<not> sector_bad dev i) [lba..<lba + n]"

section \<open>Commands\<close>

text \<open>The block count of a command is the 16-bit field \<open>(Blocks - 1) & 0xFFFF\<close>, counted from zero.\<close>

definition command_blocks :: "u32 \<Rightarrow> nat" where
  "command_blocks blocks = unat ((blocks - 1) AND 0xFFFF) + 1"

text \<open>
  The largest transfer in bytes, \<open>(1 << Mdts) * (1 << (Mpsmin + 12))\<close>.  The factors
  are of type \<^verbatim>\<open>int\<close>, so the expression has a value only while the product fits;
  \<open>None\<close> is an expression without a value.
\<close>

definition MaxTransLen :: "nvme_device \<Rightarrow> u32 option" where
  "MaxTransLen dev =
     (if unat (Mdts dev) + (unat (Mpsmin dev) + 12) \<le> 30
      then Some (push_bit (unat (Mdts dev)) 1 * push_bit (unat (Mpsmin dev) + 12) 1) else None)"

text \<open>The same limit in blocks; a block size of zero is a division by zero.\<close>

definition MaxTransferBlocks :: "nvme_device \<Rightarrow> u32 option" where
  "MaxTransferBlocks dev =
     (if Mdts dev \<noteq> 0
      then (if BlockSize dev = 0 then None else map_option (\<lambda>len. len div BlockSize dev) (MaxTransLen dev))
      else Some 1024)"

text \<open>
  What \<^verbatim>\<open>PassThru\<close> answers to a command with a buffer of \<open>bytes\<close> bytes for \<open>n\<close> blocks:
  a buffer over the limit and an empty one are refused before the device is asked.
\<close>

definition NvmExpressPassThru :: "nvme_device \<Rightarrow> u32 \<Rightarrow> u64 \<Rightarrow> nat \<Rightarrow> efi_status" where
  "NvmExpressPassThru dev bytes lba n =
     (if Mdts dev \<noteq> 0 \<and> (case MaxTransLen dev of None \<Rightarrow> False | Some len \<Rightarrow> len < bytes) then EFI_BAD_BUFFER_SIZE
      else if bytes = 0 then EFI_INVALID_PARAMETER
      else if sectors_ok dev (unat lba) n then EFI_SUCCESS else EFI_DEVICE_ERROR)"

definition ReadSectors :: "nvme_device \<Rightarrow> u64 \<Rightarrow> u32 \<Rightarrow> efi_status \<times> bytes" where
  "ReadSectors dev lba blocks =
     (let n = command_blocks blocks; st = NvmExpressPassThru dev (blocks * BlockSize dev) lba n in
      (st, if EFI_ERROR st then [] else dev_bytes dev (unat lba * unat (BlockSize dev)) (n * unat (BlockSize dev))))"

definition WriteSectors :: "nvme_device \<Rightarrow> bytes \<Rightarrow> u64 \<Rightarrow> u32 \<Rightarrow> efi_status \<times> nvme_device" where
  "WriteSectors dev buf lba blocks =
     (let n = command_blocks blocks; st = NvmExpressPassThru dev (blocks * BlockSize dev) lba n in
      (st, if EFI_ERROR st then dev else dev_put dev (unat lba * unat (BlockSize dev)) (take (n * unat (BlockSize dev)) buf)))"

text \<open>
  The transfer loops, with \<open>mx\<close> the limit.  That they return is not built in:
  a loop that went on for ever would be \<open>None\<close>.
\<close>

partial_function (option) read_blocks :: "nvme_device \<Rightarrow> u32 \<Rightarrow> u64 \<Rightarrow> nat \<Rightarrow> (efi_status \<times> bytes) option" where
  "read_blocks dev mx lba blocks =
     (if blocks = 0 then Some (EFI_SUCCESS, [])
      else if unat mx < blocks then
        (case ReadSectors dev lba mx of (st, chunk) \<Rightarrow>
           if EFI_ERROR st then Some (st, chunk)
           else Option.bind (read_blocks dev mx (lba + ucast mx) (blocks - unat mx))
                  (\<lambda>(st', rest). Some (st', chunk @ rest)))
      else Some (ReadSectors dev lba (word_of_nat blocks)))"

partial_function (option) write_blocks :: "u32 \<Rightarrow> nvme_device \<Rightarrow> bytes \<Rightarrow> u64 \<Rightarrow> nat \<Rightarrow> (efi_status \<times> nvme_device) option" where
  "write_blocks mx dev buf lba blocks =
     (if blocks = 0 then Some (EFI_SUCCESS, dev)
      else if unat mx < blocks then
        (case WriteSectors dev buf lba mx of (st, dev') \<Rightarrow>
           if EFI_ERROR st then Some (st, dev')
           else write_blocks mx dev' (drop (unat (mx * BlockSize dev)) buf) (lba + ucast mx) (blocks - unat mx))
      else Some (WriteSectors dev buf lba (word_of_nat blocks)))"

definition NvmeRead :: "nvme_device \<Rightarrow> u64 \<Rightarrow> nat \<Rightarrow> (efi_status \<times> bytes) option" where
  "NvmeRead dev lba blocks = Option.bind (MaxTransferBlocks dev) (\<lambda>mx. read_blocks dev mx lba blocks)"

definition NvmeWrite :: "nvme_device \<Rightarrow> bytes \<Rightarrow> u64 \<Rightarrow> nat \<Rightarrow> (efi_status \<times> nvme_device) option" where
  "NvmeWrite dev buf lba blocks = Option.bind (MaxTransferBlocks dev) (\<lambda>mx. write_blocks mx dev buf lba blocks)"

section \<open>Block I/O entry points\<close>

text \<open>
  A read returns the bytes put at the start of the caller's buffer, a write the
  changed device.  A buffer \<open>None\<close> is the null pointer, a result \<open>None\<close> arithmetic
  without a value: a remainder by a block size of zero, or no transfer limit.
\<close>

definition NvmeBlockIoReadBlocks ::
  "nvme_device \<Rightarrow> u32 \<Rightarrow> u64 \<Rightarrow> u64 \<Rightarrow> bool \<Rightarrow> (efi_status \<times> bytes) option" where
  "NvmeBlockIoReadBlocks dev mediaid lba bufsz buf_given =
     (if mediaid \<noteq> MediaId dev then Some (EFI_MEDIA_CHANGED, [])
      else if \<not> buf_given then Some (EFI_INVALID_PARAMETER, [])
      else if bufsz = 0 then Some (EFI_SUCCESS, [])
      else if BlockSize dev = 0 then None
      else if bufsz mod ucast (BlockSize dev) \<noteq> 0 then Some (EFI_BAD_BUFFER_SIZE, [])
      else let n = bufsz div ucast (BlockSize dev) in
        if LastBlock dev < lba + n - 1 then Some (EFI_INVALID_PARAMETER, [])
        else NvmeRead dev lba (unat n))"

definition NvmeBlockIoWriteBlocks ::
  "nvme_device \<Rightarrow> u32 \<Rightarrow> u64 \<Rightarrow> u64 \<Rightarrow> bytes option \<Rightarrow> (efi_status \<times> nvme_device) option" where
  "NvmeBlockIoWriteBlocks dev mediaid lba bufsz buffer =
     (if mediaid \<noteq> MediaId dev then Some (EFI_MEDIA_CHANGED, dev)
      else case buffer of None \<Rightarrow> Some (EFI_INVALID_PARAMETER, dev)
      | Some buf \<Rightarrow>
        if bufsz = 0 then Some (EFI_SUCCESS, dev)
        else if BlockSize dev = 0 then None
        else if bufsz mod ucast (BlockSize dev) \<noteq> 0 then Some (EFI_BAD_BUFFER_SIZE, dev)
        else let n = bufsz div ucast (BlockSize dev) in
          if LastBlock dev < lba + n - 1 then Some (EFI_INVALID_PARAMETER, dev)
          else NvmeWrite dev buf lba (unat n))"

section \<open>Splitting does not show\<close>

definition nvme_ok :: "nvme_device \<Rightarrow> bool" where
  "nvme_ok dev \<longleftrightarrow> 0 < unat (BlockSize dev) \<and> (case MaxTransferBlocks dev of None \<Rightarrow> False
     | Some mx \<Rightarrow> 0 < unat mx \<and> unat mx \<le> 65536 \<and> unat mx * unat (BlockSize dev) < 2 ^ 32)"

definition in_media :: "nvme_device \<Rightarrow> nat \<Rightarrow> nat \<Rightarrow> bool" where
  "in_media dev lba n \<longleftrightarrow> lba + n \<le> unat (LastBlock dev) + 1"

lemma command_blocks_exact:
  assumes "0 < unat b" "unat b \<le> 65536"
  shows "command_blocks b = unat b"
proof -
  have "b \<noteq> 0" using assms by auto
  then have one: "unat (b - 1) = unat b - 1" by (simp add: unat_minus_one)
  have "unat ((b - 1) AND 0xFFFF) = unat (take_bit 16 (b - 1))"
    by (simp add: take_bit_eq_mask mask_eq_exp_minus_1)
  also have "\<dots> = take_bit 16 (unat (b - 1))"
    by (rule unsigned_take_bit_eq)
  also have "\<dots> = (unat b - 1) mod 65536"
    by (simp add: one take_bit_eq_mod)
  finally show ?thesis using assms by (simp add: command_blocks_def)
qed

lemma length_dev_bytes [simp, buf_simps]: "length (dev_bytes dev a n) = n"
  by (simp add: dev_bytes_def)

lemma dev_bytes_append: "dev_bytes dev a m @ dev_bytes dev (a + m) n = dev_bytes dev a (m + n)"
  using upt_add_eq_append [of a "a + m" n] by (simp add: dev_bytes_def add.assoc)

lemma slice_dev_bytes [buf_simps]:
  "ofs + n \<le> len \<Longrightarrow> slice ofs n (dev_bytes dev a len) = dev_bytes dev (a + ofs) n"
  unfolding dev_bytes_def by (rule slice_map_upt)

lemma dev_bytes_put_same [simp, buf_simps]: "n = length bs \<Longrightarrow> dev_bytes (dev_put dev a bs) a n = bs"
  by (auto simp: dev_bytes_def dev_put_def intro: nth_equalityI)

lemma dev_bytes_put_other [buf_simps]:
  "b + n \<le> a \<or> a + length bs \<le> b \<Longrightarrow> dev_bytes (dev_put dev a bs) b n = dev_bytes dev b n"
  by (auto simp: dev_bytes_def dev_put_def)

lemma dev_put_put: "dev_put (dev_put dev a xs) (a + length xs) ys = dev_put dev a (xs @ ys)"
  by (auto simp: dev_put_def nth_append fun_eq_iff intro!: nvme_device.equality)

lemma dev_put_Nil [simp]: "dev_put dev a [] = dev"
  by (auto simp: dev_put_def fun_eq_iff intro!: nvme_device.equality)

lemma dev_put_fields [simp]:
  "MediaId (dev_put dev a bs) = MediaId dev" "BlockSize (dev_put dev a bs) = BlockSize dev"
  "LastBlock (dev_put dev a bs) = LastBlock dev" "sector_bad (dev_put dev a bs) = sector_bad dev"
  "MaxTransferBlocks (dev_put dev a bs) = MaxTransferBlocks dev"
  "sectors_ok (dev_put dev a bs) = sectors_ok dev"
  by (auto simp: dev_put_def MaxTransferBlocks_def MaxTransLen_def sectors_ok_def fun_eq_iff)

lemma dev_put_ok [simp]:
  "nvme_ok (dev_put dev a bs) = nvme_ok dev" "in_media (dev_put dev a bs) = in_media dev"
  by (auto simp: nvme_ok_def in_media_def fun_eq_iff split: option.splits)

lemma sectors_ok_split:
  "m \<le> n \<Longrightarrow> sectors_ok dev a n \<longleftrightarrow> sectors_ok dev a m \<and> sectors_ok dev (a + m) (n - m)"
  using upt_add_eq_append [of a "a + m" "n - m"] by (simp add: sectors_ok_def)

lemma lba_advance:
  assumes "in_media dev (unat (lba :: u64)) n" "unat (k :: u32) < n"
  shows "unat (lba + ucast k) = unat lba + unat k"
proof -
  have "unat lba + unat k < 2 ^ 64"
    using assms unat_bound [of "LastBlock dev"] by (simp add: in_media_def)
  moreover have "unat (ucast k :: u64) = unat k"
    by (rule unat_ucast_u64)
  ultimately show ?thesis by (simp add: unat_word_ariths)
qed

text \<open>A command of the loops has a buffer within the limit, so only the device can refuse it.\<close>

lemma nvme_okE:
  assumes "nvme_ok dev"
  obtains mx where "MaxTransferBlocks dev = Some mx" "0 < unat mx" "unat mx \<le> 65536"
    "unat mx * unat (BlockSize dev) < 2 ^ 32" "0 < unat (BlockSize dev)"
  using assms by (auto simp: nvme_ok_def split: option.splits)

lemma PassThru_command:
  assumes "nvme_ok dev" "MaxTransferBlocks dev = Some mx" "0 < unat k" "unat k \<le> unat mx"
  shows "NvmExpressPassThru dev (k * BlockSize dev) lba n =
    (if sectors_ok dev (unat lba) n then EFI_SUCCESS else EFI_DEVICE_ERROR)"
proof -
  let ?bs = "unat (BlockSize dev)"
  have ok: "unat mx * ?bs < 2 ^ 32" "0 < ?bs" using assms(1,2) by (auto elim: nvme_okE)
  have le: "unat k * ?bs \<le> unat mx * ?bs" using assms(4) by (rule mult_le_mono1)
  then have "unat k * ?bs < 2 ^ 32" using ok(1) by (rule le_less_trans)
  then have bytes: "unat (k * BlockSize dev) = unat k * ?bs" by (simp add: unat_word_ariths)
  then have nz: "k * BlockSize dev \<noteq> 0" using ok(2) assms(3) by auto
  have "\<not> len < k * BlockSize dev" if "Mdts dev \<noteq> 0" "MaxTransLen dev = Some len" for len
  proof -
    have "mx = len div BlockSize dev" using assms(2) that by (auto simp: MaxTransferBlocks_def split: if_splits)
    then have "unat mx * ?bs \<le> unat len" by (simp add: unat_div_distrib div_times_less_eq_dividend)
    then have "unat k * ?bs \<le> unat len" using le by (rule order_trans [rotated])
    then show ?thesis using bytes by (simp only: word_less_nat_alt not_less)
  qed
  then show ?thesis using nz by (auto simp: NvmExpressPassThru_def split: option.splits)
qed

lemma command_exact:
  assumes "nvme_ok dev" "MaxTransferBlocks dev = Some mx" "0 < unat k" "unat k \<le> unat mx"
  shows "ReadSectors dev lba k = (if sectors_ok dev (unat lba) (unat k)
      then (EFI_SUCCESS, dev_bytes dev (unat lba * unat (BlockSize dev)) (unat k * unat (BlockSize dev))) else (EFI_DEVICE_ERROR, []))"
    and "WriteSectors dev buf lba k = (if sectors_ok dev (unat lba) (unat k)
      then (EFI_SUCCESS, dev_put dev (unat lba * unat (BlockSize dev)) (take (unat k * unat (BlockSize dev)) buf)) else (EFI_DEVICE_ERROR, dev))"
proof -
  have "unat mx \<le> 65536" using assms(1,2) by (auto elim: nvme_okE)
  then have "command_blocks k = unat k" using assms(3,4) by (intro command_blocks_exact) simp_all
  then show "ReadSectors dev lba k = (if sectors_ok dev (unat lba) (unat k)
      then (EFI_SUCCESS, dev_bytes dev (unat lba * unat (BlockSize dev)) (unat k * unat (BlockSize dev))) else (EFI_DEVICE_ERROR, []))"
    "WriteSectors dev buf lba k = (if sectors_ok dev (unat lba) (unat k)
      then (EFI_SUCCESS, dev_put dev (unat lba * unat (BlockSize dev)) (take (unat k * unat (BlockSize dev)) buf)) else (EFI_DEVICE_ERROR, dev))"
    using PassThru_command [OF assms] by (simp_all add: ReadSectors_def WriteSectors_def EFI_ERROR_def Let_def)
qed

text \<open>
  The read loop ends: with no limit at all the first command is refused, and
  otherwise fewer blocks are left after each.  It reports success exactly when
  every sector it was asked for can be read.
\<close>

lemma read_blocks_exact:
  assumes "nvme_ok dev" "MaxTransferBlocks dev = Some mx" "in_media dev (unat lba) blocks"
  shows "\<exists>data. read_blocks dev mx lba blocks =
    Some (if sectors_ok dev (unat lba) blocks then EFI_SUCCESS else EFI_DEVICE_ERROR, data) \<and>
    (sectors_ok dev (unat lba) blocks \<longrightarrow> data = dev_bytes dev (unat lba * unat (BlockSize dev)) (blocks * unat (BlockSize dev)))"
  using assms(3)
proof (induction blocks arbitrary: lba rule: less_induct)
  case (less blocks)
  let ?mx = "unat mx" and ?bs = "unat (BlockSize dev)"
  have mx: "0 < ?mx" "?mx \<le> 65536" using assms(1,2) by (auto elim: nvme_okE)
  consider "blocks = 0" | "0 < blocks" "blocks \<le> ?mx" | "?mx < blocks" by linarith
  then show ?case
  proof cases
    case 1
    then show ?thesis by (simp add: read_blocks.simps [of dev mx lba] sectors_ok_def dev_bytes_def)
  next
    case 2
    then have "unat (word_of_nat blocks :: u32) = blocks" using mx by (simp add: unat_of_nat)
    then show ?thesis using 2 command_exact(1) [OF assms(1,2), of "word_of_nat blocks" lba]
      by (simp add: read_blocks.simps [of dev mx lba])
  next
    case 3
    have adv: "unat (lba + ucast mx) = unat lba + ?mx" using lba_advance [OF less.prems] 3 by simp
    have split: "sectors_ok dev (unat lba) blocks \<longleftrightarrow> sectors_ok dev (unat lba) ?mx \<and> sectors_ok dev (unat lba + ?mx) (blocks - ?mx)"
      using 3 by (intro sectors_ok_split) simp
    obtain data where rest: "read_blocks dev mx (lba + ucast mx) (blocks - ?mx) =
        Some (if sectors_ok dev (unat lba + ?mx) (blocks - ?mx) then EFI_SUCCESS else EFI_DEVICE_ERROR, data)"
      "sectors_ok dev (unat lba + ?mx) (blocks - ?mx) \<longrightarrow> data = dev_bytes dev ((unat lba + ?mx) * ?bs) ((blocks - ?mx) * ?bs)"
      using less.IH [of "blocks - ?mx" "lba + ucast mx"] less.prems 3 mx adv by (auto simp: in_media_def)
    have "?mx * ?bs + (blocks - ?mx) * ?bs = blocks * ?bs" using 3 by (simp flip: add_mult_distrib)
    then have join: "dev_bytes dev (unat lba * ?bs) (?mx * ?bs) @ dev_bytes dev ((unat lba + ?mx) * ?bs) ((blocks - ?mx) * ?bs)
        = dev_bytes dev (unat lba * ?bs) (blocks * ?bs)"
      by (simp add: add_mult_distrib dev_bytes_append)
    show ?thesis using 3 rest join split command_exact(1) [OF assms(1,2) mx(1) order_refl, of lba]
      by (subst read_blocks.simps) (auto simp: EFI_ERROR_def)
  qed
qed

theorem NvmeRead_exact:
  assumes "nvme_ok dev" "in_media dev (unat lba) blocks" "sectors_ok dev (unat lba) blocks"
  shows "NvmeRead dev lba blocks =
    Some (EFI_SUCCESS, dev_bytes dev (unat lba * unat (BlockSize dev)) (blocks * unat (BlockSize dev)))"
  using assms(1)
proof (rule nvme_okE)
  fix mx assume "MaxTransferBlocks dev = Some mx"
  then show ?thesis using read_blocks_exact [OF assms(1) _ assms(2), of mx] assms(3) by (auto simp: NvmeRead_def)
qed

lemma write_blocks_exact:
  assumes "nvme_ok dev" "MaxTransferBlocks dev = Some mx" "in_media dev (unat lba) blocks" "sectors_ok dev (unat lba) blocks"
    and "length buf = blocks * unat (BlockSize dev)"
  shows "write_blocks mx dev buf lba blocks = Some (EFI_SUCCESS, dev_put dev (unat lba * unat (BlockSize dev)) buf)"
  using assms
proof (induction blocks arbitrary: dev buf lba rule: less_induct)
  case (less blocks)
  let ?mx = "unat mx" and ?bs = "unat (BlockSize dev)"
  have mx: "0 < ?mx" "?mx \<le> 65536" "?mx * ?bs < 2 ^ 32" using less.prems(1,2) by (auto elim: nvme_okE)
  consider "blocks = 0" | "0 < blocks" "blocks \<le> ?mx" | "?mx < blocks" by linarith
  then show ?case
  proof cases
    case 1
    then show ?thesis using less.prems by (simp add: write_blocks.simps [of mx dev _ lba])
  next
    case 2
    then have "unat (word_of_nat blocks :: u32) = blocks" using mx by (simp add: unat_of_nat)
    then show ?thesis using 2 command_exact(2) [OF less.prems(1,2), of "word_of_nat blocks" buf lba] less.prems
      by (simp add: write_blocks.simps [of mx dev buf lba])
  next
    case 3
    let ?dev = "dev_put dev (unat lba * ?bs) (take (?mx * ?bs) buf)"
    have adv: "unat (lba + ucast mx) = unat lba + ?mx" using lba_advance [OF less.prems(3)] 3 by simp
    have ok: "sectors_ok dev (unat lba) ?mx" "sectors_ok dev (unat lba + ?mx) (blocks - ?mx)"
      using less.prems(4) sectors_ok_split [of ?mx blocks] 3 by auto
    have step: "unat (mx * BlockSize dev) = ?mx * ?bs" using mx by (simp add: unat_word_ariths)
    have le: "?mx * ?bs \<le> length buf" using less.prems(5) 3 by simp
    have "write_blocks mx ?dev (drop (?mx * ?bs) buf) (lba + ucast mx) (blocks - ?mx) = Some (EFI_SUCCESS,
        dev_put ?dev (unat (lba + ucast mx) * unat (BlockSize ?dev)) (drop (?mx * ?bs) buf))"
      using less.prems 3 mx ok adv by (intro less.IH) (auto simp: in_media_def diff_mult_distrib)
    moreover have "dev_put ?dev ((unat lba + ?mx) * ?bs) (drop (?mx * ?bs) buf) = dev_put dev (unat lba * ?bs) buf"
      using dev_put_put [of dev "unat lba * ?bs" "take (?mx * ?bs) buf" "drop (?mx * ?bs) buf"] le
      by (simp add: min_absorb2 add_mult_distrib)
    ultimately show ?thesis using 3 ok adv step command_exact(2) [OF less.prems(1,2) mx(1) order_refl, of buf lba]
      by (subst write_blocks.simps) (simp add: EFI_ERROR_def)
  qed
qed

theorem NvmeWrite_exact:
  assumes "nvme_ok dev" "in_media dev (unat lba) blocks" "sectors_ok dev (unat lba) blocks"
    and "length buf = blocks * unat (BlockSize dev)"
  shows "NvmeWrite dev buf lba blocks =
    Some (EFI_SUCCESS, dev_put dev (unat lba * unat (BlockSize dev)) buf)"
  using assms(1)
proof (rule nvme_okE)
  fix mx assume "MaxTransferBlocks dev = Some mx"
  then show ?thesis using write_blocks_exact [OF assms(1) _ assms(2-4), of mx] by (simp add: NvmeWrite_def)
qed

text \<open>Both loops return for every device, even one whose blocks are larger than the limit.\<close>

lemma command_error:
  assumes "mx = 0"
  shows "ReadSectors dev lba mx = (EFI_INVALID_PARAMETER, [])" "WriteSectors dev buf lba mx = (EFI_INVALID_PARAMETER, dev)"
  using assms by (auto simp: ReadSectors_def WriteSectors_def NvmExpressPassThru_def EFI_ERROR_def Let_def split: option.splits)

lemma read_blocks_returns: "\<exists>r. read_blocks dev mx lba blocks = Some r"
proof (induction blocks arbitrary: lba rule: less_induct)
  case (less blocks)
  obtain st chunk where rd: "ReadSectors dev lba mx = (st, chunk)" by fastforce
  have "\<exists>r. read_blocks dev mx (lba + ucast mx) (blocks - unat mx) = Some r" if "unat mx < blocks" "\<not> EFI_ERROR st"
  proof (rule less)
    have "mx \<noteq> 0" using that(2) rd command_error(1) [of mx dev lba] by (auto simp: EFI_ERROR_def)
    then show "blocks - unat mx < blocks" using that(1) by (simp add: unat_gt_0)
  qed
  then show ?case using rd by (subst read_blocks.simps) (auto split: prod.splits)
qed

lemma write_blocks_returns: "\<exists>r. write_blocks mx dev buf lba blocks = Some r"
proof (induction blocks arbitrary: dev buf lba rule: less_induct)
  case (less blocks)
  obtain st dev' where wr: "WriteSectors dev buf lba mx = (st, dev')" by fastforce
  have "\<exists>r. write_blocks mx dev' buf' (lba + ucast mx) (blocks - unat mx) = Some r" if "unat mx < blocks" "\<not> EFI_ERROR st" for buf'
  proof (rule less)
    have "mx \<noteq> 0" using that(2) wr command_error(2) [of mx dev buf lba] by (auto simp: EFI_ERROR_def)
    then show "blocks - unat mx < blocks" using that(1) by (simp add: unat_gt_0)
  qed
  then show ?case using wr by (subst write_blocks.simps) auto
qed

section \<open>Requests of whole blocks\<close>

lemma block_request:
  assumes "nvme_ok dev" "unat (bufsz :: u64) = n * unat (BlockSize dev)" "0 < n" "in_media dev (unat (lba :: u64)) n"
  shows "bufsz \<noteq> 0" "BlockSize dev \<noteq> 0" "bufsz mod ucast (BlockSize dev) = 0"
    "unat (bufsz div ucast (BlockSize dev)) = n"
    "\<not> LastBlock dev < lba + bufsz div ucast (BlockSize dev) - 1"
proof -
  let ?bs = "unat (BlockSize dev)"
  have bs: "0 < ?bs" using assms(1) by (simp add: nvme_ok_def)
  then show "BlockSize dev \<noteq> 0" by auto
  have "unat bufsz \<noteq> 0" using assms(2,3) bs by simp
  then show "bufsz \<noteq> 0" by auto
  have "unat (bufsz mod ucast (BlockSize dev)) = 0"
    using assms(2) by (simp add: unat_mod_distrib)
  then show "bufsz mod ucast (BlockSize dev) = 0" by (simp add: unat_eq_zero)
  show n: "unat (bufsz div ucast (BlockSize dev)) = n"
    using assms(2) bs by (simp add: unat_div_distrib)
  let ?q = "bufsz div ucast (BlockSize dev)"
  have q: "?q \<noteq> 0" using n assms(3) by auto
  have lt: "unat lba + (n - 1) \<le> unat (LastBlock dev)" using assms(3,4) by (simp add: in_media_def)
  then have "unat (lba + (?q - 1)) = unat lba + (n - 1)"
    using unat_bound [of "LastBlock dev"] n q by (simp add: unat_word_ariths unat_minus_one)
  then have "unat (lba + ?q - 1) = unat lba + (n - 1)" by (simp only: add_diff_eq)
  then show "\<not> LastBlock dev < lba + ?q - 1"
    using lt by (simp add: word_less_nat_alt)
qed

lemma ReadBlocks_exact:
  assumes "nvme_ok dev" "unat bufsz = n * unat (BlockSize dev)" "0 < n" "in_media dev (unat lba) n"
    "sectors_ok dev (unat lba) n"
  shows "NvmeBlockIoReadBlocks dev (MediaId dev) lba bufsz True =
    Some (EFI_SUCCESS, dev_bytes dev (unat lba * unat (BlockSize dev)) (unat bufsz))"
  using block_request [OF assms(1-4)] assms NvmeRead_exact [OF assms(1,4,5)]
  by (simp add: NvmeBlockIoReadBlocks_def)

lemma WriteBlocks_exact:
  assumes "nvme_ok dev" "unat bufsz = n * unat (BlockSize dev)" "0 < n" "in_media dev (unat lba) n"
    "sectors_ok dev (unat lba) n" "length buf = unat bufsz"
  shows "NvmeBlockIoWriteBlocks dev (MediaId dev) lba bufsz (Some buf) =
    Some (EFI_SUCCESS, dev_put dev (unat lba * unat (BlockSize dev)) buf)"
  using block_request [OF assms(1-4)] assms NvmeWrite_exact [OF assms(1,4,5)]
  by (simp add: NvmeBlockIoWriteBlocks_def)

text \<open>Whatever becomes of a write, the device keeps its shape and every byte outside the request.\<close>

definition same_outside :: "nat \<Rightarrow> nat \<Rightarrow> nvme_device \<Rightarrow> nvme_device \<Rightarrow> bool" where
  "same_outside a b dev dev' \<longleftrightarrow> (\<exists>m. dev' = dev\<lparr>media := m\<rparr>) \<and>
     (\<forall>i. i < a \<or> b \<le> i \<longrightarrow> media dev' i = media dev i)"

lemma same_outside_refl [simp, intro]: "same_outside a b dev dev"
  unfolding same_outside_def by (auto intro!: exI [of _ "media dev"])

lemma same_outside_trans:
  "same_outside a b d1 d2 \<Longrightarrow> same_outside a b d2 d3 \<Longrightarrow> same_outside a b d1 d3"
  by (auto simp: same_outside_def)

lemma same_outside_put: "a \<le> x \<Longrightarrow> x + length bs \<le> b \<Longrightarrow> same_outside a b dev (dev_put dev x bs)"
  by (auto simp: same_outside_def dev_put_def)

lemma same_outside_bytes:
  "same_outside a b dev dev' \<Longrightarrow> x + n \<le> a \<or> b \<le> x \<Longrightarrow> dev_bytes dev' x n = dev_bytes dev x n"
  by (auto simp: same_outside_def dev_bytes_def)

lemma media_update_fields [simp]:
  "MaxTransferBlocks (dev\<lparr>media := m\<rparr>) = MaxTransferBlocks dev"
  "nvme_ok (dev\<lparr>media := m\<rparr>) = nvme_ok dev" "in_media (dev\<lparr>media := m\<rparr>) = in_media dev"
  "sectors_ok (dev\<lparr>media := m\<rparr>) = sectors_ok dev"
  by (simp_all add: MaxTransferBlocks_def MaxTransLen_def nvme_ok_def in_media_def sectors_ok_def fun_eq_iff)

lemma write_blocks_outside:
  assumes "write_blocks mx dev buf lba blocks = Some (st, dev')" "nvme_ok dev" "MaxTransferBlocks dev = Some mx"
    "in_media dev (unat lba) blocks"
    and "a \<le> unat lba * unat (BlockSize dev)" "(unat lba + blocks) * unat (BlockSize dev) \<le> b"
  shows "same_outside a b dev dev'"
  using assms
proof (induction blocks arbitrary: dev buf lba rule: less_induct)
  case (less blocks)
  let ?mx = "unat mx" and ?bs = "unat (BlockSize dev)"
  have mx: "0 < ?mx" "?mx \<le> 65536" using less.prems(2,3) by (auto elim: nvme_okE)
  have cmd: "same_outside a b dev (snd (WriteSectors dev buf lba k))"
    if "unat k \<le> blocks" "0 < unat k" "unat k \<le> ?mx" for k
  proof -
    have "unat k * ?bs \<le> blocks * ?bs" using that(1) by (rule mult_le_mono1)
    moreover have "length (take (unat k * ?bs) buf) \<le> unat k * ?bs" by simp
    ultimately have "unat lba * ?bs + length (take (unat k * ?bs) buf) \<le> b"
      using less.prems(6) unfolding add_mult_distrib by linarith
    then show ?thesis
      using less.prems(5) that command_exact(2) [OF less.prems(2,3), of k buf lba] by (simp add: same_outside_put)
  qed
  consider "blocks = 0" | "0 < blocks" "blocks \<le> ?mx" | "?mx < blocks" by linarith
  then show ?case
  proof cases
    case 1
    then show ?thesis using less.prems(1) by (simp add: write_blocks.simps [of mx dev buf lba 0])
  next
    case 2
    then have k: "unat (word_of_nat blocks :: u32) = blocks" using mx by (simp add: unat_of_nat)
    then show ?thesis using 2 less.prems(1) cmd [of "word_of_nat blocks"]
      by (subst (asm) write_blocks.simps) auto
  next
    case 3
    obtain st1 dev1 where wr: "WriteSectors dev buf lba mx = (st1, dev1)" by fastforce
    have s1: "same_outside a b dev dev1" using cmd [of mx] wr 3 mx by simp
    then obtain m where dev1: "dev1 = dev\<lparr>media := m\<rparr>" by (auto simp: same_outside_def)
    show ?thesis
    proof (cases "EFI_ERROR st1")
      case True
      then show ?thesis using less.prems(1) 3 wr s1 by (subst (asm) write_blocks.simps) simp
    next
      case False
      have adv: "unat (lba + ucast mx) = unat lba + ?mx" using lba_advance [OF less.prems(4)] 3 by simp
      have "same_outside a b dev1 dev'"
      proof (rule less.IH)
        show "blocks - ?mx < blocks" using 3 mx by simp
        show "write_blocks mx dev1 (drop (unat (mx * BlockSize dev)) buf) (lba + ucast mx) (blocks - ?mx) = Some (st, dev')"
          using less.prems(1) 3 wr False by (subst (asm) write_blocks.simps) simp
        show "nvme_ok dev1" "MaxTransferBlocks dev1 = Some mx" using dev1 less.prems(2,3) by simp_all
        show "in_media dev1 (unat (lba + ucast mx)) (blocks - ?mx)" using less.prems(4) 3 adv dev1 by (simp add: in_media_def)
        show "a \<le> unat (lba + ucast mx) * unat (BlockSize dev1)" using less.prems(5) adv dev1 by (simp add: add_mult_distrib)
        show "(unat (lba + ucast mx) + (blocks - ?mx)) * unat (BlockSize dev1) \<le> b" using less.prems(6) adv dev1 3 by simp
      qed
      then show ?thesis using s1 by (rule same_outside_trans [rotated])
    qed
  qed
qed

lemma NvmeWrite_outside:
  assumes "NvmeWrite dev buf lba blocks = Some (st, dev')" "nvme_ok dev"
    "in_media dev (unat lba) blocks"
    and "a \<le> unat lba * unat (BlockSize dev)" "(unat lba + blocks) * unat (BlockSize dev) \<le> b"
  shows "same_outside a b dev dev'"
  using assms(2)
proof (rule nvme_okE)
  fix mx assume "MaxTransferBlocks dev = Some mx"
  then show ?thesis using write_blocks_outside [of mx dev buf lba blocks st dev'] assms by (simp add: NvmeWrite_def)
qed

section \<open>The store as an interface\<close>

text \<open>
  What the boot loader needs from its medium: loads of a given length, and a
  store that is seen by later loads of the same place and by no other load.
  The client lemmas are about a stored record: every part of it reads back, and
  a decoder undoes an encoder through the medium.
\<close>

locale raw_store =
  fixes load :: "'d \<Rightarrow> nat \<Rightarrow> nat \<Rightarrow> bytes"
    and store :: "'d \<Rightarrow> nat \<Rightarrow> bytes \<Rightarrow> 'd"
  assumes length_load: "length (load d a n) = n"
    and load_sub: "k + m \<le> n \<Longrightarrow> load d (a + k) m = slice k m (load d a n)"
    and load_store: "load (store d a bs) a (length bs) = bs"
    and load_store_away: "b + n \<le> a \<or> a + length bs \<le> b \<Longrightarrow> load (store d a bs) b n = load d b n"
begin

lemma load_part: "k + m \<le> length bs \<Longrightarrow> load (store d a bs) (a + k) m = slice k m bs"
  by (simp add: load_sub [where n = "length bs"] load_store)

lemma load_store_again: "length cs = length bs \<Longrightarrow> load (store (store d a bs) a cs) a (length bs) = cs"
  using load_store [of "store d a bs" a cs] by simp

lemma decode_stored:
  assumes "\<And>x. dec (enc x) = x" "length (enc x) + length pad \<le> n"
  shows "dec (load (store d a (enc x @ pad)) a (length (enc x))) = x"
  using load_part [of 0 "length (enc x)" "enc x @ pad" d a] assms
  by (simp add: buf_simps)

end

interpretation nvme: raw_store dev_bytes dev_put
proof
  show "k + m \<le> n \<Longrightarrow> dev_bytes d (a + k) m = slice k m (dev_bytes d a n)" for k m n d a
    by (simp add: slice_dev_bytes)
qed (simp_all add: dev_bytes_put_other)

end
