(* ===== verification/Sbc_Machine.thy ===== *)
theory Sbc_Machine
  imports Uefi_Nvme
begin

text \<open>
  The machine the boot loaders run on, as the firmware's services show it: the
  block devices in the order \<^verbatim>\<open>LocateHandleBuffer\<close> lists them, the simple file
  systems in the same way, the SMBIOS table, the answers of the NVMe controllers
  to an identify command, the memory pool, the random number generator, and
  the images that were started.  The services themselves are the platform's and
  not the package's: each field is what one of them answers.  Also here: the
  status codes of \<^verbatim>\<open>SBC_ErrorType.h\<close> and the boot and key modes of
  \<^verbatim>\<open>SBC_FileCtrl.h\<close>.
\<close>

section \<open>Status codes and modes\<close>

datatype SBCStatus =
    SBCOK | SBCFAIL | SBCINVPARAM | SBCNULLP | SBCZEROL | SBCNOTFND | SBCBADFMT | SBCFMMTTYP
  | SBCNOSPC | SBCIO | SBCFAULT | SBCBUSY | SBCTIME | SBCCOMM | SBCPROTO | SBCNOTSUP
  | SBCENCFAIL | SBCDECFAIL | SBCBSANSWNOTFND | SBCUNKNOWN

abbreviation BOOT_MODE_NONE :: u32 where "BOOT_MODE_NONE \<equiv> 0"
abbreviation BOOT_MODE_NORMAL :: u32 where "BOOT_MODE_NORMAL \<equiv> 1"
abbreviation BOOT_MODE_UPDATE :: u32 where "BOOT_MODE_UPDATE \<equiv> 2"
abbreviation BOOT_MODE_RECOVERY :: u32 where "BOOT_MODE_RECOVERY \<equiv> 3"
abbreviation BOOT_MODE_FACTORY :: u32 where "BOOT_MODE_FACTORY \<equiv> 4"
abbreviation BOOT_MODE_UNKNOWN :: u32 where "BOOT_MODE_UNKNOWN \<equiv> 5"

abbreviation KEY_MODE_NONE :: u32 where "KEY_MODE_NONE \<equiv> 0"
abbreviation KEY_MODE_NORMAL :: u32 where "KEY_MODE_NORMAL \<equiv> 1"
abbreviation KEY_MODE_BOOT :: u32 where "KEY_MODE_BOOT \<equiv> 2"
abbreviation KEY_MODE_UPDATE :: u32 where "KEY_MODE_UPDATE \<equiv> 3"
abbreviation KEY_MODE_UNKNOWN :: u32 where "KEY_MODE_UNKNOWN \<equiv> 4"

section \<open>The machine\<close>

text \<open>
  A path is the list of its components, none of them empty.  Names are matched by
  the file system.
\<close>

type_synonym path = "string list"

datatype node = RegFile bytes | Directory

text \<open>
  A volume: the answers to opening it, to reading a file, to a request for the
  information on a file, to opening a file for writing and to making one.
  \<open>vol_readonly\<close> has the entries with the read-only attribute.  \<open>vol_files\<close> has the files and directories by the path of their
  entry, long names in upper case; \<open>vol_short d s\<close> is the long name of the entry of
  the directory \<open>d\<close> that has the short name \<open>s\<close>.  \<open>vol_grow n\<close> is the answer to a request for the clusters of a file
  of \<open>n\<close> bytes, \<open>vol_slack\<close> what fresh clusters hold, and \<open>vol_write n\<close> the answer to
  a disk write of \<open>n\<close> bytes with the number of bytes written when it is an error.
\<close>

record volume =
  vol_open :: efi_status
  vol_files :: "path \<Rightarrow> node option"
  vol_short :: "path \<Rightarrow> string \<Rightarrow> string"
  vol_read :: efi_status
  vol_info :: efi_status
  vol_wopen :: efi_status
  vol_create :: efi_status
  vol_readonly :: "path \<Rightarrow> bool"
  vol_grow :: "nat \<Rightarrow> efi_status"
  vol_slack :: "nat \<Rightarrow> byte"
  vol_write :: "nat \<Rightarrow> efi_status \<times> nat"

text \<open>
  \<open>None\<close> in a list of handles is a handle whose protocol interface cannot be
  had.  \<open>pool_ok n\<close> says that an allocation of \<open>n\<close> bytes succeeds, \<open>stale\<close> what
  memory holds that nothing has written yet.  \<open>rng k n\<close> is the answer to the
  \<open>k\<close>-th request for \<open>n\<close> random bytes, \<open>None\<close> when the generator fails.
  \<open>loadable\<close> says which file contents \<^verbatim>\<open>LoadImage\<close> takes as an image.
\<close>

record machine =
  blkdevs :: "nvme_device option list"
  volumes :: "volume option list"
  smbios :: "bytes list option"
  nvme_identify :: "bytes option list"
  pool_ok :: "nat \<Rightarrow> bool"
  stale :: "nat \<Rightarrow> byte"
  rng :: "nat \<Rightarrow> nat \<Rightarrow> bytes option"
  rng_calls :: nat
  loadable :: "bytes \<Rightarrow> bool"
  started :: "path list"

type_synonym 'a io = "(machine, 'a) prog"

text \<open>A block I/O handle is the position of its device; \<open>None\<close> is the null pointer.\<close>

type_synonym blkhandle = "nat option"

definition blkdev :: "machine \<Rightarrow> nat \<Rightarrow> nvme_device option" where
  "blkdev m i = (if i < length (blkdevs m) then blkdevs m ! i else None)"

definition put_blkdev :: "nat \<Rightarrow> nvme_device \<Rightarrow> machine \<Rightarrow> machine" where
  "put_blkdev i dev m = m\<lparr>blkdevs := (blkdevs m)[i := Some dev]\<rparr>"

definition stale_bytes :: "machine \<Rightarrow> nat \<Rightarrow> bytes" where
  "stale_bytes m n = map (stale m) [0..<n]"

lemma length_stale_bytes [simp, buf_simps]: "length (stale_bytes m n) = n"
  by (simp add: stale_bytes_def)

lemma blkdev_put [simp]:
  "blkdev m i = Some d \<Longrightarrow> blkdev (put_blkdev i dev m) i = Some dev"
  "j \<noteq> i \<Longrightarrow> blkdev (put_blkdev i dev m) j = blkdev m j"
  by (auto simp: blkdev_def put_blkdev_def split: if_splits)

lemma put_blkdev_put [simp]: "put_blkdev i d2 (put_blkdev i d1 m) = put_blkdev i d2 m"
  by (simp add: put_blkdev_def)

lemma put_blkdev_self: "blkdev m i = Some dev \<Longrightarrow> put_blkdev i dev m = m"
proof -
  assume "blkdev m i = Some dev"
  then have "(blkdevs m)[i := Some dev] = blkdevs m"
    by (metis blkdev_def list_update_id option.distinct(1))
  then show ?thesis by (simp add: put_blkdev_def)
qed

lemma put_blkdev_fields [simp]:
  "volumes (put_blkdev i dev m) = volumes m" "smbios (put_blkdev i dev m) = smbios m"
  "nvme_identify (put_blkdev i dev m) = nvme_identify m" "pool_ok (put_blkdev i dev m) = pool_ok m"
  "stale (put_blkdev i dev m) = stale m" "rng (put_blkdev i dev m) = rng m"
  "rng_calls (put_blkdev i dev m) = rng_calls m" "loadable (put_blkdev i dev m) = loadable m"
  "started (put_blkdev i dev m) = started m" "stale_bytes (put_blkdev i dev m) = stale_bytes m"
  "length (blkdevs (put_blkdev i dev m)) = length (blkdevs m)"
  by (simp_all add: put_blkdev_def stale_bytes_def fun_eq_iff)

end
