(* ===== verification/Sbc_RawPrt.thy ===== *)
theory Sbc_RawPrt
  imports Sbc_Machine
begin

text \<open>
  The raw partition of \<^verbatim>\<open>SBC_FileCtrl.c\<close> and \<^verbatim>\<open>SBC_FileCtrl.h\<close>: the header in block
  zero with boot mode, key mode and boot preference, its byte layout, block
  reads and writes through the block I/O protocol, the search for the device
  that carries the header, and the load of the system settings area.
\<close>

unbundle bit_operations_syntax

section \<open>The header and its layout\<close>

record rawprt_hdr =
  magicid :: u32
  prtinfo :: bytes
  reserv :: bytes
  bootmode :: u16
  keymode :: u16
  rcvmode :: u16
  bootpres :: bytes

abbreviation SBC_PRTNIFO_LEN :: nat where "SBC_PRTNIFO_LEN \<equiv> 64"
abbreviation SBC_HDR_SKIP_LEN :: nat where "SBC_HDR_SKIP_LEN \<equiv> 46"
abbreviation SBC_BOOT_PRES_LEN :: nat where "SBC_BOOT_PRES_LEN \<equiv> 8"
abbreviation SBC_RAWPRT_MAGIC_ID :: u32 where "SBC_RAWPRT_MAGIC_ID \<equiv> 0xAA55AA55"
abbreviation SIZEOF_HDR :: nat where "SIZEOF_HDR \<equiv> 128"
abbreviation SBC_RAWPRT_DFLT_SHIFT :: nat where "SBC_RAWPRT_DFLT_SHIFT \<equiv> 9"
abbreviation SBC_RAWPRT_DFLT_BLK_SZ :: u32 where "SBC_RAWPRT_DFLT_BLK_SZ \<equiv> 512"

definition hdr_wf :: "rawprt_hdr \<Rightarrow> bool" where
  "hdr_wf h \<longleftrightarrow> length (prtinfo h) = SBC_PRTNIFO_LEN \<and> length (reserv h) = SBC_HDR_SKIP_LEN
     \<and> length (bootpres h) = SBC_BOOT_PRES_LEN"

text \<open>
  The header as the record of its fields and as the memory of the packed structure of
  \<^verbatim>\<open>SBC_FileCtrl.h\<close>.  The code has no function for either direction: it copies the bytes of the
  block over the structure and back, and the two definitions say which bytes are
  which field on a little endian machine.
\<close>

definition hdr_bytes :: "rawprt_hdr \<Rightarrow> bytes" where
  "hdr_bytes h = le32 (magicid h) @ prtinfo h @ reserv h @ le16 (bootmode h) @ le16 (keymode h)
     @ le16 (rcvmode h) @ bootpres h"

definition hdr_of_bytes :: "bytes \<Rightarrow> rawprt_hdr" where
  "hdr_of_bytes bs = \<lparr>magicid = rd32 (slice 0 4 bs), prtinfo = slice 4 64 bs, reserv = slice 68 46 bs,
     bootmode = rd16 (slice 114 2 bs), keymode = rd16 (slice 116 2 bs), rcvmode = rd16 (slice 118 2 bs),
     bootpres = slice 120 8 bs\<rparr>"

definition zero_hdr :: rawprt_hdr where
  "zero_hdr = hdr_of_bytes (zeros SIZEOF_HDR)"

lemma length_hdr_bytes [buf_simps]: "hdr_wf h \<Longrightarrow> length (hdr_bytes h) = SIZEOF_HDR"
  by (simp add: hdr_bytes_def hdr_wf_def)

lemma hdr_roundtrip [buf_simps]: "hdr_wf h \<Longrightarrow> hdr_of_bytes (hdr_bytes h @ rest) = h"
  by (simp add: hdr_of_bytes_def hdr_bytes_def hdr_wf_def slice_def)

lemma hdr_of_bytes_wf [simp]: "SIZEOF_HDR \<le> length bs \<Longrightarrow> hdr_wf (hdr_of_bytes bs)"
  by (simp add: hdr_wf_def hdr_of_bytes_def length_slice)

lemma hdr_bytes_of_bytes [buf_simps]: "length bs = SIZEOF_HDR \<Longrightarrow> hdr_bytes (hdr_of_bytes bs) = bs"
  by (simp add: hdr_of_bytes_def hdr_bytes_def le32_rd32 le16_rd16 length_slice slice_join slice_all)

section \<open>Blocks\<close>

definition ALIGN_VALUE :: "u32 \<Rightarrow> u32 \<Rightarrow> u32" where
  "ALIGN_VALUE v a = v + ((a - v) AND (a - 1))"

text \<open>
  \<open>rdbuf\<close> and \<open>rdlen\<close> are pointers, \<open>None\<close> the null pointer.  The result holds the
  buffer as the call leaves it.
\<close>

definition SBC_RawPrtReadBlock :: "blkhandle \<Rightarrow> bytes option \<Rightarrow> u32 option \<Rightarrow> u64 \<Rightarrow> (SBCStatus \<times> bytes) io" where
  "SBC_RawPrtReadBlock blkhnd rdbuf rdlen rlba =
     (let buf = (case rdbuf of None \<Rightarrow> [] | Some b \<Rightarrow> b) in
      case blkhnd of None \<Rightarrow> retn (SBCNULLP, buf)
      | Some i \<Rightarrow>
        if rdbuf = None \<and> rdlen = None then retn (SBCNULLP, buf)
        else case rdlen of None \<Rightarrow> fail NullDeref
        | Some len \<Rightarrow>
          if len = 0 then retn (SBCZEROL, buf)
          else (\<lambda>m. case blkdev m i of None \<Rightarrow> Faulted NullDeref m
            | Some dev \<Rightarrow>
              (case NvmeBlockIoReadBlocks dev (MediaId dev) rlba (ucast len) (rdbuf \<noteq> None) of
                None \<Rightarrow> Faulted BadArith m
              | Some (retval, data) \<Rightarrow>
                if length buf < length data then Faulted OutOfBounds m
                else Done (if EFI_ERROR retval then SBCIO else SBCOK, overlay 0 data buf) m)))"

text \<open>The null check of the code is made on the local \<open>p\<close>, which is null at that point.\<close>

definition SBC_RawPrtBlockWrite :: "blkhandle \<Rightarrow> bytes option \<Rightarrow> u32 \<Rightarrow> u32 \<Rightarrow> SBCStatus io" where
  "SBC_RawPrtBlockWrite blkio wrbuf wrlen wrlba =
     (case wrbuf of None \<Rightarrow> retn SBCNULLP
      | Some buf \<Rightarrow>
        if wrlen = 0 then retn SBCZEROL
        else case blkio of None \<Rightarrow> fail NullDeref
        | Some i \<Rightarrow> (\<lambda>m. case blkdev m i of None \<Rightarrow> Faulted NullDeref m
          | Some dev \<Rightarrow>
            if length buf < unat wrlen then Faulted OutOfBounds m
            else (case NvmeBlockIoWriteBlocks dev (MediaId dev) (ucast wrlba) (ucast wrlen)
                         (Some (take (unat wrlen) buf)) of
                None \<Rightarrow> Faulted BadArith m
              | Some (retval, dev') \<Rightarrow>
                Done (if EFI_ERROR retval then SBCIO else SBCOK) (put_blkdev i dev' m))))"

text \<open>The check after the read of the code lets a failed read through and leaves on a good one.\<close>

definition SBC_RawPrtHeadRead :: "blkhandle \<Rightarrow> rawprt_hdr option \<Rightarrow> (SBCStatus \<times> rawprt_hdr option) io" where
  "SBC_RawPrtHeadRead h out =
     (if h = None then retn (SBCNULLP, out)
      else if out = None then retn (SBCNULLP, out)
      else (\<lambda>m. let bloblen = ALIGN_VALUE 128 SBC_RAWPRT_DFLT_BLK_SZ in
        if \<not> pool_ok m (unat bloblen) then Done (SBCNULLP, out) m
        else andthen (SBC_RawPrtReadBlock h (Some (zeros (unat bloblen))) (Some bloblen) 0)
          (\<lambda>(ret, blob). if \<not> ret \<noteq> SBCOK then retn (ret, out)
             else retn (SBCOK, Some (hdr_of_bytes (take SIZEOF_HDR blob)))) m))"

section \<open>Finding the device\<close>

text \<open>
  The loop over the handles.  The checks after \<^verbatim>\<open>HandleProtocol\<close> and
  \<^verbatim>\<open>LocateHandleBuffer\<close> are true exactly when there was an error, so they never
  leave: without an interface the loop goes on with a null pointer.
\<close>

fun BlkIo_scan :: "nvme_device option list \<Rightarrow> nat \<Rightarrow> rawprt_hdr \<Rightarrow> (SBCStatus \<times> blkhandle \<times> rawprt_hdr) io" where
  "BlkIo_scan [] idx hdr m = Done (SBCFAIL, None, hdr) m"
| "BlkIo_scan (None # ds) idx hdr m = Faulted NullDeref m"
| "BlkIo_scan (Some dev # ds) idx hdr m =
     (if \<not> pool_ok m (unat (BlockSize dev)) then Done (SBCNULLP, None, hdr) m
      else case NvmeBlockIoReadBlocks dev (MediaId dev) 0 (ucast (BlockSize dev)) True of
        None \<Rightarrow> Faulted BadArith m
      | Some (Status, data) \<Rightarrow>
        if EFI_ERROR Status then Done (SBCFAIL, None, hdr) m
        else if length data < SIZEOF_HDR then Faulted OutOfBounds m
        else let hdr' = hdr_of_bytes (take SIZEOF_HDR data) in
          if magicid hdr' \<noteq> SBC_RAWPRT_MAGIC_ID then BlkIo_scan ds (Suc idx) hdr' m
          else Done (SBCOK, Some idx, hdr') m)"

definition SBC_BlkIoHandleInit :: "rawprt_hdr \<Rightarrow> (SBCStatus \<times> blkhandle \<times> rawprt_hdr) io" where
  "SBC_BlkIoHandleInit hdr m = BlkIo_scan (blkdevs m) 0 hdr m"

definition SBC_CheckAvailableBlkIODev :: "SBCStatus io" where
  "SBC_CheckAvailableBlkIODev m =
     (case blkdevs m of [] \<Rightarrow> Done SBCFAIL m
      | None # _ \<Rightarrow> Done SBCFAIL m
      | Some dev # _ \<Rightarrow>
        (case NvmeBlockIoReadBlocks dev (MediaId dev) 0 512 True of
          None \<Rightarrow> Faulted BadArith m
        | Some (Status, data) \<Rightarrow> Done (if EFI_ERROR Status then SBCFAIL else SBCOK) m))"

text \<open>The header bytes read here are printed and dropped; the caller's buffer stays as it is.\<close>

definition SBC_ReadRawPrtHeaderInfo :: "blkhandle \<Rightarrow> bytes option \<Rightarrow> u32 option \<Rightarrow> (SBCStatus \<times> u32 option) io" where
  "SBC_ReadRawPrtHeaderInfo blkhnd rdbuf rdlen =
     (if rdbuf = None \<and> rdlen = None then retn (SBCNULLP, rdlen)
      else case rdlen of None \<Rightarrow> fail NullDeref
      | Some len \<Rightarrow>
        if len = 0 then retn (SBCZEROL, rdlen)
        else case blkhnd of None \<Rightarrow> fail NullDeref
        | Some i \<Rightarrow> (\<lambda>m. case blkdev m i of None \<Rightarrow> Faulted NullDeref m
          | Some dev \<Rightarrow>
            let len' = ALIGN_VALUE len (BlockSize dev) in
            if \<not> pool_ok m (unat len') then Done (SBCNULLP, Some len') m
            else (case NvmeBlockIoReadBlocks dev (MediaId dev) 0 (ucast len') True of
                None \<Rightarrow> Faulted BadArith m
              | Some (retval, data) \<Rightarrow>
                if EFI_ERROR retval then Done (SBCIO, Some len') m
                else if unat len' < 128 then Faulted OutOfBounds m
                else Done (SBCOK, Some len') m)))"

section \<open>System settings\<close>

abbreviation SYS_CONF_START_OFS :: u64 where "SYS_CONF_START_OFS \<equiv> 0x18000200"
abbreviation SYS_CONF_RES_OFS :: nat where "SYS_CONF_RES_OFS \<equiv> 0x40"
abbreviation SYS_CONF_ROOT_CA_OFS :: nat where "SYS_CONF_ROOT_CA_OFS \<equiv> 0x80"
abbreviation SYS_CONF_DEVID_CRT_OFS :: nat where "SYS_CONF_DEVID_CRT_OFS \<equiv> 0x880"
abbreviation SYS_SETTING_STORAGE_LEN :: u32 where "SYS_SETTING_STORAGE_LEN \<equiv> 16512"

definition SBC_LoadSystemSetting :: "blkhandle \<Rightarrow> (SBCStatus \<times> bytes option) io" where
  "SBC_LoadSystemSetting blkio =
     (case blkio of None \<Rightarrow> fail NullDeref
      | Some i \<Rightarrow> (\<lambda>m. case blkdev m i of None \<Rightarrow> Faulted NullDeref m
        | Some dev \<Rightarrow>
          let ldlen = ALIGN_VALUE SYS_SETTING_STORAGE_LEN (BlockSize dev);
              lba = drop_bit SBC_RAWPRT_DFLT_SHIFT SYS_CONF_START_OFS in
          if \<not> pool_ok m (unat ldlen) then Done (SBCNULLP, None) m
          else andthen (SBC_RawPrtReadBlock blkio (Some (zeros (unat ldlen))) (Some ldlen) lba)
            (\<lambda>(ret, value). retn (ret, Some value)) m))"

section \<open>Requests a sound device serves\<close>

text \<open>The request lies within a device of 512-byte blocks, and all its sectors work.\<close>

definition servable :: "nvme_device \<Rightarrow> u64 \<Rightarrow> u32 \<Rightarrow> bool" where
  "servable dev lba len \<longleftrightarrow> nvme_ok dev \<and> BlockSize dev = 512 \<and> 0 < unat len \<and> unat len mod 512 = 0
     \<and> in_media dev (unat lba) (unat len div 512) \<and> sectors_ok dev (unat lba) (unat len div 512)"

lemma servable_request:
  assumes "servable dev lba len"
  shows "nvme_ok dev" "unat (ucast len :: u64) = (unat len div 512) * unat (BlockSize dev)"
    "0 < unat len div 512" "in_media dev (unat lba) (unat len div 512)"
    "sectors_ok dev (unat lba) (unat len div 512)" "len \<noteq> 0"
  using assms by (auto simp: servable_def intro!: Suc_leI div_greater_zero_iff [THEN iffD2])

lemma servable_put [simp]: "servable (dev_put dev a bs) lba len = servable dev lba len"
  by (simp add: servable_def)

lemma RawPrtReadBlock_into:
  assumes "blkdev m i = Some dev" "servable dev lba len" "unat len \<le> length buf"
  shows "SBC_RawPrtReadBlock (Some i) (Some buf) (Some len) lba m =
    Done (SBCOK, overlay 0 (dev_bytes dev (unat lba * 512) (unat len)) buf) m"
  using ReadBlocks_exact [OF servable_request(1-5) [OF assms(2)]] servable_request(6) [OF assms(2)] assms
  by (simp add: SBC_RawPrtReadBlock_def servable_def EFI_ERROR_def)

lemma RawPrtReadBlock_sound [exec_simps]:
  assumes "blkdev m i = Some dev" "servable dev lba len" "length buf = unat len"
  shows "SBC_RawPrtReadBlock (Some i) (Some buf) (Some len) lba m =
    Done (SBCOK, dev_bytes dev (unat lba * 512) (unat len)) m"
  using RawPrtReadBlock_into [OF assms(1,2)] assms(3) by (simp add: overlay_def)

lemma RawPrtBlockWrite_sound [exec_simps]:
  assumes "blkdev m i = Some dev" "servable dev (ucast lba) len" "length buf = unat len"
  shows "SBC_RawPrtBlockWrite (Some i) (Some buf) len lba m =
    Done SBCOK (put_blkdev i (dev_put dev (unat lba * 512) buf) m)"
  using WriteBlocks_exact [OF servable_request(1-5) [OF assms(2)], of buf] servable_request(6) [OF assms(2)] assms
  by (simp add: SBC_RawPrtBlockWrite_def EFI_ERROR_def servable_def)

lemma RawPrtReadBlock_world [ro]: "keeps (=) (SBC_RawPrtReadBlock h buf len lba)"
  by (auto simp: keeps_def SBC_RawPrtReadBlock_def Let_def split: option.splits prod.splits)

lemma RawPrtReadBlock_cases:
  "(\<exists>r. SBC_RawPrtReadBlock h buf len lba m = Done r m) \<or>
   (\<exists>x. SBC_RawPrtReadBlock h buf len lba m = Halted x m) \<or>
   (\<exists>f. SBC_RawPrtReadBlock h buf len lba m = Faulted f m)"
  using keepsD [OF RawPrtReadBlock_world, of m h buf len lba]
  by (cases "SBC_RawPrtReadBlock h buf len lba m") auto

lemma RawPrtReadBlock_length:
  assumes "SBC_RawPrtReadBlock h (Some buf) len lba m = Done (ret, buf') m'"
  shows "length buf' = length buf"
  using assms
  by (auto simp: SBC_RawPrtReadBlock_def Let_def overlay_def split: option.splits prod.splits if_splits)

text \<open>A write that fails half way still keeps to its blocks.\<close>

lemma RawPrtBlockWrite_outside:
  assumes "blkdev m i = Some dev" "nvme_ok dev" "BlockSize dev = 512" "unat lba * 512 + unat len \<le> b"
  shows "\<exists>dev'. final_world (SBC_RawPrtBlockWrite (Some i) buf len lba m) = put_blkdev i dev' m
    \<and> same_outside (unat lba * 512) b dev dev'"
proof -
  have self: "m = put_blkdev i dev m" using assms(1) by (simp add: put_blkdev_self)
  have step: "same_outside (unat lba * 512) b dev dev'"
    if wr: "NvmeBlockIoWriteBlocks dev (MediaId dev) (ucast lba) (ucast len) (Some bs) = Some (st, dev')" for bs st dev'
  proof (cases "(ucast len :: u64) mod ucast (BlockSize dev) = 0 \<and> len \<noteq> 0
      \<and> \<not> LastBlock dev < ucast lba + ucast len div ucast (BlockSize dev) - 1")
    case False
    then show ?thesis using wr
      by (auto simp: NvmeBlockIoWriteBlocks_def Let_def unat_eq_zero split: if_splits)
  next
    case True
    let ?n = "(ucast len :: u64) div ucast (BlockSize dev)"
    have len0: "(ucast len :: u64) \<noteq> 0"
      using True unat_ucast_u64 [of len] by (metis unat_eq_zero)
    have n: "unat ?n = unat len div 512" by (simp add: unat_div_distrib assms(3))
    have "unat (ucast len mod (512 :: u64)) = 0" using True assms(3) by simp
    then have m0: "unat len mod 512 = 0" by (simp add: unat_mod_distrib)
    have "unat len \<noteq> 0" using True by (simp add: unat_eq_zero)
    then have "0 < unat len div 512" using m0 by (metis div_greater_zero_iff mod_less not_le zero_less_numeral)
    then have pos: "?n \<noteq> 0" using n by auto
    have small: "unat lba + (unat ?n - 1) < 2 ^ 64"
      using n unat_bound [of len] unat_bound [of lba] by simp
    then have "unat (ucast lba + (?n - 1)) = unat lba + (unat ?n - 1)"
      using pos by (simp add: unat_word_ariths unat_minus_one)
    then have "unat lba + (unat ?n - 1) \<le> unat (LastBlock dev)"
      using True by (simp add: word_less_nat_alt add_diff_eq)
    then have media: "in_media dev (unat (ucast lba :: u64)) (unat ?n)"
      using pos by (simp add: in_media_def unat_eq_zero)
    have "NvmeWrite dev bs (ucast lba) (unat ?n) = Some (st, dev')"
      using wr True len0 by (simp add: NvmeBlockIoWriteBlocks_def Let_def split: if_splits)
    moreover have "(unat lba + unat len div 512) * 512 \<le> b"
      using assms(4) m0 by (metis add_mult_distrib div_mult_self_is_m dvd_div_mult_self mod_eq_0_iff_dvd)
    ultimately show ?thesis
      using NvmeWrite_outside [OF _ assms(2) media] n assms(3) by simp
  qed
  show ?thesis
    using assms(1) step self
    by (auto simp: SBC_RawPrtBlockWrite_def split: option.splits prod.splits)
qed

section \<open>The search and the header read\<close>

text \<open>The header a device carries, and whether it is the one looked for.\<close>

definition dev_hdr :: "nvme_device \<Rightarrow> rawprt_hdr" where
  "dev_hdr dev = hdr_of_bytes (dev_bytes dev 0 SIZEOF_HDR)"

definition is_raw_prt :: "nvme_device \<Rightarrow> bool" where
  "is_raw_prt dev \<longleftrightarrow> magicid (dev_hdr dev) = SBC_RAWPRT_MAGIC_ID"

lemma dev_hdr_wf [simp]: "hdr_wf (dev_hdr dev)"
  by (simp add: dev_hdr_def)

lemma first_block:
  assumes "servable dev 0 512"
  shows "NvmeBlockIoReadBlocks dev (MediaId dev) 0 (ucast (BlockSize dev)) True
      = Some (EFI_SUCCESS, dev_bytes dev 0 512)"
proof -
  have "unat (ucast (BlockSize dev) :: u64) = 1 * unat (BlockSize dev)" by simp
  moreover have "BlockSize dev = 512" using assms by (simp add: servable_def)
  ultimately show ?thesis
    using ReadBlocks_exact [of dev "ucast (BlockSize dev)" 1 0] assms by (simp add: servable_def)
qed

lemma take_dev_bytes: "k \<le> n \<Longrightarrow> take k (dev_bytes dev a n) = dev_bytes dev a k"
  using slice_dev_bytes [of 0 k n dev a] by (simp add: slice_def)

lemma BlkIo_scan_sound:
  assumes "servable dev 0 512" "pool_ok m 512"
  shows "BlkIo_scan (Some dev # ds) idx hdr m =
    (if is_raw_prt dev then Done (SBCOK, Some idx, dev_hdr dev) m
     else BlkIo_scan ds (Suc idx) (dev_hdr dev) m)"
proof -
  have "BlockSize dev = 512" using assms(1) by (simp add: servable_def)
  moreover have "hdr_of_bytes (take SIZEOF_HDR (dev_bytes dev 0 512)) = dev_hdr dev"
    by (simp add: take_dev_bytes dev_hdr_def)
  ultimately show ?thesis using first_block [OF assms(1)] assms(2)
    by (simp add: EFI_ERROR_def is_raw_prt_def Let_def)
qed

lemma BlkIo_scan_skips:
  assumes "list_all (\<lambda>d. \<exists>dev. d = Some dev \<and> servable dev 0 512 \<and> \<not> is_raw_prt dev) pre" "pool_ok m 512"
  shows "\<exists>hdr'. BlkIo_scan (pre @ ds) idx hdr m = BlkIo_scan ds (idx + length pre) hdr' m"
  using assms
proof (induction pre arbitrary: idx hdr)
  case (Cons d pre)
  then obtain dev where "d = Some dev" "servable dev 0 512" "\<not> is_raw_prt dev" by auto
  then show ?case using Cons.IH [of "Suc idx" "dev_hdr dev"] Cons.prems
    by (auto simp: BlkIo_scan_sound simp del: BlkIo_scan.simps)
qed auto

lemma BlkIo_scan_result:
  assumes "BlkIo_scan ds idx hdr m = Done (SBCOK, h, hdr') m'"
  shows "m' = m \<and> (\<exists>k dev st data. h = Some (idx + k) \<and> k < length ds \<and> ds ! k = Some dev \<and>
    NvmeBlockIoReadBlocks dev (MediaId dev) 0 (ucast (BlockSize dev)) True = Some (EFI_SUCCESS, data) \<and>
    hdr' = hdr_of_bytes (take SIZEOF_HDR data) \<and> magicid hdr' = SBC_RAWPRT_MAGIC_ID)"
  using assms
proof (induction ds idx hdr m rule: BlkIo_scan.induct)
  case (3 dev ds idx hdr m)
  obtain st data where rd:
    "NvmeBlockIoReadBlocks dev (MediaId dev) 0 (ucast (BlockSize dev)) True = Some (st, data)"
    using "3.prems" by (auto split: if_splits option.splits)
  let ?hdr = "hdr_of_bytes (take SIZEOF_HDR data)"
  have st: "st = EFI_SUCCESS" "SIZEOF_HDR \<le> length data" "pool_ok m (unat (BlockSize dev))"
    using "3.prems" rd by (auto simp: EFI_ERROR_def split: if_splits)
  show ?case
  proof (cases "magicid ?hdr = SBC_RAWPRT_MAGIC_ID")
    case True
    then show ?thesis using "3.prems" rd st by (fastforce simp: EFI_ERROR_def Let_def)
  next
    case False
    then have "BlkIo_scan ds (Suc idx) ?hdr m = Done (SBCOK, h, hdr') m'"
      using "3.prems" rd st by (simp add: EFI_ERROR_def Let_def)
    then obtain k dev' data' where "m' = m" "h = Some (Suc idx + k)" "k < length ds" "ds ! k = Some dev'"
      "NvmeBlockIoReadBlocks dev' (MediaId dev') 0 (ucast (BlockSize dev')) True = Some (EFI_SUCCESS, data')"
      "hdr' = hdr_of_bytes (take SIZEOF_HDR data')" "magicid hdr' = SBC_RAWPRT_MAGIC_ID"
      using "3.IH" [OF _ rd refl _ _ refl] st False by (auto simp: EFI_ERROR_def)
    then show ?thesis by (intro conjI exI [of _ "Suc k"]) auto
  qed
qed auto

text \<open>
  The device found first among sound ones is returned with its own header, however
  many sound devices without the magic number come before it.
\<close>

lemma BlkIoHandleInit_first:
  assumes "blkdevs m = pre @ Some dev # post" "pool_ok m 512" "servable dev 0 512" "is_raw_prt dev"
    and "list_all (\<lambda>d. \<exists>x. d = Some x \<and> servable x 0 512 \<and> \<not> is_raw_prt x) pre"
  shows "SBC_BlkIoHandleInit hdr m = Done (SBCOK, Some (length pre), dev_hdr dev) m"
  using BlkIo_scan_skips [OF assms(5,2), of "Some dev # post" 0 hdr] BlkIo_scan_sound [OF assms(3,2)] assms
  by (auto simp: SBC_BlkIoHandleInit_def simp del: BlkIo_scan.simps)

lemma ro_BlkIo_scan: "final_world (BlkIo_scan ds idx hdr m) = m"
  by (induction ds idx hdr m rule: BlkIo_scan.induct) (auto simp: Let_def split: option.splits)

lemma ro_BlkIoHandleInit [ro]: "readonly (SBC_BlkIoHandleInit hdr)"
  by (rule keepsI, simp add: SBC_BlkIoHandleInit_def ro_BlkIo_scan)

end
