(* ===== verification/Ossl_Sha256.thy ===== *)
theory Ossl_Sha256
  imports Sbc_Prelude
begin

unbundle bit_operations_syntax

text \<open>
  SHA-256 as OpenSSL computes it (\<^verbatim>\<open>crypto/sha/sha256.c\<close>, \<^verbatim>\<open>include/crypto/md32_common.h\<close>):
  the context that buffers up to 63 bytes, the update and final operations, and
  the block function in both forms the source has, with rotating registers and
  a loop (\<^verbatim>\<open>OPENSSL_SMALL_FOOTPRINT\<close>, the one the package is built with) and unrolled
  with renamed registers.  The reference is the function of FIPS 180-4: pad the
  message, cut it into blocks, expand each block to 64 words and compress.  The
  main lemma is that any sequence of updates followed by the final operation
  gives the reference digest of all bytes together.
\<close>

section \<open>Constants and bit functions\<close>

text \<open>The table, in the rows of four the source has.\<close>

definition K256 :: "u32 list" where
  "K256 = concat [
     [0x428a2f98, 0x71374491, 0xb5c0fbcf, 0xe9b5dba5], [0x3956c25b, 0x59f111f1, 0x923f82a4, 0xab1c5ed5],
     [0xd807aa98, 0x12835b01, 0x243185be, 0x550c7dc3], [0x72be5d74, 0x80deb1fe, 0x9bdc06a7, 0xc19bf174],
     [0xe49b69c1, 0xefbe4786, 0x0fc19dc6, 0x240ca1cc], [0x2de92c6f, 0x4a7484aa, 0x5cb0a9dc, 0x76f988da],
     [0x983e5152, 0xa831c66d, 0xb00327c8, 0xbf597fc7], [0xc6e00bf3, 0xd5a79147, 0x06ca6351, 0x14292967],
     [0x27b70a85, 0x2e1b2138, 0x4d2c6dfc, 0x53380d13], [0x650a7354, 0x766a0abb, 0x81c2c92e, 0x92722c85],
     [0xa2bfe8a1, 0xa81a664b, 0xc24b8b70, 0xc76c51a3], [0xd192e819, 0xd6990624, 0xf40e3585, 0x106aa070],
     [0x19a4c116, 0x1e376c08, 0x2748774c, 0x34b0bcb5], [0x391c0cb3, 0x4ed8aa4a, 0x5b9cca4f, 0x682e6ff3],
     [0x748f82ee, 0x78a5636f, 0x84c87814, 0x8cc70208], [0x90befffa, 0xa4506ceb, 0xbef9a3f7, 0xc67178f2]]"

definition ROTATE :: "u32 \<Rightarrow> nat \<Rightarrow> u32" where
  "ROTATE a n = push_bit n a OR drop_bit (32 - n) (a AND 0xffffffff)"

definition Sigma0 :: "u32 \<Rightarrow> u32" where
  "Sigma0 x = ROTATE x 30 XOR ROTATE x 19 XOR ROTATE x 10"

definition Sigma1 :: "u32 \<Rightarrow> u32" where
  "Sigma1 x = ROTATE x 26 XOR ROTATE x 21 XOR ROTATE x 7"

definition sigma0 :: "u32 \<Rightarrow> u32" where
  "sigma0 x = ROTATE x 25 XOR ROTATE x 14 XOR drop_bit 3 x"

definition sigma1 :: "u32 \<Rightarrow> u32" where
  "sigma1 x = ROTATE x 15 XOR ROTATE x 13 XOR drop_bit 10 x"

definition Ch :: "u32 \<Rightarrow> u32 \<Rightarrow> u32 \<Rightarrow> u32" where
  "Ch x y z = (x AND y) XOR (NOT x AND z)"

definition Maj :: "u32 \<Rightarrow> u32 \<Rightarrow> u32 \<Rightarrow> u32" where
  "Maj x y z = (x AND y) XOR (x AND z) XOR (y AND z)"

text \<open>Words are big endian.  \<^verbatim>\<open>HOST_c2l\<close> also moves its pointer on by four, which the callers write out.\<close>

definition HOST_c2l :: "bytes \<Rightarrow> u32" where
  "HOST_c2l c = push_bit 24 (ucast (c ! 0)) OR push_bit 16 (ucast (c ! 1)) OR push_bit 8 (ucast (c ! 2)) OR ucast (c ! 3)"

definition HOST_l2c :: "u32 \<Rightarrow> bytes" where
  "HOST_l2c l = [ucast (drop_bit 24 l AND 0xff), ucast (drop_bit 16 l AND 0xff), ucast (drop_bit 8 l AND 0xff), ucast (l AND 0xff)]"

section \<open>Context\<close>

text \<open>The data array of 16 words is only used as 64 bytes.\<close>

record SHA256_CTX =
  ctx_h :: "u32 list"
  ctx_Nl :: u32
  ctx_Nh :: u32
  ctx_data :: bytes
  ctx_num :: u32
  ctx_md_len :: u32

abbreviation HASH_CBLOCK :: nat where "HASH_CBLOCK \<equiv> 64"

definition SHA256_Init :: SHA256_CTX where
  "SHA256_Init = \<lparr>ctx_h = [0x6a09e667, 0xbb67ae85, 0x3c6ef372, 0xa54ff53a, 0x510e527f, 0x9b05688c, 0x1f83d9ab, 0x5be0cd19],
     ctx_Nl = 0, ctx_Nh = 0, ctx_data = zeros 64, ctx_num = 0, ctx_md_len = 32\<rparr>"

definition SHA224_Init :: SHA256_CTX where
  "SHA224_Init = \<lparr>ctx_h = [0xc1059ed8, 0x367cd507, 0x3070dd17, 0xf70e5939, 0xffc00b31, 0x68581511, 0x64f98fa7, 0xbefa4fa4],
     ctx_Nl = 0, ctx_Nh = 0, ctx_data = zeros 64, ctx_num = 0, ctx_md_len = 28\<rparr>"

definition ossl_sha256_192_init :: SHA256_CTX where
  "ossl_sha256_192_init = SHA256_Init\<lparr>ctx_md_len := 24\<rparr>"

section \<open>The block function with a loop\<close>

type_synonym regs = "u32 \<times> u32 \<times> u32 \<times> u32 \<times> u32 \<times> u32 \<times> u32 \<times> u32"

text \<open>The part both loops of the small form share: the registers move on by one.\<close>

definition rotate_regs :: "u32 \<Rightarrow> nat \<Rightarrow> regs \<Rightarrow> regs" where
  "rotate_regs x i = (\<lambda>(a, b, c, d, e, f, g, h).
     let T1 = x + (h + Sigma1 e + Ch e f g + K256 ! i);
         T2 = Sigma0 a + Maj a b c
     in (T1 + T2, a, b, c, d + T1, e, f, g))"

function loop_00_15 :: "nat \<Rightarrow> bytes \<Rightarrow> u32 list \<Rightarrow> regs \<Rightarrow> u32 list \<times> regs" where
  "loop_00_15 i data X r =
     (if i < 16 then let l = HOST_c2l data in loop_00_15 (i + 1) (drop 4 data) (X[i := l]) (rotate_regs l i r)
      else (X, r))"
  by auto
termination by (relation "measure (\<lambda>(i, _). 16 - i)") auto

function loop_16_63 :: "nat \<Rightarrow> u32 list \<Rightarrow> regs \<Rightarrow> u32 list \<times> regs" where
  "loop_16_63 i X r =
     (if i < 64 then
        let s0 = sigma0 (X ! ((i + 1) AND 0x0f));
            s1 = sigma1 (X ! ((i + 14) AND 0x0f));
            T1 = X ! (i AND 0xf) + (s0 + s1 + X ! ((i + 9) AND 0xf))
        in loop_16_63 (i + 1) (X[i AND 0xf := T1]) (rotate_regs T1 i r)
      else (X, r))"
  by auto
termination by (relation "measure (\<lambda>(i, _). 64 - i)") auto

declare loop_00_15.simps [simp del] loop_16_63.simps [simp del]

definition load_regs :: "u32 list \<Rightarrow> regs" where
  "load_regs h = (h ! 0, h ! 1, h ! 2, h ! 3, h ! 4, h ! 5, h ! 6, h ! 7)"

definition add_regs :: "u32 list \<Rightarrow> regs \<Rightarrow> u32 list" where
  "add_regs hs = (\<lambda>(a, b, c, d, e, f, g, h).
     [hs ! 0 + a, hs ! 1 + b, hs ! 2 + c, hs ! 3 + d, hs ! 4 + e, hs ! 5 + f, hs ! 6 + g, hs ! 7 + h])"

text \<open>The array X is uninitialised in the source; each of its words is written before it is read.\<close>

primrec sha256_block_data_order :: "SHA256_CTX \<Rightarrow> bytes \<Rightarrow> nat \<Rightarrow> SHA256_CTX" where
  "sha256_block_data_order ctx data 0 = ctx"
| "sha256_block_data_order ctx data (Suc n) =
     (let (X, r) = loop_00_15 0 data (replicate 16 0) (load_regs (ctx_h ctx));
          (X, r) = loop_16_63 16 X r
      in sha256_block_data_order (ctx\<lparr>ctx_h := add_regs (ctx_h ctx) r\<rparr>) (drop 64 data) n)"

section \<open>The unrolled block function\<close>

text \<open>
  The macros assign to the registers given as their fourth and eighth argument;
  the values come back as a pair.  The machine is little endian, so the words
  are always read by \<^verbatim>\<open>HOST_c2l\<close>.
\<close>

definition ROUND_00_15 :: "nat \<Rightarrow> u32 \<Rightarrow> u32 \<Rightarrow> u32 \<Rightarrow> u32 \<Rightarrow> u32 \<Rightarrow> u32 \<Rightarrow> u32 \<Rightarrow> u32 \<Rightarrow> u32 \<Rightarrow> u32 \<times> u32" where
  "ROUND_00_15 i T1 a b c d e f g h =
     (let T1 = T1 + (h + Sigma1 e + Ch e f g + K256 ! i);
          h = Sigma0 a + Maj a b c
      in (d + T1, h + T1))"

type_synonym xround = "nat \<Rightarrow> u32 list \<Rightarrow> u32 \<Rightarrow> u32 \<Rightarrow> u32 \<Rightarrow> u32 \<Rightarrow> u32 \<Rightarrow> u32 \<Rightarrow> u32 \<Rightarrow> u32 \<Rightarrow> u32 list \<times> u32 \<times> u32"

definition LOAD_ROUND :: "bytes \<Rightarrow> xround" where
  "LOAD_ROUND data i X a b c d e f g h =
     (let l = HOST_c2l (drop (4 * i) data) in (X[i := l], ROUND_00_15 i l a b c d e f g h))"

definition ROUND_16_63 :: xround where
  "ROUND_16_63 i X a b c d e f g h =
     (let s0 = sigma0 (X ! ((i + 1) AND 0x0f));
          s1 = sigma1 (X ! ((i + 14) AND 0x0f));
          T1 = X ! (i AND 0x0f) + (s0 + s1 + X ! ((i + 9) AND 0x0f))
      in (X[i AND 0x0f := T1], ROUND_00_15 i T1 a b c d e f g h))"

text \<open>Eight rounds in a row, each with the registers renamed by one place.\<close>

definition eight_rounds :: "xround \<Rightarrow> nat \<Rightarrow> u32 list \<times> regs \<Rightarrow> u32 list \<times> regs" where
  "eight_rounds R i = (\<lambda>(X, a, b, c, d, e, f, g, h).
     let (X, d, h) = R (i + 0) X a b c d e f g h;
         (X, c, g) = R (i + 1) X h a b c d e f g;
         (X, b, f) = R (i + 2) X g h a b c d e f;
         (X, a, e) = R (i + 3) X f g h a b c d e;
         (X, h, d) = R (i + 4) X e f g h a b c d;
         (X, g, c) = R (i + 5) X d e f g h a b c;
         (X, f, b) = R (i + 6) X c d e f g h a b;
         (X, e, a) = R (i + 7) X b c d e f g h a
     in (X, a, b, c, d, e, f, g, h))"

function unrolled_16_63 :: "nat \<Rightarrow> u32 list \<times> regs \<Rightarrow> u32 list \<times> regs" where
  "unrolled_16_63 i s = (if i < 64 then unrolled_16_63 (i + 8) (eight_rounds ROUND_16_63 i s) else s)"
  by auto
termination by (relation "measure (\<lambda>(i, _). 64 - i)") auto

declare unrolled_16_63.simps [simp del]

primrec sha256_block_data_order_c :: "SHA256_CTX \<Rightarrow> bytes \<Rightarrow> nat \<Rightarrow> SHA256_CTX" where
  "sha256_block_data_order_c ctx data 0 = ctx"
| "sha256_block_data_order_c ctx data (Suc n) =
     (let s = (replicate 16 0, load_regs (ctx_h ctx));
          s = eight_rounds (LOAD_ROUND data) 0 s;
          s = eight_rounds (LOAD_ROUND data) 8 s;
          (X, r) = unrolled_16_63 16 s
      in sha256_block_data_order_c (ctx\<lparr>ctx_h := add_regs (ctx_h ctx) r\<rparr>) (drop 64 data) n)"

section \<open>Update and final\<close>

text \<open>The bit counter, in two words.\<close>

definition count_bits :: "SHA256_CTX \<Rightarrow> u64 \<Rightarrow> SHA256_CTX" where
  "count_bits c len =
     (let l = (ctx_Nl c + push_bit 3 (ucast len)) AND 0xffffffff;
          Nh = (if l < ctx_Nl c then ctx_Nh c + 1 else ctx_Nh c) + ucast (drop_bit 29 len)
      in c\<lparr>ctx_Nh := Nh, ctx_Nl := l\<rparr>)"

text \<open>The second half of the update: whole blocks straight from the input, the rest into the buffer.\<close>

definition update_blocks :: "SHA256_CTX \<Rightarrow> bytes \<Rightarrow> u64 \<Rightarrow> SHA256_CTX" where
  "update_blocks c data len =
     (let n = len div 64;
          (c, data, len) = (if n > 0 then (sha256_block_data_order c data (unat n), drop (unat (n * 64)) data, len - n * 64)
                            else (c, data, len))
      in if len \<noteq> 0 then c\<lparr>ctx_num := ucast len, ctx_data := overlay 0 (take (unat len) data) (ctx_data c)\<rparr> else c)"

definition SHA256_Update :: "SHA256_CTX \<Rightarrow> bytes \<Rightarrow> u64 \<Rightarrow> SHA256_CTX" where
  "SHA256_Update c data len =
     (if len = 0 then c
      else let c = count_bits c len; n = ucast (ctx_num c) :: u64; p = ctx_data c in
        if n \<noteq> 0 then
          (if len \<ge> 64 \<or> len + n \<ge> 64 then
             let p = overlay (unat n) (take (unat (64 - n)) data) p;
                 c = sha256_block_data_order (c\<lparr>ctx_data := p\<rparr>) p 1;
                 n = 64 - n
             in update_blocks (c\<lparr>ctx_num := 0, ctx_data := zeros 64\<rparr>) (drop (unat n) data) (len - n)
           else c\<lparr>ctx_data := overlay (unat n) (take (unat len) data) p, ctx_num := ctx_num c + ucast len\<rparr>)
        else update_blocks c data len)"

definition HASH_MAKE_STRING :: "SHA256_CTX \<Rightarrow> bytes option" where
  "HASH_MAKE_STRING c =
     (if ctx_md_len c > 32 then None else Some (concat (map HOST_l2c (take (unat (ctx_md_len c div 4)) (ctx_h c)))))"

definition SHA256_Final :: "SHA256_CTX \<Rightarrow> bytes option \<times> SHA256_CTX" where
  "SHA256_Final c =
     (let n = unat (ctx_num c);
          p = (ctx_data c)[n := 0x80];
          n = n + 1;
          (c, p, n) = (if n > HASH_CBLOCK - 8
             then let p = overlay n (zeros (HASH_CBLOCK - n)) p in (sha256_block_data_order c p 1, p, 0)
             else (c, p, n));
          p = overlay n (zeros (HASH_CBLOCK - 8 - n)) p;
          p = overlay (HASH_CBLOCK - 8) (HOST_l2c (ctx_Nh c)) p;
          p = overlay (HASH_CBLOCK - 4) (HOST_l2c (ctx_Nl c)) p;
          c = sha256_block_data_order c p 1;
          c = c\<lparr>ctx_num := 0, ctx_data := zeros HASH_CBLOCK\<rparr>
      in (HASH_MAKE_STRING c, c))"

section \<open>Reference: FIPS 180-4\<close>

text \<open>
  The bit functions with right rotations, the message schedule as a recursive
  sequence, the compression of one block, the padding, and the digest as the
  bytes of the last chaining value.  The length of the message is taken modulo
  two to the power of 64, which the standard has as the bound of a message.
\<close>

fun schedule :: "bytes \<Rightarrow> nat \<Rightarrow> u32" where
  "schedule blk t = (if t < 16 then word_of_nat (of_le (rev (slice (4 * t) 4 blk)))
     else let s1 = (\<lambda>x. word_rotr 17 x XOR word_rotr 19 x XOR drop_bit 10 x);
              s0 = (\<lambda>x. word_rotr 7 x XOR word_rotr 18 x XOR drop_bit 3 x)
          in s1 (schedule blk (t - 2)) + schedule blk (t - 7) + s0 (schedule blk (t - 15)) + schedule blk (t - 16))"

declare schedule.simps [simp del]

definition fips_round :: "(nat \<Rightarrow> u32) \<Rightarrow> nat \<Rightarrow> regs \<Rightarrow> regs" where
  "fips_round W t = (\<lambda>(a, b, c, d, e, f, g, h).
     let T1 = h + (word_rotr 6 e XOR word_rotr 11 e XOR word_rotr 25 e) + ((e AND f) XOR (NOT e AND g)) + K256 ! t + W t;
         T2 = (word_rotr 2 a XOR word_rotr 13 a XOR word_rotr 22 a) + ((a AND b) XOR (a AND c) XOR (b AND c))
     in (T1 + T2, a, b, c, d + T1, e, f, g))"

definition compress :: "u32 list \<Rightarrow> bytes \<Rightarrow> u32 list" where
  "compress H blk = add_regs H (fold (fips_round (schedule blk)) [0..<64] (load_regs H))"

function absorb :: "u32 list \<Rightarrow> bytes \<Rightarrow> u32 list" where
  "absorb H m = (if length m < 64 then H else absorb (compress H (take 64 m)) (drop 64 m))"
  by auto
termination by (relation "measure (\<lambda>(_, m). length m)") auto

declare absorb.simps [simp del]

definition sha_pad :: "bytes \<Rightarrow> bytes" where
  "sha_pad m = m @ [0x80] @ zeros ((119 - length m mod 64) mod 64) @ rev (to_le 8 (8 * length m))"

definition be_words :: "u32 list \<Rightarrow> bytes" where
  "be_words ws = concat (map (\<lambda>w. rev (to_le 4 (unat w))) ws)"

definition sha256 :: "bytes \<Rightarrow> bytes" where
  "sha256 m = be_words (absorb (ctx_h SHA256_Init) (sha_pad m))"

definition sha224 :: "bytes \<Rightarrow> bytes" where
  "sha224 m = be_words (take 7 (absorb (ctx_h SHA224_Init) (sha_pad m)))"

section \<open>Bytes and words\<close>

lemma and_ones: "x AND 0xffffffff = (x :: u32)"
proof -
  have m: "(0xffffffff :: u32) = mask 32" by (simp add: mask_eq_exp_minus_1)
  show ?thesis unfolding m take_bit_eq_mask [symmetric] by (rule take_bit_word_eq_self) simp
qed

lemma ROTATE_rotr: 
  assumes "0 < n" "n < 32" shows "ROTATE x n = word_rotr (32 - n) x"
proof (rule bit_word_eqI)
  fix i assume i: "i < LENGTH(32)"
  show "bit (ROTATE x n) i = bit (word_rotr (32 - n) x) i"
  proof (cases "i < n")
    case True
    then have "(i + (32 - n)) mod 32 = i + (32 - n)" using assms by simp
    then show ?thesis using True i assms
      by (simp add: ROTATE_def and_ones bit_or_iff bit_push_bit_iff bit_drop_bit_eq bit_word_rotr_iff add.commute)
  next
    case False
    then have "(i + (32 - n)) mod 32 = i - n" "\<not> 32 - n + i < 32" using assms i by (simp_all add: mod_if)
    then show ?thesis using False i assms impossible_bit [of "32 - n + i" x]
      by (simp add: ROTATE_def and_ones bit_or_iff bit_push_bit_iff bit_drop_bit_eq bit_word_rotr_iff)
  qed
qed

lemma and_15_mod [simp]: "i AND 15 = i mod (16 :: nat)"
proof -
  have m: "(15 :: nat) = mask 4" by (simp add: mask_eq_exp_minus_1)
  show ?thesis unfolding m take_bit_eq_mask [symmetric] by (simp add: take_bit_eq_mod)
qed

lemma byte_of_drop: "(ucast (drop_bit k l AND 0xff) :: byte) = word_of_nat (unat (l :: u32) div 2 ^ k)"
proof -
  have "(0xff :: u32) = mask 8" by (simp add: mask_eq_exp_minus_1)
  then have "(ucast (drop_bit k l AND 0xff) :: byte) = ucast (take_bit 8 (drop_bit k l))"
    by (simp only: take_bit_eq_mask)
  also have "\<dots> = ucast (drop_bit k l)"
    by (rule bit_word_eqI) (simp add: bit_ucast_iff bit_take_bit_iff)
  also have "\<dots> = word_of_nat (unat (drop_bit k l))" by simp
  also have "unat (drop_bit k l) = unat l div 2 ^ k" 
    using unat_bound [of l] by (simp add: unsigned_drop_bit_eq take_bit_nat_eq_self flip: drop_bit_eq_div)
  finally show ?thesis .
qed

lemma to_le_4: "to_le 4 v = [word_of_nat v, word_of_nat (v div 256), word_of_nat (v div 65536), word_of_nat (v div 16777216)]"
proof -
  have four: "(4 :: nat) = Suc (Suc (Suc (Suc 0)))" by simp
  show ?thesis unfolding four by (simp add: div_mult2_eq [symmetric])
qed

lemma HOST_l2c_be: "HOST_l2c l = rev (to_le 4 (unat l))"
  using byte_of_drop [of 0 l] byte_of_drop [of 8 l] byte_of_drop [of 16 l] byte_of_drop [of 24 l]
  by (simp add: HOST_l2c_def to_le_4)

lemma length_ge_4: "4 \<le> length c \<Longrightarrow> \<exists>b0 b1 b2 b3 r. c = b0 # b1 # b2 # b3 # r"
proof -
  have four: "(4 :: nat) = Suc (Suc (Suc (Suc 0)))" by simp
  show "4 \<le> length c \<Longrightarrow> \<exists>b0 b1 b2 b3 r. c = b0 # b1 # b2 # b3 # r"
    unfolding four by (auto simp: Suc_le_length_iff)
qed

lemma HOST_c2l_be: "4 \<le> length c \<Longrightarrow> HOST_c2l c = word_of_nat (of_le (rev (take 4 c)))"
proof -
  assume "4 \<le> length c"
  then obtain b0 b1 b2 b3 r where c: "c = b0 # b1 # b2 # b3 # r"
    using length_ge_4 by blast
  have d: "a OR b = a + b" if "\<And>n. bit a n \<Longrightarrow> bit b n \<Longrightarrow> False" for a b :: u32
    by (rule disjunctive_add [symmetric]) (use that in blast)
  have n8: "bit (b :: byte) n \<Longrightarrow> n < 8" for b n
    using impossible_bit [of n b] by (cases "n < 8") simp_all
  have 1: "push_bit 8 (ucast b2 :: u32) OR ucast b3 = push_bit 8 (ucast b2) + ucast b3"
    by (rule d) (auto simp: bit_push_bit_iff bit_ucast_iff dest!: n8)
  have 2: "push_bit 16 (ucast b1 :: u32) OR (push_bit 8 (ucast b2) OR ucast b3) = push_bit 16 (ucast b1) + (push_bit 8 (ucast b2) OR ucast b3)"
    by (rule d) (auto simp: bit_push_bit_iff bit_ucast_iff bit_or_iff dest!: n8)
  have 3: "push_bit 24 (ucast b0 :: u32) OR (push_bit 16 (ucast b1 :: u32) OR (push_bit 8 (ucast b2) OR ucast b3))
     = push_bit 24 (ucast b0) + (push_bit 16 (ucast b1) OR (push_bit 8 (ucast b2) OR ucast b3))"
    by (rule d) (auto simp: bit_push_bit_iff bit_ucast_iff bit_or_iff dest!: n8)
  have "HOST_c2l c = push_bit 24 (ucast b0) + (push_bit 16 (ucast b1) + (push_bit 8 (ucast b2) + ucast b3))"
    unfolding 1 [symmetric] 2 [symmetric] 3 [symmetric] by (simp add: HOST_c2l_def c or.assoc)
  also have "\<dots> = word_of_nat (of_le (rev (take 4 c)))"
    by (simp add: c push_bit_eq_mult algebra_simps)
  finally show ?thesis .
qed

section \<open>The block function is the compression of the standard\<close>

lemma Sigma_fips:
  "Sigma0 x = word_rotr 2 x XOR word_rotr 13 x XOR word_rotr 22 x" "Sigma1 x = word_rotr 6 x XOR word_rotr 11 x XOR word_rotr 25 x"
  "sigma0 x = word_rotr 7 x XOR word_rotr 18 x XOR drop_bit 3 x" "sigma1 x = word_rotr 17 x XOR word_rotr 19 x XOR drop_bit 10 x"
  by (simp_all add: Sigma0_def Sigma1_def sigma0_def sigma1_def ROTATE_rotr)

lemma rotate_regs_fips: "rotate_regs (W i) i r = fips_round W i r"
proof -
  obtain a b c d e f g h where r: "r = (a, b, c, d, e, f, g, h)" by (cases r) auto
  have "W i + (h + Sigma1 e + Ch e f g + K256 ! i) = h + Sigma1 e + Ch e f g + K256 ! i + W i" by (rule add.commute)
  then show ?thesis by (simp only: r rotate_regs_def fips_round_def Sigma_fips Ch_def Maj_def prod.case)
qed

lemma schedule_first: "t < 16 \<Longrightarrow> 64 \<le> length blk \<Longrightarrow> HOST_c2l (drop (4 * t) blk) = schedule blk t"
  by (subst schedule.simps) (simp add: HOST_c2l_be slice_def)

lemma schedule_step:
  "16 \<le> t \<Longrightarrow> schedule blk t = schedule blk (t - 16) + (sigma0 (schedule blk (t - 15)) + sigma1 (schedule blk (t - 2)) + schedule blk (t - 7))"
  unfolding schedule.simps [of blk t] Sigma_fips Let_def by (simp only: not_less [symmetric] if_False add.commute add.left_commute)

text \<open>The circular array holds the last sixteen words of the schedule.\<close>

definition window :: "bytes \<Rightarrow> nat \<Rightarrow> u32 list \<Rightarrow> bool" where
  "window blk i X \<longleftrightarrow> length X = 16 \<and> (\<forall>j < i. i \<le> j + 16 \<longrightarrow> X ! (j mod 16) = schedule blk j)"

lemma window_word: "window blk i X \<Longrightarrow> 16 \<le> i \<Longrightarrow> 0 < k \<Longrightarrow> k \<le> 16 \<Longrightarrow> X ! ((i - k) mod 16) = schedule blk (i - k)"
  by (simp add: window_def)

lemma window_update: "window blk i X \<Longrightarrow> window blk (Suc i) (X[i mod 16 := schedule blk i])"
  unfolding window_def
proof (intro conjI allI impI)
  fix j assume w: "length X = 16 \<and> (\<forall>j < i. i \<le> j + 16 \<longrightarrow> X ! (j mod 16) = schedule blk j)"
    and j: "j < Suc i" "Suc i \<le> j + 16"
  show "X[i mod 16 := schedule blk i] ! (j mod 16) = schedule blk j"
  proof (cases "j = i")
    case False
    then have "j < i" using j by simp
    moreover have "j mod 16 \<noteq> i mod 16"
    proof
      assume "j mod 16 = i mod 16"
      then have "16 dvd i - j" using \<open>j < i\<close> by (metis mod_eq_dvd_iff_nat less_imp_le)
      then show False using \<open>j < i\<close> j(2) by (auto dest: dvd_imp_le)
    qed
    ultimately show ?thesis using w j by simp
  qed (use w in simp)
qed simp

lemma window_next:
  assumes "window blk i X" "16 \<le> i"
  shows "X ! (i mod 16) + (sigma0 (X ! ((i + 1) mod 16)) + sigma1 (X ! ((i + 14) mod 16)) + X ! ((i + 9) mod 16)) = schedule blk i"
proof -
  obtain j where i: "i = 16 + j" using assms(2) le_Suc_ex by blast
  have "i mod 16 = (i - 16) mod 16" "(i + 1) mod 16 = (i - 15) mod 16" "(i + 14) mod 16 = (i - 2) mod 16" "(i + 9) mod 16 = (i - 7) mod 16"
    using mod_add_self1 [of 16 j] mod_add_self1 [of 16 "j + 1"] mod_add_self1 [of 16 "j + 14"] mod_add_self1 [of 16 "j + 9"]
    by (simp_all add: i add.commute)
  moreover have "X ! ((i - 16) mod 16) = schedule blk (i - 16)" "X ! ((i - 15) mod 16) = schedule blk (i - 15)"
    "X ! ((i - 2) mod 16) = schedule blk (i - 2)" "X ! ((i - 7) mod 16) = schedule blk (i - 7)"
    by (rule window_word [OF assms]; simp)+
  ultimately show ?thesis by (simp only: schedule_step [OF assms(2)])
qed

lemma loop_00_15_schedule:
  assumes "64 \<le> length blk" "i \<le> 16" "window blk i X"
  shows "\<exists>X'. loop_00_15 i (drop (4 * i) blk) X r = (X', fold (fips_round (schedule blk)) [i..<16] r) \<and> window blk 16 X'"
  using assms(2,3)
proof (induction "16 - i" arbitrary: i X r)
  case 0
  then have "i = 16" by simp
  then show ?case using 0 by (simp add: loop_00_15.simps)
next
  case (Suc k)
  then have i: "i < 16" and s: "16 - Suc i = k" by simp_all
  have "window blk (Suc i) (X[i := schedule blk i])"
    using window_update [OF Suc.prems(2)] i by simp
  from Suc.hyps(1) [OF s [symmetric] _ this, of "fips_round (schedule blk) i r"] i
  obtain X' where "loop_00_15 (Suc i) (drop (4 * Suc i) blk) (X[i := schedule blk i]) (fips_round (schedule blk) i r)
      = (X', fold (fips_round (schedule blk)) [Suc i..<16] (fips_round (schedule blk) i r)) \<and> window blk 16 X'" by auto
  then show ?case
    using i assms(1) by (subst loop_00_15.simps) (simp add: Let_def schedule_first rotate_regs_fips upt_conv_Cons add.commute)
qed

lemma loop_16_63_schedule:
  assumes "16 \<le> i" "i \<le> 64" "window blk i X"
  shows "snd (loop_16_63 i X r) = fold (fips_round (schedule blk)) [i..<64] r"
  using assms
proof (induction "64 - i" arbitrary: i X r)
  case 0
  then show ?case by (simp add: loop_16_63.simps)
next
  case (Suc k)
  then have i: "i < 64" and s: "64 - Suc i = k" by simp_all
  have "snd (loop_16_63 (Suc i) (X[i mod 16 := schedule blk i]) (fips_round (schedule blk) i r))
      = fold (fips_round (schedule blk)) [Suc i..<64] (fips_round (schedule blk) i r)"
    using Suc.hyps(1) [OF s [symmetric] _ _ window_update [OF Suc.prems(3)]] i Suc.prems by simp
  then show ?case
    using i window_next [OF Suc.prems(3,1)]
    by (subst loop_16_63.simps) (simp add: Let_def rotate_regs_fips upt_conv_Cons)
qed

lemma small_block:
  assumes "64 \<le> length blk" "length X = 16" "loop_00_15 0 blk X r = (X1, r1)"
  shows "snd (loop_16_63 16 X1 r1) = fold (fips_round (schedule blk)) [0..<64] r"
proof -
  have "window blk 0 X" using assms(2) by (simp add: window_def)
  from loop_00_15_schedule [OF assms(1) _ this, of r] assms(3)
  have r1: "r1 = fold (fips_round (schedule blk)) [0..<16] r" "window blk 16 X1" by auto
  have "[0..<64] = [0..<16] @ [16..<64]" using upt_add_eq_append [of 0 16 48] by simp
  then show ?thesis using loop_16_63_schedule [OF _ _ r1(2), of r1] r1(1) by simp
qed

lemma compress_take: "64 \<le> length m \<Longrightarrow> compress H (take 64 m) = compress H m"
proof -
  assume m: "64 \<le> length m"
  have s: "slice (4 * t) 4 (take 64 m) = slice (4 * t) 4 m" if "t < 16" for t
    using m that by (simp add: slice_def take_drop min_def)
  have "schedule (take 64 m) t = schedule m t" for t
  proof (induction t rule: less_induct)
    case (less t)
    show ?case
    proof (cases "t < 16")
      case True
      then show ?thesis unfolding schedule.simps [of "take 64 m" t] schedule.simps [of m t] by (simp add: s)
    next
      case False
      then show ?thesis using less by (simp only: schedule_step not_less)
    qed
  qed
  then have "schedule (take 64 m) = schedule m" by (rule ext)
  then show ?thesis by (simp only: compress_def)
qed

lemma absorb_step: "64 \<le> length m \<Longrightarrow> absorb H m = absorb (compress H m) (drop 64 m)"
  by (subst absorb.simps) (simp add: compress_take)

lemma absorb_short: "length m < 64 \<Longrightarrow> absorb H m = H"
  by (simp add: absorb.simps)

lemma absorb_append: "64 dvd length m \<Longrightarrow> absorb H (m @ n) = absorb (absorb H m) n"
proof (induction "length m" arbitrary: H m rule: less_induct)
  case less
  show ?case
  proof (cases "m = []")
    case False
    then have l: "64 \<le> length m" using less.prems by (auto dest: dvd_imp_le)
    have "absorb H (m @ n) = absorb (compress H (m @ n)) (drop 64 m @ n)" using l by (simp add: absorb_step)
    also have "compress H (m @ n) = compress H m"
      using l compress_take [of "m @ n" H] compress_take [of m H] by simp
    also have "absorb (compress H m) (drop 64 m @ n) = absorb (absorb (compress H m) (drop 64 m)) n"
      by (rule less.hyps) (use l less.prems False in auto)
    finally show ?thesis using l by (simp add: absorb_step)
  qed (simp add: absorb_short)
qed

lemma block_data_order:
  "64 * n \<le> length data \<Longrightarrow>
   sha256_block_data_order ctx data n = ctx\<lparr>ctx_h := absorb (ctx_h ctx) (take (64 * n) data)\<rparr>"
proof (induction n arbitrary: ctx data)
  case 0
  then show ?case by (simp add: absorb_short)
next
  case (Suc n)
  obtain X1 r1 where l1: "loop_00_15 0 data (replicate 16 0) (load_regs (ctx_h ctx)) = (X1, r1)" by (rule prod.exhaust)
  obtain X2 r2 where l2: "loop_16_63 16 X1 r1 = (X2, r2)" by (rule prod.exhaust)
  have "r2 = fold (fips_round (schedule data)) [0..<64] (load_regs (ctx_h ctx))"
    using small_block [OF _ _ l1] Suc.prems l2 by simp
  then have h: "add_regs (ctx_h ctx) r2 = compress (ctx_h ctx) data" by (simp add: compress_def)
  have "absorb (ctx_h ctx) (take (64 * Suc n) data) = absorb (compress (ctx_h ctx) data) (take (64 * n) (drop 64 data))"
    using Suc.prems compress_take [of data] compress_take [of "take (64 * Suc n) data"]
    by (subst absorb_step) (simp_all add: drop_take min_def)
  then show ?case using Suc.prems by (simp add: l1 l2 h Suc.IH)
qed

section \<open>The two forms of the block function agree\<close>

text \<open>One round of each loop of the small form, on the array and the registers together.\<close>

definition load_step :: "bytes \<Rightarrow> nat \<Rightarrow> u32 list \<times> regs \<Rightarrow> u32 list \<times> regs" where
  "load_step data i = (\<lambda>(X, r). let l = HOST_c2l (drop (4 * i) data) in (X[i := l], rotate_regs l i r))"

definition expand_step :: "nat \<Rightarrow> u32 list \<times> regs \<Rightarrow> u32 list \<times> regs" where
  "expand_step i = (\<lambda>(X, r).
     let T1 = X ! (i AND 0xf) + (sigma0 (X ! ((i + 1) AND 0x0f)) + sigma1 (X ! ((i + 14) AND 0x0f)) + X ! ((i + 9) AND 0xf))
     in (X[i AND 0xf := T1], rotate_regs T1 i r))"

lemma loop_00_15_fold: "loop_00_15 i (drop (4 * i) data) X r = fold (load_step data) [i..<16] (X, r)"
proof (induction "16 - i" arbitrary: i X r)
  case (Suc k)
  then have i: "i < 16" and s: "16 - Suc i = k" by simp_all
  show ?case
    using Suc.hyps(1) [OF s [symmetric]] i
    by (subst loop_00_15.simps) (simp add: Let_def upt_conv_Cons load_step_def add.commute)
qed (simp add: loop_00_15.simps)

lemma loop_16_63_fold: "loop_16_63 i X r = fold expand_step [i..<64] (X, r)"
proof (induction "64 - i" arbitrary: i X r)
  case (Suc k)
  then have i: "i < 64" and s: "64 - Suc i = k" by simp_all
  show ?case
    using Suc.hyps(1) [OF s [symmetric]] i
    by (subst loop_16_63.simps) (simp add: Let_def upt_conv_Cons expand_step_def del: and_15_mod)
qed (simp add: loop_16_63.simps)

definition renames :: "xround \<Rightarrow> (nat \<Rightarrow> u32 list \<times> regs \<Rightarrow> u32 list \<times> regs) \<Rightarrow> bool" where
  "renames R S \<longleftrightarrow> (\<forall>i X a b c d e f g h X' d' h'. R i X a b c d e f g h = (X', d', h') \<longrightarrow>
     S i (X, a, b, c, d, e, f, g, h) = (X', h', a, b, c, d', e, f, g))"

lemma renames_load: "renames (LOAD_ROUND data) (load_step data)"
  by (auto simp: renames_def LOAD_ROUND_def load_step_def Let_def ROUND_00_15_def rotate_regs_def)

lemma renames_expand: "renames ROUND_16_63 expand_step"
  by (auto simp: renames_def ROUND_16_63_def expand_step_def Let_def ROUND_00_15_def rotate_regs_def)

lemma eight_rounds_fold:
  assumes "renames R S"
  shows "eight_rounds R i s = fold S [i..<i + 8] s"
proof -
  have u: "[i..<i + 8] = [i, i + 1, i + 2, i + 3, i + 4, i + 5, i + 6, i + 7]"
    by (simp add: upt_rec)
  have R: "S j (X, a, b, c, d, e, f, g, h) = (X', h', a, b, c, d', e, f, g)" if "R j X a b c d e f g h = (X', d', h')"
    for j X a b c d e f g h X' d' h' using assms that unfolding renames_def by blast
  obtain X a b c d e f g h where s: "s = (X, a, b, c, d, e, f, g, h)" by (cases s) auto
  obtain X1 d1 h1 where r1: "R i X a b c d e f g h = (X1, d1, h1)" by (rule prod_cases3)
  obtain X2 c1 g1 where r2: "R (i + 1) X1 h1 a b c d1 e f g = (X2, c1, g1)" by (rule prod_cases3)
  obtain X3 b1 f1 where r3: "R (i + 2) X2 g1 h1 a b c1 d1 e f = (X3, b1, f1)" by (rule prod_cases3)
  obtain X4 a1 e1 where r4: "R (i + 3) X3 f1 g1 h1 a b1 c1 d1 e = (X4, a1, e1)" by (rule prod_cases3)
  obtain X5 h2 d2 where r5: "R (i + 4) X4 e1 f1 g1 h1 a1 b1 c1 d1 = (X5, h2, d2)" by (rule prod_cases3)
  obtain X6 g2 c2 where r6: "R (i + 5) X5 d2 e1 f1 g1 h2 a1 b1 c1 = (X6, g2, c2)" by (rule prod_cases3)
  obtain X7 f2 b2 where r7: "R (i + 6) X6 c2 d2 e1 f1 g2 h2 a1 b1 = (X7, f2, b2)" by (rule prod_cases3)
  obtain X8 e2 a2 where r8: "R (i + 7) X7 b2 c2 d2 e1 f2 g2 h2 a1 = (X8, e2, a2)" by (rule prod_cases3)
  note r = r1 r2 r3 r4 r5 r6 r7 r8
  show ?thesis
    unfolding eight_rounds_def s u Let_def prod.case r add_0_right
    by (simp only: fold_simps r [THEN R])
qed

lemma unrolled_fold: "i = 16 + 8 * k \<Longrightarrow> k \<le> 6 \<Longrightarrow> unrolled_16_63 i s = fold expand_step [i..<64] s"
proof (induction "6 - k" arbitrary: i k s)
  case 0
  then show ?case by (simp add: unrolled_16_63.simps)
next
  case (Suc n)
  then have "i < 64" "i + 8 = 16 + 8 * Suc k" "Suc k \<le> 6" "n = 6 - Suc k" by simp_all
  moreover from this have "[i..<64] = [i..<i + 8] @ [i + 8..<64]" using upt_add_eq_append [of i "i + 8" "64 - (i + 8)"] by simp
  ultimately show ?case using Suc.hyps(1) [of "Suc k" "i + 8"]
    by (subst unrolled_16_63.simps) (simp add: eight_rounds_fold [OF renames_expand])
qed

theorem unrolled_agrees: "sha256_block_data_order_c ctx data n = sha256_block_data_order ctx data n"
proof (induction n arbitrary: ctx data)
  case (Suc n)
  let ?s = "(replicate 16 0, load_regs (ctx_h ctx))"
  have u: "[0..<16] = [0..<0 + 8] @ [8..<8 + 8 :: nat]" using upt_add_eq_append [of 0 8 8] by simp
  have "eight_rounds (LOAD_ROUND data) 8 (eight_rounds (LOAD_ROUND data) 0 ?s) = loop_00_15 0 data (replicate 16 0) (load_regs (ctx_h ctx))"
    using loop_00_15_fold [of 0 data "replicate 16 0" "load_regs (ctx_h ctx)"]
    unfolding eight_rounds_fold [OF renames_load] u by (simp only: fold_append comp_apply mult_0_right drop_0)
  moreover have "unrolled_16_63 16 s = loop_16_63 16 (fst s) (snd s)" for s
    using unrolled_fold [of 16 0 s] by (simp add: loop_16_63_fold)
  ultimately show ?case by (simp add: Suc Let_def case_prod_beta)
qed simp

section \<open>The context stands for the bytes so far\<close>

definition buffered :: "u32 list \<Rightarrow> SHA256_CTX \<Rightarrow> bytes \<Rightarrow> bool" where
  "buffered H c m \<longleftrightarrow> ctx_h c = absorb H m \<and> length (ctx_data c) = 64 \<and> unat (ctx_num c) = length m mod 64 \<and>
     take (length m mod 64) (ctx_data c) = drop (64 * (length m div 64)) m"

definition counted :: "SHA256_CTX \<Rightarrow> bytes \<Rightarrow> bool" where
  "counted c m \<longleftrightarrow> (unat (ctx_Nh c) * 2 ^ 32 + unat (ctx_Nl c)) = 8 * length m mod 2 ^ 64"

lemma absorb_full: "absorb H (take (64 * (length m div 64)) m) = absorb H m"
proof -
  have "length (drop (64 * (length m div 64)) m) < 64"
    using mod_less_divisor [of 64 "length m"] by (simp add: minus_mult_div_eq_mod)
  moreover have "64 dvd length (take (64 * (length m div 64)) m)" by simp
  ultimately show ?thesis
    using absorb_append [of "take (64 * (length m div 64)) m" H "drop (64 * (length m div 64)) m"] by (simp add: absorb_short)
qed

text \<open>A whole number of blocks so far, and more bytes: the second half of the update.\<close>

lemma update_blocks_eq:
  assumes "length d = unat len"
  shows "update_blocks c d len = (let c' = c\<lparr>ctx_h := absorb (ctx_h c) d\<rparr> in if length d mod 64 = 0 then c'
     else c'\<lparr>ctx_num := word_of_nat (length d mod 64), ctx_data := overlay 0 (drop (64 * (length d div 64)) d) (ctx_data c)\<rparr>)"
proof -
  define n where "n = length d div 64"
  have un: "unat (len div 64) = n" by (simp add: n_def unat_div assms)
  have le: "64 * n \<le> length d" by (simp add: n_def)
  then have "n * 64 < 2 ^ 64" using unat_bound [of len] assms by simp
  then have n64: "unat (len div 64 * 64) = n * 64"
    by (simp add: unat_mult_lem [THEN iffD1] un)
  have "len div 64 * 64 \<le> len" using le by (simp add: word_le_nat_alt n64 assms)
  then have r: "unat (len - len div 64 * 64) = length d mod 64"
    by (simp add: unat_sub n64 assms [symmetric]) (simp add: n_def minus_div_mult_eq_mod)
  then have r0: "(len - len div 64 * 64 = 0) = (length d mod 64 = 0)" by (metis unat_eq_zero)
  have rc: "(ucast (len - len div 64 * 64) :: u32) = word_of_nat (length d mod 64)"
    unfolding r [symmetric] by simp
  have sp: "sha256_block_data_order c d n = c\<lparr>ctx_h := absorb (ctx_h c) d\<rparr>"
    using block_data_order [OF le] absorb_full [of _ d] by (simp add: n_def)
  have n0: "(0 < len div 64) = (0 < n)" by (simp add: word_less_nat_alt un)
  have dl: "length (drop (n * 64) d) = length d mod 64" by (simp add: n_def minus_div_mult_eq_mod)
  show ?thesis
  proof (cases "0 < n")
    case True
    then show ?thesis
      using dl unfolding update_blocks_def Let_def n0 un sp n64 if_P [OF True] prod.case r0 r rc by (simp add: n_def mult.commute)
  next
    case False
    then have z: "len div 64 = 0" "n = 0" using un by (simp_all add: unat_eq_zero [symmetric])
    then have "absorb (ctx_h c) d = ctx_h c" using n_def by (simp add: absorb_short div_eq_0_iff)
    then show ?thesis using r r0 rc dl z(2) unfolding update_blocks_def Let_def z(1) by (simp add: n_def [symmetric] absorb_short)
  qed
qed

lemma overlay_take: "ofs + length src \<le> length buf \<Longrightarrow> k = ofs + length src \<Longrightarrow> take k (overlay ofs src buf) = take ofs buf @ src"
  by (simp add: overlay_def)

lemma update_blocks_buffered:
  assumes b: "buffered H c m" and m: "64 dvd length m" and d: "length d = unat len"
  shows "buffered H (update_blocks c d len) (m @ d)"
proof -
  have md: "length (m @ d) mod 64 = length d mod 64" using m by (simp add: mod_add_left_eq [symmetric])
  have dv: "64 * (length (m @ d) div 64) = length m + 64 * (length d div 64)" using m by (auto simp: dvd_def)
  have dl: "length (drop (64 * (length d div 64)) d) = length d mod 64" by (simp add: minus_mult_div_eq_mod)
  have "length d mod 64 < 64" by simp
  then have "length d mod 64 < 2 ^ 32" by (rule less_trans) simp
  then have w: "unat (word_of_nat (length d mod 64) :: u32) = length d mod 64" by (simp add: unat_of_nat)
  have "absorb H (m @ d) = absorb (ctx_h c) d" using b absorb_append [OF m] by (simp add: buffered_def)
  moreover have "take (length d mod 64) (overlay 0 (drop (64 * (length d div 64)) d) (ctx_data c)) = drop (64 * (length d div 64)) d"
    using b dl \<open>length d mod 64 < 64\<close> by (subst overlay_take) (simp_all add: buffered_def)
  moreover have "length (overlay 0 (drop (64 * (length d div 64)) d) (ctx_data c)) = 64"
    using b dl \<open>length d mod 64 < 64\<close> by (subst length_overlay) (simp_all add: buffered_def)
  moreover have "ctx_num c = 0" if "length d mod 64 = 0" using b m by (simp add: buffered_def dvd_eq_mod_eq_0 unat_eq_zero)
  ultimately show ?thesis
    using b w unfolding update_blocks_eq [OF d] Let_def buffered_def md dv by (cases "length d mod 64 = 0") simp_all
qed

lemma update_blocks_fields:
  "length d = unat len \<Longrightarrow> ctx_Nh (update_blocks c d len) = ctx_Nh c" "length d = unat len \<Longrightarrow> ctx_Nl (update_blocks c d len) = ctx_Nl c"
  "length d = unat len \<Longrightarrow> ctx_md_len (update_blocks c d len) = ctx_md_len c"
  by (simp_all add: update_blocks_eq Let_def)

lemma two_words_mod:
  fixes a l :: nat
  assumes "l < 2 ^ 32"
  shows "(a mod 2 ^ 32) * 2 ^ 32 + l = (a * 2 ^ 32 + l) mod 2 ^ 64"
proof -
  have "(a * 2 ^ 32 + l) mod (2 ^ 32 * 2 ^ 32) = 2 ^ 32 * ((a * 2 ^ 32 + l) div 2 ^ 32 mod 2 ^ 32) + (a * 2 ^ 32 + l) mod 2 ^ 32"
    by (rule mod_mult2_eq)
  then show ?thesis using assms by simp
qed

lemma count_bits_counted:
  assumes c: "counted c m" and d: "length d = unat len"
  shows "counted (count_bits c len) (m @ d)"
proof -
  define nl nh L q r where "nl = unat (ctx_Nl c)" and "nh = unat (ctx_Nh c)" and "L = 8 * unat len"
    and "q = L div 2 ^ 32" and "r = L mod 2 ^ 32"
  have b: "nl < 2 ^ 32" "r < 2 ^ 32" using unat_bound [of "ctx_Nl c"] by (simp_all add: nl_def r_def)
  have "unat (push_bit 3 (ucast len) :: u32) = r"
    by (simp add: push_bit_eq_mult unat_word_ariths unsigned_ucast_eq take_bit_eq_mod r_def L_def mod_mult_right_eq mod_mult_left_eq mult.commute [of _ 8])
  then have l: "unat ((ctx_Nl c + push_bit 3 (ucast len)) AND 0xffffffff) = (nl + r) mod 2 ^ 32"
    unfolding and_ones by (simp add: unat_word_ariths nl_def)
  define k where "k = (nl + r) div 2 ^ 32"
  have s: "nl + r = k * 2 ^ 32 + (nl + r) mod 2 ^ 32" by (simp only: k_def div_mult_mod_eq)
  have "k < 2" using b by (simp add: k_def div_less_iff_less_mult)
  then have k: "k = (if (nl + r) mod 2 ^ 32 < nl then 1 else 0)"
    using s b by (cases "k = 0"; cases "k = 1") auto
  have "unat (ucast (drop_bit 29 len) :: u32) = q mod 2 ^ 32"
    by (simp add: unsigned_ucast_eq take_bit_eq_mod unsigned_drop_bit_eq q_def L_def drop_bit_eq_div unat_div)
  then have h: "unat (ctx_Nh (count_bits c len)) = (nh + k + q) mod 2 ^ 32"
    unfolding count_bits_def Let_def k
    by (simp add: word_less_nat_alt l nl_def nh_def unat_word_ariths mod_add_right_eq mod_add_left_eq add.assoc)
  have "unat (ctx_Nh (count_bits c len)) * 2 ^ 32 + unat (ctx_Nl (count_bits c len)) = ((nh + k + q) * 2 ^ 32 + (nl + r) mod 2 ^ 32) mod 2 ^ 64"
    unfolding h by (subst two_words_mod) (simp_all add: count_bits_def Let_def l)
  also have "(nh + k + q) * 2 ^ 32 + (nl + r) mod 2 ^ 32 = (nh * 2 ^ 32 + nl) + L"
  proof -
    have "q * 2 ^ 32 + r = L" by (simp only: q_def r_def div_mult_mod_eq)
    then show ?thesis using s by (simp add: add_mult_distrib)
  qed
  also have "\<dots> mod 2 ^ 64 = (8 * length m + L) mod 2 ^ 64"
    using c by (simp add: counted_def nh_def nl_def mod_add_left_eq)
  finally show ?thesis by (simp add: counted_def d L_def)
qed

lemma count_bits_fields:
  "ctx_h (count_bits c len) = ctx_h c" "ctx_data (count_bits c len) = ctx_data c" "ctx_num (count_bits c len) = ctx_num c"
  "ctx_md_len (count_bits c len) = ctx_md_len c"
  by (simp_all add: count_bits_def Let_def)

definition represents :: "u32 list \<Rightarrow> nat \<Rightarrow> SHA256_CTX \<Rightarrow> bytes \<Rightarrow> bool" where
  "represents H n c m \<longleftrightarrow> buffered H c m \<and> counted c m \<and> unat (ctx_md_len c) = n"

lemma counted_cong: "ctx_Nh c = ctx_Nh c' \<Longrightarrow> ctx_Nl c = ctx_Nl c' \<Longrightarrow> counted c m = counted c' m"
  by (simp add: counted_def)

text \<open>The buffer is filled up to a block.\<close>

lemma fill_buffer:
  assumes b: "buffered H c m" and n: "n = length m mod 64" and d: "64 \<le> length d + n"
  shows "overlay n (take (64 - n) d) (ctx_data c) = drop (64 * (length m div 64)) m @ take (64 - n) d"
    "absorb (ctx_h c) (drop (64 * (length m div 64)) m @ take (64 - n) d) = absorb H (m @ take (64 - n) d)"
    "64 dvd length (m @ take (64 - n) d)"
proof -
  have l: "length (ctx_data c) = 64" "n < 64" and t: "take n (ctx_data c) = drop (64 * (length m div 64)) m" and h: "ctx_h c = absorb H m"
    using b n by (simp_all add: buffered_def)
  show "overlay n (take (64 - n) d) (ctx_data c) = drop (64 * (length m div 64)) m @ take (64 - n) d"
    using l d unfolding overlay_def t by simp
  let ?full = "take (64 * (length m div 64)) m" and ?rest = "drop (64 * (length m div 64)) m"
  have "absorb H (?full @ (?rest @ take (64 - n) d)) = absorb (absorb H ?full) (?rest @ take (64 - n) d)"
    by (rule absorb_append) simp
  then show "absorb (ctx_h c) (?rest @ take (64 - n) d) = absorb H (m @ take (64 - n) d)"
    using absorb_full [of H m] h by (simp flip: append_assoc)
  have "n \<le> length m" using n by simp
  then have "length (m @ take (64 - n) d) = length m - n + 64" using d l \<open>n \<le> length m\<close> by simp
  moreover have "64 dvd length m - n" unfolding n by (simp add: minus_mod_eq_mult_div)
  ultimately show "64 dvd length (m @ take (64 - n) d)" by (simp only: dvd_add dvd_refl)
qed

lemma one_block: "length p = 64 \<Longrightarrow> sha256_block_data_order c p 1 = c\<lparr>ctx_h := absorb (ctx_h c) p\<rparr>"
  using block_data_order [of 1 p c] by simp

lemma SHA256_Update_zero: "SHA256_Update c d 0 = c"
  by (simp add: SHA256_Update_def)

lemma Update_full:
  assumes n: "unat (ctx_num c) = n" "n \<noteq> 0" "n < 64" and l: "64 \<le> unat len + n" and d: "length d = unat len"
  shows "SHA256_Update c d len =
    (let c = count_bits c len; p = overlay n (take (64 - n) d) (ctx_data c);
         c = sha256_block_data_order (c\<lparr>ctx_data := p\<rparr>) p 1
     in update_blocks (c\<lparr>ctx_num := 0, ctx_data := zeros 64\<rparr>) (drop (64 - n) d) (word_of_nat (length d - (64 - n))))"
proof -
  let ?N = "ucast (ctx_num c) :: u64"
  have N: "unat ?N = n" using n by simp
  then have "?N \<noteq> 0" "?N \<le> 64" using n(2,3) unat_eq_zero [of ?N] by (metis, simp add: word_le_nat_alt)
  then have s: "unat (64 - ?N) = 64 - n" by (simp add: unat_sub n(1))
  have nz: "len \<noteq> 0" using n l by auto
  have "64 \<le> len \<or> 64 \<le> len + ?N"
  proof (cases "64 \<le> unat len")
    case False
    then have "unat (len + ?N) = unat len + n" using n N by (simp add: unat_word_ariths)
    then show ?thesis using l by (simp add: word_le_nat_alt)
  qed (simp add: word_le_nat_alt)
  moreover have "64 - ?N \<le> len" using l s by (simp add: word_le_nat_alt)
  then have "unat (len - (64 - ?N)) = length d - (64 - n)" by (simp add: unat_sub s d)
  then have "word_of_nat (unat (len - (64 - ?N))) = (word_of_nat (length d - (64 - n)) :: u64)" by (rule arg_cong)
  then have "len - (64 - ?N) = word_of_nat (length d - (64 - n))" by simp
  ultimately show ?thesis
    using \<open>?N \<noteq> 0\<close> nz unfolding SHA256_Update_def Let_def count_bits_fields N s by simp
qed

lemma Update_short:
  assumes n: "unat (ctx_num c) = n" "n \<noteq> 0" and l: "unat len + n < 64" "len \<noteq> 0" and d: "length d = unat len"
  shows "SHA256_Update c d len =
    (let c = count_bits c len in c\<lparr>ctx_data := overlay n d (ctx_data c), ctx_num := word_of_nat (n + length d)\<rparr>)"
proof -
  let ?N = "ucast (ctx_num c) :: u64"
  have N: "unat ?N = n" using n by simp
  then have "?N \<noteq> 0" using n(2) unat_eq_zero [of ?N] by metis
  moreover have "unat (len + ?N) = unat len + n" using l N by (simp add: unat_word_ariths)
  then have "\<not> (64 \<le> len \<or> 64 \<le> len + ?N)" using l by (simp add: word_le_nat_alt)
  moreover have "ctx_num c + ucast len = word_of_nat (n + length d)"
    by (simp add: d flip: n(1))
  ultimately show ?thesis using l d unfolding SHA256_Update_def Let_def count_bits_fields N by simp
qed

lemma Update_aligned:
  "len \<noteq> 0 \<Longrightarrow> ctx_num c = 0 \<Longrightarrow> SHA256_Update c d len = update_blocks (count_bits c len) d len"
  by (simp add: SHA256_Update_def Let_def count_bits_fields)


lemma Update_represents:
  assumes r: "represents H k c m" and d: "length d = unat len"
  shows "represents H k (SHA256_Update c d len) (m @ d)"
proof -
  define n where "n = length m mod 64"
  have b: "buffered H c m" and cn: "counted c m" and k: "unat (ctx_md_len c) = k" using r by (simp_all add: represents_def)
  have num: "unat (ctx_num c) = n" "n < 64" "length (ctx_data c) = 64" "take n (ctx_data c) = drop (64 * (length m div 64)) m"
    using b by (simp_all add: buffered_def n_def)
  have b1: "buffered H (count_bits c len) m" using b by (simp add: buffered_def count_bits_fields)
  have c1: "counted (count_bits c len) (m @ d)" by (rule count_bits_counted [OF cn d])
  consider "len = 0" | "len \<noteq> 0" "n = 0" | "len \<noteq> 0" "n \<noteq> 0" "unat len + n < 64" | "n \<noteq> 0" "64 \<le> unat len + n" by linarith
  then show ?thesis
  proof cases
    case 1
    then show ?thesis using r d by (simp add: SHA256_Update_zero)
  next
    case 2
    then have "64 dvd length m" "ctx_num c = 0" using num by (simp_all add: n_def dvd_eq_mod_eq_0 unat_eq_zero)
    then show ?thesis using update_blocks_buffered [OF b1 _ d] c1 k 2 d
      by (simp add: represents_def Update_aligned update_blocks_fields count_bits_fields counted_def)
  next
    case 3
    have "length (m @ d) = 64 * (length m div 64) + (n + length d)" by (simp add: n_def)
    then have l: "length (m @ d) mod 64 = n + length d" "length (m @ d) div 64 = length m div 64"
      using 3(3) d by (simp_all only: mod_mult_self3 mod_mult_self4 div_mult_self3 div_mult_self4) simp_all
    have "absorb H (m @ d) = absorb H m"
      using absorb_full [of H "m @ d"] absorb_full [of H m] unfolding l by simp
    moreover have "take (n + length d) (overlay n d (ctx_data c)) = drop (64 * (length m div 64)) m @ d"
      using 3 d num by (simp add: overlay_take)
    moreover have "length (overlay n d (ctx_data c)) = 64" using 3 d num by (simp add: length_overlay)
    moreover have "unat (word_of_nat (n + length d) :: u32) = n + length d"
      using 3(3) d by (simp add: unat_of_nat del: of_nat_add)
    ultimately have "buffered H (SHA256_Update c d len) (m @ d)"
      using b1 unfolding Update_short [OF num(1) 3(2,3,1) d] Let_def buffered_def l by (simp add: count_bits_fields)
    then show ?thesis using c1 k
      unfolding represents_def Update_short [OF num(1) 3(2,3,1) d] Let_def by (simp add: counted_def count_bits_fields)
  next
    case 4
    then have dl: "64 \<le> length d + n" using d by simp
    note f = fill_buffer [OF b1 n_def dl]
    let ?m = "m @ take (64 - n) d" and ?r = "drop (64 * (length m div 64)) m @ take (64 - n) d"
    let ?c = "(count_bits c len)\<lparr>ctx_h := absorb H ?m, ctx_num := 0, ctx_data := zeros 64\<rparr>"
    have "length ?r = 64" using f(1) num dl length_overlay [of n "take (64 - n) d" "ctx_data c"] by (simp add: count_bits_fields)
    then have "sha256_block_data_order ((count_bits c len)\<lparr>ctx_data := ?r\<rparr>) ?r 1 = (count_bits c len)\<lparr>ctx_data := ?r, ctx_h := absorb H ?m\<rparr>"
      unfolding f(2) [symmetric] by (simp only: one_block) simp
    then have u: "SHA256_Update c d len = update_blocks ?c (drop (64 - n) d) (word_of_nat (length d - (64 - n)))"
      unfolding Update_full [OF num(1) 4(1) num(2) 4(2) d] Let_def f(1) by simp
    have b2: "buffered H ?c ?m" using f(3) by (simp add: buffered_def dvd_eq_mod_eq_0)
    have "length d - (64 - n) < 2 ^ 64" using unat_bound [of len] d by simp
    then have l: "length (drop (64 - n) d) = unat (word_of_nat (length d - (64 - n)) :: u64)" by (simp add: unat_of_nat)
    have "buffered H (SHA256_Update c d len) (m @ d)"
      using update_blocks_buffered [OF b2 f(3) l] unfolding u by simp
    then show ?thesis
      using c1 k update_blocks_fields [OF l] by (simp add: represents_def u counted_def count_bits_fields)
  qed
qed

section \<open>Final\<close>

lemma to_le_append: "to_le (a + b) v = to_le a v @ to_le b (v div 256 ^ a)"
  by (induction a arbitrary: v) (simp_all add: div_mult2_eq [symmetric])

lemma to_le_mod: "to_le n (v mod 256 ^ n) = to_le n v"
  using to_le_of_le [of n "to_le n v"] by (simp add: of_le_to_le)

lemma counter_bytes:
  assumes "counted c m"
  shows "HOST_l2c (ctx_Nh c) @ HOST_l2c (ctx_Nl c) = rev (to_le 8 (8 * length m))"
proof -
  let ?N = "unat (ctx_Nh c) * 2 ^ 32 + unat (ctx_Nl c)"
  have "to_le 8 (8 * length m) = to_le 8 ?N"
    using assms to_le_mod [of 8 "8 * length m"] by (simp add: counted_def)
  also have "\<dots> = to_le 4 ?N @ to_le 4 (?N div 256 ^ 4)" using to_le_append [of 4 4 ?N] by simp
  also have "?N div 256 ^ 4 = unat (ctx_Nh c)" using unat_bound [of "ctx_Nl c"] by simp
  also have "to_le 4 ?N = to_le 4 (unat (ctx_Nl c))"
    using to_le_mod [of 4 ?N] unat_bound [of "ctx_Nl c"] by simp
  finally show ?thesis by (simp add: HOST_l2c_be)
qed

text \<open>What the final operation puts into the buffer is the rest of the padded message.\<close>

lemma Final_tail:
  assumes b: "buffered H c m" and e: "length e = 8"
  defines "n \<equiv> length m mod 64" and "rest \<equiv> drop (64 * (length m div 64)) m"
  shows "n \<le> 55 \<Longrightarrow> overlay 56 e (overlay (n + 1) (zeros (55 - n)) ((ctx_data c)[n := 0x80])) = rest @ [0x80] @ zeros (55 - n) @ e"
    "55 < n \<Longrightarrow> overlay (n + 1) (zeros (63 - n)) ((ctx_data c)[n := 0x80]) = rest @ [0x80] @ zeros (63 - n)"
proof -
  have d: "length (ctx_data c) = 64" "take n (ctx_data c) = rest" "n < 64" using b by (simp_all add: buffered_def n_def rest_def)
  then have r: "length rest = n" by auto
  have s: "take (n + 1) ((ctx_data c)[n := 0x80]) = rest @ [0x80]"
    using d by (simp add: take_Suc_conv_app_nth)
  show "overlay (n + 1) (zeros (63 - n)) ((ctx_data c)[n := 0x80]) = rest @ [0x80] @ zeros (63 - n)" if "55 < n"
    using d s that unfolding overlay_def s by simp
  show "overlay 56 e (overlay (n + 1) (zeros (55 - n)) ((ctx_data c)[n := 0x80])) = rest @ [0x80] @ zeros (55 - n) @ e" if "n \<le> 55"
    using d s that e r Suc_diff_le [OF that] unfolding overlay_def s by simp
qed

lemma length_absorb: "length H = 8 \<Longrightarrow> length (absorb H m) = 8"
proof (induction H m rule: absorb.induct)
  case (1 H m)
  then show ?case by (subst absorb.simps) (simp add: compress_def add_regs_def split: prod.splits)
qed

lemma pad_tail:
  defines "n m \<equiv> length m mod 64" and "rest m \<equiv> drop (64 * (length m div 64)) m"
  assumes "ctx_h c = absorb H m"
  shows "absorb H (sha_pad m) = absorb (ctx_h c) (rest m @ [0x80] @ zeros ((119 - n m) mod 64) @ rev (to_le 8 (8 * length m)))"
proof -
  let ?full = "take (64 * (length m div 64)) m"
  have "sha_pad m = ?full @ (rest m @ [0x80] @ zeros ((119 - n m) mod 64) @ rev (to_le 8 (8 * length m)))"
    by (simp add: sha_pad_def n_def rest_def flip: append_assoc)
  moreover have "64 dvd length ?full" by simp
  ultimately show ?thesis using absorb_append [of ?full H] absorb_full [of H m] assms(3) by simp
qed


lemma Final_represents:
  assumes "represents H k c m" "k \<le> 32" "length H = 8"
  shows "fst (SHA256_Final c) = Some (be_words (take (k div 4) (absorb H (sha_pad m))))"
proof -
  define n rest e where "n = length m mod 64" and "rest = drop (64 * (length m div 64)) m" and "e = rev (to_le 8 (8 * length m))"
  have b: "buffered H c m" and e: "HOST_l2c (ctx_Nh c) @ HOST_l2c (ctx_Nl c) = e" and k: "unat (ctx_md_len c) = k"
    using assms counter_bytes [of c m] by (simp_all add: represents_def e_def)
  have h: "ctx_h c = absorb H m" and num: "unat (ctx_num c) = n" "n < 64" and len: "length rest = n" "length e = 8"
    using b by (auto simp: buffered_def n_def rest_def e_def minus_mult_div_eq_mod)
  have two: "overlay 60 (HOST_l2c (ctx_Nl c)) (overlay 56 (HOST_l2c (ctx_Nh c)) p) = overlay 56 e p" if "length p = 64" for p
    using that len e by (simp add: overlay_def HOST_l2c_be flip: e)
  note tail = Final_tail [OF b len(2), folded n_def rest_def]
  have md: "HASH_MAKE_STRING c' = Some (be_words (take (k div 4) (ctx_h c')))" if "ctx_md_len c' = ctx_md_len c" for c'
    using that assms(2) k by (simp add: HASH_MAKE_STRING_def word_less_nat_alt unat_div be_words_def HOST_l2c_be [abs_def])
  have "(119 - n) mod 64 = (if n \<le> 55 then 55 - n else 119 - n)"
    using num(2) by (simp add: mod_if)
  then have pad: "absorb H (sha_pad m) = absorb (ctx_h c) (rest @ [0x80] @ zeros (if n \<le> 55 then 55 - n else 119 - n) @ e)"
    using pad_tail [OF h] by (simp add: n_def rest_def e_def)
  show ?thesis
  proof (cases "n \<le> 55")
    case True
    let ?p = "rest @ [0x80] @ zeros (55 - n) @ e"
    have l: "length (overlay (n + 1) (zeros (55 - n)) ((ctx_data c)[n := 0x80])) = 64" "length ?p = 64"
      using True b len by (simp_all add: buffered_def length_overlay)
    have "fst (SHA256_Final c) = HASH_MAKE_STRING (c\<lparr>ctx_h := absorb (ctx_h c) ?p, ctx_num := 0, ctx_data := zeros 64\<rparr>)"
      using True two [OF l(1)] tail(1) [OF True] one_block [OF l(2)] by (simp add: SHA256_Final_def Let_def num del: One_nat_def)
    then show ?thesis using True by (simp add: md pad)
  next
    case False
    let ?p = "rest @ [0x80] @ zeros (63 - n)"
    have l: "length ?p = 64" "length (zeros 56 @ e) = 64" "length (overlay 0 (zeros 56) ?p) = 64"
      using False num(2) len by (simp_all add: length_overlay)
    have o: "overlay 56 e (overlay 0 (zeros 56) ?p) = zeros 56 @ e" using l len by (simp add: overlay_def)
    have z: "zeros (119 - n) = zeros (63 - n) @ zeros 56" using False num(2) by (simp add: zeros_def flip: replicate_add)
    have "fst (SHA256_Final c) = HASH_MAKE_STRING (c\<lparr>ctx_h := absorb (absorb (ctx_h c) ?p) (zeros 56 @ e), ctx_num := 0, ctx_data := zeros 64\<rparr>)"
      using False two [OF l(3)] tail(2) o one_block [OF l(1)] one_block [OF l(2)]
      by (simp add: SHA256_Final_def Let_def num del: One_nat_def)
    then show ?thesis using False absorb_append [of ?p "ctx_h c" "zeros 56 @ e"] l(1) by (simp add: md pad z)
  qed
qed

section \<open>Digests\<close>

lemma Init_represents:
  "represents (ctx_h SHA256_Init) 32 SHA256_Init []" "represents (ctx_h SHA224_Init) 28 SHA224_Init []"
  "represents (ctx_h SHA256_Init) 24 ossl_sha256_192_init []"
  by (simp_all add: represents_def buffered_def counted_def absorb_short SHA256_Init_def SHA224_Init_def ossl_sha256_192_init_def)

lemma length_Init [simp]: "length (ctx_h SHA256_Init) = 8" "length (ctx_h SHA224_Init) = 8"
  by (simp_all add: SHA256_Init_def SHA224_Init_def)

lemma length_be_words: "length (be_words ws) = 4 * length ws"
  by (induction ws) (simp_all add: be_words_def)

lemma length_sha256 [simp]: "length (sha256 m) = 32"
  by (simp add: sha256_def length_be_words length_absorb)

lemma Final_sha256: "represents (ctx_h SHA256_Init) 32 c m \<Longrightarrow> fst (SHA256_Final c) = Some (sha256 m)"
  by (simp add: Final_represents sha256_def length_absorb)

lemma Final_sha224: "represents (ctx_h SHA224_Init) 28 c m \<Longrightarrow> fst (SHA256_Final c) = Some (sha224 m)"
  by (simp add: Final_represents sha224_def)

lemma one_update: "length d = unat len \<Longrightarrow> fst (SHA256_Final (SHA256_Update SHA256_Init d len)) = Some (sha256 d)"
  using Final_sha256 [OF Update_represents [OF Init_represents(1)], of d len] by simp


section \<open>Digests of streams\<close>

text \<open>
  What a client of a streaming hash relies on: a context stands for the bytes it
  was given, an update adds bytes, and finishing gives the digest of all of them.
  Then the digest does not depend on how the bytes were cut.
\<close>

locale stream_digest =
  fixes init :: 'c and upd :: "'c \<Rightarrow> bytes \<Rightarrow> 'c" and fin :: "'c \<Rightarrow> bytes option" and stands_for :: "'c \<Rightarrow> bytes \<Rightarrow> bool"
    and digest :: "bytes \<Rightarrow> bytes"
  assumes start: "stands_for init []"
    and more: "stands_for c m \<Longrightarrow> length d < 2 ^ 64 \<Longrightarrow> stands_for (upd c d) (m @ d)"
    and finish: "stands_for c m \<Longrightarrow> fin c = Some (digest m)"
begin

lemma updates: "stands_for c m \<Longrightarrow> list_all (\<lambda>d. length d < 2 ^ 64) ds \<Longrightarrow> stands_for (foldl upd c ds) (m @ concat ds)"
proof (induction ds arbitrary: c m)
  case (Cons d ds)
  then show ?case using Cons.IH [OF more [OF Cons.prems(1)], of d] by simp
qed simp

lemma streaming: "list_all (\<lambda>d. length d < 2 ^ 64) ds \<Longrightarrow> fin (foldl upd init ds) = Some (digest (concat ds))"
  using finish [OF updates [OF start]] by simp

lemma cut_anywhere:
  "list_all (\<lambda>d. length d < 2 ^ 64) ds \<Longrightarrow> list_all (\<lambda>d. length d < 2 ^ 64) es \<Longrightarrow> concat ds = concat es \<Longrightarrow>
   fin (foldl upd init ds) = fin (foldl upd init es)"
  by (simp add: streaming)

end

definition update_all :: "SHA256_CTX \<Rightarrow> bytes \<Rightarrow> SHA256_CTX" where
  "update_all c d = SHA256_Update c d (word_of_nat (length d))"

lemma update_all_represents:
  "represents H k c m \<Longrightarrow> length d < 2 ^ 64 \<Longrightarrow> represents H k (update_all c d) (m @ d)"
  unfolding update_all_def by (rule Update_represents) (simp_all add: unat_of_nat)

interpretation s256: stream_digest SHA256_Init update_all "\<lambda>c. fst (SHA256_Final c)" "represents (ctx_h SHA256_Init) 32" sha256
  by unfold_locales (simp_all add: Init_represents update_all_represents Final_sha256)

interpretation s224: stream_digest SHA224_Init update_all "\<lambda>c. fst (SHA256_Final c)" "represents (ctx_h SHA224_Init) 28" sha224
  by unfold_locales (simp_all add: Init_represents update_all_represents Final_sha224)

section \<open>The shape of the context\<close>

text \<open>Eight words and a digest length, which no operation changes whatever the buffers hold.\<close>

definition shaped :: "u32 \<Rightarrow> SHA256_CTX \<Rightarrow> bool" where
  "shaped k c \<longleftrightarrow> length (ctx_h c) = 8 \<and> ctx_md_len c = k"

lemma shaped_block: "shaped k c \<Longrightarrow> shaped k (sha256_block_data_order c d n)"
  by (induction n arbitrary: c d) (simp_all add: shaped_def add_regs_def split: prod.split)

lemma shaped_fields [simp]:
  "shaped k (c\<lparr>ctx_data := p\<rparr>) = shaped k c" "shaped k (c\<lparr>ctx_num := n\<rparr>) = shaped k c"
  "shaped k (count_bits c len) = shaped k c"
  by (simp_all add: shaped_def count_bits_fields)

lemma shaped_Update: "shaped k c \<Longrightarrow> shaped k (SHA256_Update c d len)"
proof -
  have u: "shaped k c \<Longrightarrow> shaped k (update_blocks c d len)" for c d len
    by (simp add: update_blocks_def Let_def shaped_block)
  show "shaped k c \<Longrightarrow> shaped k (SHA256_Update c d len)"
    by (simp add: SHA256_Update_def Let_def u shaped_block del: One_nat_def)
qed

lemma length_concat_words: "length (concat (map HOST_l2c ws)) = 4 * length ws"
  by (induction ws) (simp_all add: HOST_l2c_def)

lemma shaped_Final: "shaped 32 c \<Longrightarrow> \<exists>h. fst (SHA256_Final c) = Some h \<and> length h = 32"
proof -
  assume c: "shaped 32 c"
  have "shaped 32 (snd (SHA256_Final c))"
    by (simp add: SHA256_Final_def Let_def c shaped_block split: prod.split del: One_nat_def)
  moreover have "fst (SHA256_Final c) = HASH_MAKE_STRING (snd (SHA256_Final c))"
    by (simp add: SHA256_Final_def Let_def split: prod.split)
  ultimately show ?thesis by (simp add: HASH_MAKE_STRING_def shaped_def length_concat_words)
qed

section \<open>Evaluation\<close>

text \<open>
  The digest of a short message as a recursion over the constants with a
  window of sixteen words, for computing with numerals; \<open>norm32\<close> keeps the
  numerals below two to the power of 32.
\<close>

definition norm32 :: "u32 \<Rightarrow> u32" where
  "norm32 x = word_of_nat (unat x)"

definition next_regs :: "u32 \<Rightarrow> u32 \<Rightarrow> regs \<Rightarrow> regs" where
  "next_regs T1 T2 = (\<lambda>(a, b, c, d, e, f, g, h). (norm32 (T1 + T2), a, b, c, norm32 (d + T1), e, f, g))"

definition const_round :: "u32 \<Rightarrow> u32 \<Rightarrow> regs \<Rightarrow> regs" where
  "const_round k w = (\<lambda>(a, b, c, d, e, f, g, h).
     next_regs (norm32 (w + (h + Sigma1 e + Ch e f g + k))) (Sigma0 a + Maj a b c) (a, b, c, d, e, f, g, h))"

primrec const_rounds :: "u32 list \<Rightarrow> u32 list \<Rightarrow> regs \<Rightarrow> regs" where
  "const_rounds [] X r = r"
| "const_rounds (k # ks) X r =
     const_rounds ks (tl X @ [norm32 (X ! 0 + (sigma0 (X ! 1) + sigma1 (X ! 14) + X ! 9))]) (const_round k (X ! 0) r)"

lemma norm32_id: "norm32 x = x"
  by (simp add: norm32_def)

lemma const_round_fips: "const_round (K256 ! i) (W i) r = fips_round W i r"
  by (cases r) (simp add: const_round_def next_regs_def norm32_id rotate_regs_def Let_def flip: rotate_regs_fips)

lemma const_rounds_fips:
  "i \<le> 64 \<Longrightarrow> const_rounds (drop i K256) (map (schedule blk) [i..<i + 16]) r = fold (fips_round (schedule blk)) [i..<64] r"
proof (induction "64 - i" arbitrary: i r)
  case 0
  then show ?case by (simp add: K256_def)
next
  case (Suc n)
  then have i: "i < 64" and n: "n = 64 - Suc i" by simp_all
  have "length K256 = 64" by (simp add: K256_def)
  then have d: "drop i K256 = K256 ! i # drop (Suc i) K256" using i by (simp add: Cons_nth_drop_Suc)
  define X where "X = map (schedule blk) [i..<i + 16]"
  have nth: "X ! j = schedule blk (i + j)" if "j < 16" for j using that by (simp add: X_def)
  have w: "tl X @ [schedule blk (i + 16)] = map (schedule blk) [Suc i..<Suc i + 16]"
    unfolding add_Suc X_def by (subst upt_Suc_append) (simp_all flip: map_tl)
  have s: "X ! 0 + (sigma0 (X ! 1) + sigma1 (X ! 14) + X ! 9) = schedule blk (i + 16)"
    using schedule_step [of "i + 16" blk] by (simp add: nth add.commute [of i])
  have "const_rounds (drop i K256) X r = const_rounds (drop (Suc i) K256) (map (schedule blk) [Suc i..<Suc i + 16]) (const_round (K256 ! i) (X ! 0) r)"
    by (simp only: d const_rounds.simps norm32_id s w)
  also have "\<dots> = fold (fips_round (schedule blk)) [Suc i..<64] (const_round (K256 ! i) (X ! 0) r)"
    using i by (intro Suc.hyps(1) [OF n]) simp
  also have "const_round (K256 ! i) (X ! 0) r = fips_round (schedule blk) i r" by (simp add: nth const_round_fips)
  also have "fold (fips_round (schedule blk)) [Suc i..<64] (fips_round (schedule blk) i r) = fold (fips_round (schedule blk)) [i..<64] r"
    using i by (simp add: upt_conv_Cons [of i])
  finally show ?case by (simp only: X_def)
qed

lemma sha256_eval:
  assumes "length m \<le> 55" "sha_pad m = p"
  shows "sha256 m = be_words (add_regs (ctx_h SHA256_Init)
    (const_rounds K256 (map (\<lambda>i. HOST_c2l (drop (4 * i) p)) [0..<16]) (load_regs (ctx_h SHA256_Init))))"
proof -
  have "length m mod 64 = length m" "(119 - length m) mod 64 = 55 - length m" using assms(1) by (simp_all add: mod_if)
  then have p: "length p = 64" unfolding assms(2) [symmetric] using assms(1) by (simp add: sha_pad_def)
  have "map (\<lambda>i. HOST_c2l (drop (4 * i) p)) [0..<16] = map (schedule p) [0..<0 + 16]"
    using p by (intro map_cong) (simp_all add: schedule_first)
  moreover have "absorb (ctx_h SHA256_Init) p = compress (ctx_h SHA256_Init) p" using p by (simp add: absorb_step absorb_short)
  ultimately show ?thesis
    unfolding sha256_def assms(2) using const_rounds_fips [of 0 p] by (simp only: compress_def drop_0 le0)
qed

lemma ROTATE_eval: "ROTATE x n = push_bit n x OR drop_bit (32 - n) x"
  by (simp add: ROTATE_def and_ones)

lemma drop_bit_word_of_nat: "m < 4294967296 \<Longrightarrow> drop_bit n (word_of_nat m :: u32) = word_of_nat (drop_bit n m)"
proof -
  assume m: "m < 4294967296"
  have "drop_bit n m \<le> m" by (simp add: drop_bit_eq_div)
  then show ?thesis using m
    by (simp add: word_unat_eq_iff unsigned_drop_bit_eq unat_of_nat take_bit_nat_eq_self)
qed

lemma drop_bit_eval: "numeral k < (4294967296 :: nat) \<Longrightarrow> drop_bit n (numeral k :: u32) = word_of_nat (drop_bit n (numeral k))"
  using drop_bit_word_of_nat [of "numeral k"] by simp

lemma word_of_nat_mod32: "(word_of_nat (n mod 4294967296) :: u32) = word_of_nat n"
  by (simp add: word_unat_eq_iff unat_of_nat)

lemma norm32_eval: "norm32 (numeral k) = word_of_nat (numeral k mod 4294967296)" "norm32 0 = 0" "norm32 1 = 1"
  unfolding norm32_id word_of_nat_mod32 by simp_all

lemmas sha_round_eval = next_regs_def const_round_def const_rounds.simps norm32_eval ROTATE_eval Sigma0_def Sigma1_def sigma0_def sigma1_def
  Ch_def Maj_def K256_def drop_bit_eval

end
