(* ===== verification/Sbc_Crypt.thy ===== *)
theory Sbc_Crypt
  imports Sbc_Machine Ossl_Sha256
begin

text \<open>
  Cryptography: the argument checks of BaseCryptLib (\<^verbatim>\<open>CryptSha256.c\<close>,
  \<^verbatim>\<open>CryptHmac.c\<close>, \<^verbatim>\<open>CryptAes.c\<close>, \<^verbatim>\<open>CryptAeadAesGcm.c\<close>, \<^verbatim>\<open>CryptEc.c\<close>, \<^verbatim>\<open>CryptX509.c\<close>) and the
  package's wrappers \<^verbatim>\<open>SBC_Hashing.c\<close>, \<^verbatim>\<open>SBC_CryptAES.c\<close> and \<^verbatim>\<open>SBC_X509.c\<close> over
  them.  The hash behind these checks is that of \<open>Ossl_Sha256\<close>.  What OpenSSL computes
  otherwise is the record \<open>openssl\<close>, a parameter of every definition that uses it:
  \<open>None\<close> is a call that fails.
\<close>

record ec_key =
  ec_nid :: nat
  ec_bytes :: nat
  ec_point :: bytes

record openssl =
  ssl_hmac :: "bytes \<Rightarrow> bytes \<Rightarrow> bytes"
  ssl_gcm_seal :: "bytes \<Rightarrow> bytes \<Rightarrow> bytes \<Rightarrow> bytes \<Rightarrow> nat \<Rightarrow> (bytes \<times> bytes) option"
  ssl_gcm_open :: "bytes \<Rightarrow> bytes \<Rightarrow> bytes \<Rightarrow> bytes \<Rightarrow> bytes \<Rightarrow> bytes option"
  ssl_cbc :: "bool \<Rightarrow> bytes \<Rightarrow> bytes \<Rightarrow> bytes \<Rightarrow> bytes"
  ssl_x509_ec :: "bytes \<Rightarrow> ec_key option"
  ssl_x509_verify :: "bytes \<Rightarrow> bytes \<Rightarrow> bool"
  ssl_ecdsa :: "ec_key \<Rightarrow> bytes \<Rightarrow> bytes \<Rightarrow> bytes \<Rightarrow> bool"

abbreviation INT_MAX :: u64 where "INT_MAX \<equiv> 0x7FFFFFFF"

section \<open>Hashes\<close>

text \<open>A pointer argument is an option, the memory behind it a byte list.\<close>

definition Sha256HashAll :: "bytes option \<Rightarrow> u64 \<Rightarrow> bool \<Rightarrow> bytes option" where
  "Sha256HashAll data sz hash_given =
     (if \<not> hash_given then None
      else if data = None \<and> sz \<noteq> 0 then None
      else fst (SHA256_Final (SHA256_Update SHA256_Init (case data of None \<Rightarrow> [] | Some d \<Rightarrow> take (unat sz) d) sz)))"

definition SBC_HashCompute :: "bytes option \<Rightarrow> u64 \<Rightarrow> bytes option \<Rightarrow> SBCStatus \<times> bytes option" where
  "SBC_HashCompute message msglen digest =
     (if message = None then (SBCNULLP, digest)
      else if digest = None then (SBCNULLP, digest)
      else if \<not> 0 < msglen then (SBCZEROL, digest)
      else case Sha256HashAll message msglen (digest \<noteq> None) of
        None \<Rightarrow> (SBCFAIL, digest)
      | Some h \<Rightarrow> (SBCOK, Some h))"

text \<open>An HMAC context is the key and the data so far.\<close>

definition HmacSha256SetKey :: "(bytes \<times> bytes) option \<Rightarrow> bytes \<Rightarrow> u64 \<Rightarrow> (bytes \<times> bytes) option" where
  "HmacSha256SetKey ctx key keysz =
     (if ctx = None \<or> INT_MAX < keysz then None else Some (take (unat keysz) key, []))"

definition HmacSha256Update :: "(bytes \<times> bytes) option \<Rightarrow> bytes option \<Rightarrow> u64 \<Rightarrow> (bytes \<times> bytes) option" where
  "HmacSha256Update ctx data sz = (case ctx of None \<Rightarrow> None
     | Some (k, d) \<Rightarrow> (case data of
         None \<Rightarrow> if sz \<noteq> 0 then None else ctx
       | Some x \<Rightarrow> Some (k, d @ take (unat sz) x)))"

definition HmacSha256Final :: "openssl \<Rightarrow> (bytes \<times> bytes) option \<Rightarrow> bool \<Rightarrow> bytes option" where
  "HmacSha256Final ssl ctx out_given = (case ctx of None \<Rightarrow> None
     | Some (k, d) \<Rightarrow> if out_given then Some (ssl_hmac ssl k d) else None)"

definition SBC_HmacCompute ::
  "openssl \<Rightarrow> (bytes \<times> bytes) option \<Rightarrow> bytes option \<Rightarrow> u64 \<Rightarrow> bytes option \<Rightarrow> u64 \<Rightarrow> bytes option \<Rightarrow> SBCStatus \<times> bytes option" where
  "SBC_HmacCompute ssl handle mackey keysz msg msglen hmacvalue =
     (if \<not> handle = None then (SBCNULLP, hmacvalue)
      else if \<not> mackey = None then (SBCNULLP, hmacvalue)
      else if \<not> (msg = None \<or> hmacvalue = None) then (SBCNULLP, hmacvalue)
      else if \<not> (msglen \<le> 0 \<or> keysz \<le> 0) then (SBCZEROL, hmacvalue)
      else case HmacSha256SetKey handle (case mackey of None \<Rightarrow> [] | Some k \<Rightarrow> k) keysz of
        None \<Rightarrow> (SBCFAIL, hmacvalue)
      | Some c1 \<Rightarrow> (case HmacSha256Update (Some c1) msg msglen of
          None \<Rightarrow> (SBCFAIL, hmacvalue)
        | Some c2 \<Rightarrow> (case HmacSha256Final ssl (Some c2) (hmacvalue \<noteq> None) of
            None \<Rightarrow> (SBCFAIL, hmacvalue)
          | Some v \<Rightarrow> (SBCOK, Some v))))"

section \<open>AES-GCM\<close>

definition gcm_args_ok :: "u64 \<Rightarrow> u64 \<Rightarrow> u64 \<Rightarrow> u64 \<Rightarrow> u64 \<Rightarrow> u64 option \<Rightarrow> bool" where
  "gcm_args_ok keysz ivsz aadsz insz tagsz outsz \<longleftrightarrow>
     \<not> INT_MAX < insz \<and> \<not> INT_MAX < aadsz \<and> ivsz = 12 \<and> (keysz = 16 \<or> keysz = 24 \<or> keysz = 32)
     \<and> (tagsz = 12 \<or> tagsz = 13 \<or> tagsz = 14 \<or> tagsz = 15 \<or> tagsz = 16)
     \<and> (case outsz of None \<Rightarrow> True | Some n \<Rightarrow> \<not> (INT_MAX < n \<or> n < insz))"

definition AeadAesGcmEncrypt ::
  "openssl \<Rightarrow> bytes \<Rightarrow> u64 \<Rightarrow> bytes \<Rightarrow> u64 \<Rightarrow> bytes \<Rightarrow> u64 \<Rightarrow> bytes \<Rightarrow> u64 \<Rightarrow> u64 \<Rightarrow> u64 option
    \<Rightarrow> (bytes \<times> bytes \<times> u64 option) option" where
  "AeadAesGcmEncrypt ssl key keysz iv ivsz aad aadsz din insz tagsz outsz =
     (if \<not> gcm_args_ok keysz ivsz aadsz insz tagsz outsz then None
      else case ssl_gcm_seal ssl (take (unat keysz) key) (take (unat ivsz) iv) (take (unat aadsz) aad)
                 (take (unat insz) din) (unat tagsz) of
        None \<Rightarrow> None
      | Some (ct, tag) \<Rightarrow> Some (tag, ct, map_option (\<lambda>_. insz) outsz))"

definition AeadAesGcmDecrypt ::
  "openssl \<Rightarrow> bytes \<Rightarrow> u64 \<Rightarrow> bytes \<Rightarrow> u64 \<Rightarrow> bytes \<Rightarrow> u64 \<Rightarrow> bytes \<Rightarrow> u64 \<Rightarrow> bytes \<Rightarrow> u64 \<Rightarrow> u64 option
    \<Rightarrow> (bytes \<times> u64 option) option" where
  "AeadAesGcmDecrypt ssl key keysz iv ivsz aad aadsz din insz tag tagsz outsz =
     (if \<not> gcm_args_ok keysz ivsz aadsz insz tagsz outsz then None
      else case ssl_gcm_open ssl (take (unat keysz) key) (take (unat ivsz) iv) (take (unat aadsz) aad)
                 (take (unat insz) din) (take (unat tagsz) tag) of
        None \<Rightarrow> None
      | Some pt \<Rightarrow> Some (pt, map_option (\<lambda>_. insz) outsz))"

text \<open>The contexts of \<^verbatim>\<open>SBC_CryptAES.h\<close>: each field a length and the memory it points to.\<close>

record cipher_tlv =
  tlv_length :: u64
  tlv_value :: bytes

record SBC_AESGcmCtx =
  gcm_key :: cipher_tlv
  gcm_iv :: cipher_tlv
  gcm_aad :: cipher_tlv
  gcm_msg :: cipher_tlv
  gcm_tag :: cipher_tlv
  gcm_out :: cipher_tlv

datatype SBC_CipherAlgoMode =
  SBC_CIPHER_NONE | SBC_CIPHER_AES_ECB | SBC_CIPHER_AES_CBC | SBC_CIPHER_AES_CTR | SBC_CIPHER_AES_GCM | SBC_CIPHER_UNKNOWN

definition SBC_AESGcmSetContext :: "SBC_AESGcmCtx \<Rightarrow> bytes \<Rightarrow> bytes \<Rightarrow> bytes \<Rightarrow> SBC_AESGcmCtx" where
  "SBC_AESGcmSetContext gcm key iv tag = gcm\<lparr>
     gcm_key := \<lparr>tlv_length = 32, tlv_value = key\<rparr>, gcm_iv := \<lparr>tlv_length = 12, tlv_value = iv\<rparr>,
     gcm_aad := \<lparr>tlv_length = 0, tlv_value = []\<rparr>, gcm_tag := \<lparr>tlv_length = 16, tlv_value = tag\<rparr>\<rparr>"

definition SBC_AESGcmEncrypt :: "openssl \<Rightarrow> SBC_AESGcmCtx \<Rightarrow> SBCStatus \<times> SBC_AESGcmCtx" where
  "SBC_AESGcmEncrypt ssl gcm =
     (case AeadAesGcmEncrypt ssl (tlv_value (gcm_key gcm)) (tlv_length (gcm_key gcm))
             (tlv_value (gcm_iv gcm)) (tlv_length (gcm_iv gcm)) (tlv_value (gcm_aad gcm)) (tlv_length (gcm_aad gcm))
             (tlv_value (gcm_msg gcm)) (tlv_length (gcm_msg gcm)) (tlv_length (gcm_tag gcm))
             (Some (tlv_length (gcm_out gcm))) of
        None \<Rightarrow> (SBCENCFAIL, gcm)
      | Some (tag, ct, outl) \<Rightarrow> (SBCOK, gcm\<lparr>
          gcm_tag := (gcm_tag gcm)\<lparr>tlv_value := overlay 0 tag (tlv_value (gcm_tag gcm))\<rparr>,
          gcm_out := \<lparr>tlv_length = the outl, tlv_value = overlay 0 ct (tlv_value (gcm_out gcm))\<rparr>\<rparr>))"

definition SBC_AESGcmDecrypt :: "openssl \<Rightarrow> SBC_AESGcmCtx \<Rightarrow> SBCStatus \<times> SBC_AESGcmCtx" where
  "SBC_AESGcmDecrypt ssl gcm =
     (case AeadAesGcmDecrypt ssl (tlv_value (gcm_key gcm)) (tlv_length (gcm_key gcm))
             (tlv_value (gcm_iv gcm)) (tlv_length (gcm_iv gcm)) (tlv_value (gcm_aad gcm)) (tlv_length (gcm_aad gcm))
             (tlv_value (gcm_msg gcm)) (tlv_length (gcm_msg gcm)) (tlv_value (gcm_tag gcm)) (tlv_length (gcm_tag gcm))
             (Some (tlv_length (gcm_out gcm))) of
        None \<Rightarrow> (SBCENCFAIL, gcm)
      | Some (pt, outl) \<Rightarrow> (SBCOK, gcm\<lparr>
          gcm_out := \<lparr>tlv_length = the outl, tlv_value = overlay 0 pt (tlv_value (gcm_out gcm))\<rparr>\<rparr>))"

section \<open>AES-CBC\<close>

definition AesCbc :: "openssl \<Rightarrow> bool \<Rightarrow> bytes option \<Rightarrow> bytes option \<Rightarrow> u64 \<Rightarrow> bytes option \<Rightarrow> bool \<Rightarrow> bytes option" where
  "AesCbc ssl enc aeskey input insz ivec out_given =
     (case (aeskey, input, ivec) of
        (Some k, Some x, Some iv) \<Rightarrow>
          if insz mod 16 \<noteq> 0 \<or> \<not> out_given \<or> INT_MAX < insz then None
          else Some (ssl_cbc ssl enc k (take 16 iv) (take (unat insz) x))
      | _ \<Rightarrow> None)"

record SBC_AESContext =
  aes_handle :: "bytes option"
  aes_iv :: "bytes option"
  aes_in :: cipher_tlv
  aes_out :: cipher_tlv
  algoid :: SBC_CipherAlgoMode
  gcm :: SBC_AESGcmCtx

definition SBC_AES_CBCEncrypt :: "openssl \<Rightarrow> SBC_AESContext \<Rightarrow> SBCStatus \<times> SBC_AESContext" where
  "SBC_AES_CBCEncrypt ssl ctx =
     (case AesCbc ssl True (aes_handle ctx) (Some (tlv_value (aes_in ctx))) (tlv_length (aes_in ctx)) (aes_iv ctx) True of
        None \<Rightarrow> (SBCENCFAIL, ctx)
      | Some out \<Rightarrow> (SBCOK, ctx\<lparr>aes_out := \<lparr>tlv_length = tlv_length (aes_in ctx),
          tlv_value = overlay 0 out (tlv_value (aes_out ctx))\<rparr>\<rparr>))"

definition SBC_AES_CBCDecrypt :: "openssl \<Rightarrow> SBC_AESContext \<Rightarrow> SBCStatus \<times> SBC_AESContext" where
  "SBC_AES_CBCDecrypt ssl ctx =
     (case AesCbc ssl False (aes_handle ctx) (Some (tlv_value (aes_in ctx))) (tlv_length (aes_in ctx)) (aes_iv ctx) True of
        None \<Rightarrow> (SBCFAIL, ctx)
      | Some out \<Rightarrow> (SBCOK, ctx\<lparr>aes_out := \<lparr>tlv_length = tlv_length (aes_in ctx),
          tlv_value = overlay 0 out (tlv_value (aes_out ctx))\<rparr>\<rparr>))"

definition SBC_AESEncrypt :: "openssl \<Rightarrow> SBC_AESContext \<Rightarrow> SBCStatus \<times> SBC_AESContext" where
  "SBC_AESEncrypt ssl ctx = (case algoid ctx of
       SBC_CIPHER_AES_CBC \<Rightarrow> SBC_AES_CBCEncrypt ssl ctx
     | SBC_CIPHER_AES_GCM \<Rightarrow> (case SBC_AESGcmEncrypt ssl (gcm ctx) of (ret, g) \<Rightarrow> (ret, ctx\<lparr>gcm := g\<rparr>))
     | _ \<Rightarrow> (SBCINVPARAM, ctx))"

definition SBC_AESDecrypt :: "openssl \<Rightarrow> SBC_AESContext \<Rightarrow> SBCStatus \<times> SBC_AESContext" where
  "SBC_AESDecrypt ssl ctx = (case algoid ctx of
       SBC_CIPHER_AES_CBC \<Rightarrow> SBC_AES_CBCDecrypt ssl ctx
     | SBC_CIPHER_AES_GCM \<Rightarrow> (case SBC_AESGcmDecrypt ssl (gcm ctx) of (ret, g) \<Rightarrow> (ret, ctx\<lparr>gcm := g\<rparr>))
     | _ \<Rightarrow> (SBCINVPARAM, ctx))"

section \<open>Certificates and signatures\<close>

definition EcGetPublicKeyFromX509 :: "openssl \<Rightarrow> bytes \<Rightarrow> u64 \<Rightarrow> ec_key option" where
  "EcGetPublicKeyFromX509 ssl cert sz =
     (if INT_MAX < sz then None else ssl_x509_ec ssl (take (unat sz) cert))"

definition X509VerifyCert :: "openssl \<Rightarrow> bytes option \<Rightarrow> u64 \<Rightarrow> bytes option \<Rightarrow> u64 \<Rightarrow> bool" where
  "X509VerifyCert ssl cert sz cacert casize = (case (cert, cacert) of
       (Some c, Some ca) \<Rightarrow> \<not> INT_MAX < sz \<and> \<not> INT_MAX < casize
          \<and> ssl_x509_verify ssl (take (unat sz) c) (take (unat casize) ca)
     | _ \<Rightarrow> False)"

definition SBC_X509VerifyCert :: "openssl \<Rightarrow> bytes option \<Rightarrow> u64 \<Rightarrow> bytes option \<Rightarrow> u64 \<Rightarrow> SBCStatus" where
  "SBC_X509VerifyCert ssl cert certl cacert cacertl =
     (if \<not> (cert \<noteq> None \<or> cacert \<noteq> None) then SBCNULLP
      else if \<not> (0 < certl \<or> 0 < cacertl) then SBCZEROL
      else if \<not> X509VerifyCert ssl cert certl cacert cacertl then SBCNULLP
      else SBCOK)"

definition SBC_EcGetPublicKeyFromPem :: "openssl \<Rightarrow> bytes option \<Rightarrow> u64 \<Rightarrow> SBCStatus \<times> ec_key option" where
  "SBC_EcGetPublicKeyFromPem ssl der derl = (case der of
       None \<Rightarrow> (SBCNULLP, None)
     | Some d \<Rightarrow> if \<not> 0 < derl then (SBCZEROL, None)
         else case EcGetPublicKeyFromX509 ssl d derl of
           None \<Rightarrow> (SBCFAIL, None)
         | Some k \<Rightarrow> (SBCOK, Some k))"

text \<open>The four curves of \<^verbatim>\<open>EcDsaVerify\<close> by their OpenSSL numbers, with the bytes of half a signature.\<close>

definition ec_half_size :: "nat \<Rightarrow> nat option" where
  "ec_half_size nid = (if nid = 415 then Some 32 else if nid = 715 then Some 48
     else if nid = 716 then Some 66 else if nid = 933 then Some 64 else None)"

text \<open>The call of the package always asks for SHA-256, \<^verbatim>\<open>CRYPTO_NID_SHA256\<close>.\<close>

definition EcDsaVerify :: "openssl \<Rightarrow> ec_key \<Rightarrow> bytes \<Rightarrow> nat \<Rightarrow> bytes \<Rightarrow> u64 \<Rightarrow> bool" where
  "EcDsaVerify ssl key hash hashsz sig sigsz =
     (if INT_MAX < sigsz \<or> sigsz = 0 then False
      else case ec_half_size (ec_nid key) of None \<Rightarrow> False
      | Some half \<Rightarrow>
        if unat sigsz \<noteq> half * 2 then False
        else if hashsz \<noteq> 32 then False
        else ssl_ecdsa ssl key (take hashsz hash) (take half sig) (take half (drop half sig)))"

text \<open>\<open>ec_bytes\<close> is the degree of the group in bytes.\<close>

definition EcGetPubKey :: "ec_key \<Rightarrow> bool \<Rightarrow> u64 \<Rightarrow> bytes option \<times> u64" where
  "EcGetPubKey key buf_given sz =
     (if \<not> buf_given \<and> sz \<noteq> 0 then (None, sz)
      else if unat sz < ec_bytes key * 2 then (None, word_of_nat (ec_bytes key * 2))
      else (Some (ec_point key), word_of_nat (ec_bytes key * 2)))"

section \<open>Facts about the wrappers\<close>

lemma HashCompute_ok [simp]:
  "0 < n \<Longrightarrow> unat n \<le> length d \<Longrightarrow> SBC_HashCompute (Some d) n (Some out) = (SBCOK, Some (sha256 (take (unat n) d)))"
  by (simp add: SBC_HashCompute_def Sha256HashAll_def one_update)

lemma HashCompute_zero [simp]: "SBC_HashCompute (Some d) 0 (Some out) = (SBCZEROL, Some out)"
  by (simp add: SBC_HashCompute_def)

lemma HmacCompute_never_ok: "fst (SBC_HmacCompute ssl handle mackey keysz msg msglen hmacvalue) \<noteq> SBCOK"
  by (cases handle) (auto simp: SBC_HmacCompute_def HmacSha256SetKey_def)

lemma HashCompute_length: "SBC_HashCompute d n out = (SBCOK, h) \<Longrightarrow> \<exists>x. h = Some x \<and> length x = 32"
proof -
  assume "SBC_HashCompute d n out = (SBCOK, h)"
  moreover have "shaped 32 SHA256_Init" by (simp add: shaped_def SHA256_Init_def)
  then have "\<exists>h. fst (SHA256_Final (SHA256_Update SHA256_Init b n)) = Some h \<and> length h = 32" for b
    by (intro shaped_Final shaped_Update)
  ultimately show ?thesis
    by (fastforce simp: SBC_HashCompute_def Sha256HashAll_def split: option.splits if_splits)
qed

end
