(* ===== verification/Sbc_BaseAnswer.thy ===== *)
theory Sbc_BaseAnswer
  imports Sbc_RawPrt Sbc_Crypt
begin

text \<open>
  The base answer of \<^verbatim>\<open>SBC_AntiTampering.c\<close>: a secret that is kept encrypted in the
  reference slot of the system settings area.  It is stored as length,
  ciphertext, initial vector and tag, and read back, decrypted and compared at
  boot.
\<close>

unbundle bit_operations_syntax

section \<open>The record and its place\<close>

record base_ansid =
  msglen :: u32
  encmsg :: bytes
  anskey :: bytes
  ansiv :: bytes
  anstag :: bytes

abbreviation BASE_ANS_MAX_LEN :: nat where "BASE_ANS_MAX_LEN \<equiv> 256"
abbreviation BASE_ANS_KEY_STR :: nat where "BASE_ANS_KEY_STR \<equiv> 32"
abbreviation BASE_ANS_IV_KEY_STR :: nat where "BASE_ANS_IV_KEY_STR \<equiv> 12"
abbreviation BASE_ANS_TAG_LEN :: nat where "BASE_ANS_TAG_LEN \<equiv> 16"
abbreviation BASE_ANS_STREAM_LEN :: nat where "BASE_ANS_STREAM_LEN \<equiv> 512"

definition zero_ansid :: base_ansid where
  "zero_ansid = \<lparr>msglen = 0, encmsg = zeros BASE_ANS_MAX_LEN, anskey = zeros BASE_ANS_KEY_STR,
     ansiv = zeros BASE_ANS_IV_KEY_STR, anstag = zeros BASE_ANS_TAG_LEN\<rparr>"

definition ansid_wf :: "base_ansid \<Rightarrow> bool" where
  "ansid_wf a \<longleftrightarrow> length (encmsg a) = BASE_ANS_MAX_LEN \<and> length (anskey a) = BASE_ANS_KEY_STR
     \<and> length (ansiv a) = BASE_ANS_IV_KEY_STR \<and> length (anstag a) = BASE_ANS_TAG_LEN"

definition sys_conf_lba :: u64 where
  "sys_conf_lba = drop_bit SBC_RAWPRT_DFLT_SHIFT SYS_CONF_START_OFS"

section \<open>Store and extract\<close>

text \<open>The bytes put one after the other at the reference offset, the last sixteen reserved.\<close>

definition ansid_slot :: "base_ansid \<Rightarrow> bytes" where
  "ansid_slot h = le32 (msglen h) @ take (unat (msglen h)) (encmsg h) @ ansiv h @ anstag h @ zeros 16"

text \<open>
  The early exits go through \<^verbatim>\<open>if (loadbuf != NULL) FreePool(loadbuf)\<close> before
  \<open>loadbuf\<close> has a value.
\<close>

definition baseanswer_store :: "blkhandle \<Rightarrow> base_ansid option \<Rightarrow> SBCStatus io" where
  "baseanswer_store blkio p = (case p of None \<Rightarrow> fail WildPointer
     | Some h \<Rightarrow> (case blkio of None \<Rightarrow> fail WildPointer
     | Some i \<Rightarrow> (\<lambda>m. case blkdev m i of None \<Rightarrow> Faulted NullDeref m
       | Some dev \<Rightarrow>
         let ldlen = ALIGN_VALUE SYS_SETTING_STORAGE_LEN (BlockSize dev) in
         if \<not> pool_ok m (unat ldlen) then Done SBCNULLP m
         else andthen (SBC_RawPrtReadBlock blkio (Some (zeros (unat ldlen))) (Some ldlen) sys_conf_lba)
           (\<lambda>(ret, loadbuf).
             if ret \<noteq> SBCOK then retn ret
             else if BASE_ANS_MAX_LEN < unat (msglen h)
               \<or> length loadbuf < SYS_CONF_RES_OFS + length (ansid_slot h) then fail OutOfBounds
             else SBC_RawPrtBlockWrite blkio (Some (overlay SYS_CONF_RES_OFS (ansid_slot h) loadbuf))
                    ldlen (ucast sys_conf_lba)) m)))"

text \<open>
  The length is taken from the medium.  The copy of that many bytes into \<open>encmsg\<close>
  has no bound of its own.
\<close>

definition baseanswer_extract_from_disk :: "blkhandle \<Rightarrow> base_ansid option \<Rightarrow> (SBCStatus \<times> base_ansid option) io" where
  "baseanswer_extract_from_disk blkio p = (case p of None \<Rightarrow> retn (SBCNULLP, p)
     | Some a \<Rightarrow> (case blkio of None \<Rightarrow> fail NullDeref
     | Some i \<Rightarrow> (\<lambda>m. case blkdev m i of None \<Rightarrow> Faulted NullDeref m
       | Some dev \<Rightarrow>
         let ldlen = ALIGN_VALUE SYS_SETTING_STORAGE_LEN (BlockSize dev) in
         if \<not> pool_ok m (unat ldlen) then Done (SBCNULLP, p) m
         else andthen (SBC_RawPrtReadBlock blkio (Some (zeros (unat ldlen))) (Some ldlen) sys_conf_lba)
           (\<lambda>(ret, loadbuf).
             if ret \<noteq> SBCOK then retn (ret, p)
             else let len = rd32 (slice SYS_CONF_RES_OFS 4 loadbuf); n = unat len; a1 = a\<lparr>msglen := len\<rparr> in
               if \<not> 0 < len then retn (SBCBSANSWNOTFND, Some a1)
               else if length (encmsg a) < n \<or> length loadbuf < SYS_CONF_RES_OFS + 4 + n + 28 then fail OutOfBounds
               else retn (SBCOK, Some (a1\<lparr>
                 encmsg := overlay 0 (slice (SYS_CONF_RES_OFS + 4) n loadbuf) (encmsg a),
                 ansiv := slice (SYS_CONF_RES_OFS + 4 + n) BASE_ANS_IV_KEY_STR loadbuf,
                 anstag := slice (SYS_CONF_RES_OFS + 4 + n + BASE_ANS_IV_KEY_STR) BASE_ANS_TAG_LEN loadbuf\<rparr>))) m)))"

section \<open>Encrypt and validate\<close>

definition RandomBytes :: "nat \<Rightarrow> bytes option io" where
  "RandomBytes n m = Done (rng m (rng_calls m) n) (m\<lparr>rng_calls := Suc (rng_calls m)\<rparr>)"

text \<open>
  The result of the random number generator is not looked at; the vector is zero
  when it fails.  At its end the function frees the message of its caller, who does not
  use it again.
\<close>

definition SBC_BaseAnswerEncryptStore ::
  "openssl \<Rightarrow> blkhandle \<Rightarrow> bytes option \<Rightarrow> u32 \<Rightarrow> bytes \<Rightarrow> SBCStatus io" where
  "SBC_BaseAnswerEncryptStore ssl blkhnd msg msgl key =
     andthen (RandomBytes BASE_ANS_IV_KEY_STR) (\<lambda>r.
       let iv = (case r of None \<Rightarrow> zeros BASE_ANS_IV_KEY_STR | Some b \<Rightarrow> b);
           ansid = zero_ansid\<lparr>anskey := take BASE_ANS_KEY_STR key, ansiv := iv\<rparr> in
       case msg of None \<Rightarrow> fail NullDeref
       | Some d \<Rightarrow>
         let ctx = \<lparr>gcm_key = \<lparr>tlv_length = 32, tlv_value = anskey ansid\<rparr>,
                    gcm_iv = \<lparr>tlv_length = 12, tlv_value = ansiv ansid\<rparr>,
                    gcm_aad = \<lparr>tlv_length = 0, tlv_value = []\<rparr>,
                    gcm_msg = \<lparr>tlv_length = ucast msgl, tlv_value = d\<rparr>,
                    gcm_tag = \<lparr>tlv_length = 16, tlv_value = anstag ansid\<rparr>,
                    gcm_out = \<lparr>tlv_length = 256, tlv_value = encmsg ansid\<rparr>\<rparr>;
             aesctx = \<lparr>aes_handle = None, aes_iv = None, aes_in = \<lparr>tlv_length = 0, tlv_value = []\<rparr>,
                    aes_out = \<lparr>tlv_length = 0, tlv_value = []\<rparr>, algoid = SBC_CIPHER_AES_GCM, gcm = ctx\<rparr> in
         (case SBC_AESEncrypt ssl aesctx of (ret, aesctx') \<Rightarrow>
           if ret \<noteq> SBCOK then retn ret
           else baseanswer_store blkhnd (Some (ansid\<lparr>msglen := ucast (tlv_length (gcm_out (gcm aesctx'))),
                  encmsg := tlv_value (gcm_out (gcm aesctx')), anstag := tlv_value (gcm_tag (gcm aesctx'))\<rparr>))))"

definition SBC_BaseAnswerValidate ::
  "openssl \<Rightarrow> blkhandle \<Rightarrow> bytes option \<Rightarrow> u64 \<Rightarrow> bytes \<Rightarrow> SBCStatus io" where
  "SBC_BaseAnswerValidate ssl blkhnd answer answerl key = (case answer of None \<Rightarrow> retn SBCNULLP
     | Some ans \<Rightarrow> andthen (baseanswer_extract_from_disk blkhnd (Some zero_ansid)) (\<lambda>(ret, r).
         case r of None \<Rightarrow> retn ret
         | Some ansid \<Rightarrow>
           if ret \<noteq> SBCOK then retn ret
           else let ctx = \<lparr>gcm_key = \<lparr>tlv_length = 32, tlv_value = key\<rparr>,
                    gcm_iv = \<lparr>tlv_length = 12, tlv_value = ansiv ansid\<rparr>,
                    gcm_aad = \<lparr>tlv_length = 0, tlv_value = []\<rparr>,
                    gcm_msg = \<lparr>tlv_length = ucast (msglen ansid), tlv_value = encmsg ansid\<rparr>,
                    gcm_tag = \<lparr>tlv_length = 16, tlv_value = anstag ansid\<rparr>,
                    gcm_out = \<lparr>tlv_length = 512, tlv_value = zeros BASE_ANS_STREAM_LEN\<rparr>\<rparr> in
             (case SBC_AESGcmDecrypt ssl ctx of (ret', ctx') \<Rightarrow>
               if ret' \<noteq> SBCOK then retn SBCFAIL
               else if BASE_ANS_STREAM_LEN < unat answerl \<or> length ans < unat answerl then fail OutOfBounds
               else if take (unat answerl) (tlv_value (gcm_out ctx')) \<noteq> take (unat answerl) ans then retn SBCFAIL
               else retn SBCOK)))"

section \<open>Behaviour on a sound device\<close>


abbreviation SYS_CONF_ADDR :: nat where "SYS_CONF_ADDR \<equiv> 0x18000200"

lemma sys_conf_lba_eq: "sys_conf_lba = 0xC0001"
  by (simp add: sys_conf_lba_def)

lemma setting_len: "ALIGN_VALUE SYS_SETTING_STORAGE_LEN 512 = 16896"
  by (simp add: ALIGN_VALUE_def)

lemma dev_put_overlay:
  assumes "ofs + length s \<le> n"
  shows "dev_put dev a (overlay ofs s (dev_bytes dev a n)) = dev_put dev (a + ofs) s"
proof -
  have "media (dev_put dev a (overlay ofs s (dev_bytes dev a n))) x = media (dev_put dev (a + ofs) s) x" for x
    using assms overlay_nth [of ofs s "dev_bytes dev a n" "x - a"]
    by (auto simp: dev_put_def dev_bytes_def length_overlay)
  then show ?thesis by (auto simp: dev_put_def intro!: nvme_device.equality)
qed

text \<open>The settings area can be read and written on this device.\<close>

definition settings_ok :: "machine \<Rightarrow> nat \<Rightarrow> nvme_device \<Rightarrow> bool" where
  "settings_ok m i dev \<longleftrightarrow> blkdev m i = Some dev \<and> servable dev 0xC0001 16896 \<and> pool_ok m 16896"

lemma settings_okD:
  assumes "settings_ok m i dev"
  shows "blkdev m i = Some dev" "servable dev 0xC0001 16896" "pool_ok m 16896" "BlockSize dev = 512"
  using assms by (auto simp: settings_ok_def servable_def)

lemma length_ansid_slot [buf_simps]:
  "ansid_wf a \<Longrightarrow> unat (msglen a) \<le> BASE_ANS_MAX_LEN \<Longrightarrow> length (ansid_slot a) = 48 + unat (msglen a)"
  by (simp add: ansid_slot_def ansid_wf_def)

lemma settings_read:
  assumes "settings_ok m i dev"
  shows "SBC_RawPrtReadBlock (Some i) (Some (zeros 16896)) (Some 16896) sys_conf_lba m
    = Done (SBCOK, dev_bytes dev SYS_CONF_ADDR 16896) m"
  using RawPrtReadBlock_sound [of m i dev sys_conf_lba 16896 "zeros 16896"] settings_okD [OF assms]
  by (simp add: sys_conf_lba_eq)

lemma settings_write:
  assumes "settings_ok m i dev" "length buf = 16896"
  shows "SBC_RawPrtBlockWrite (Some i) (Some buf) 16896 (ucast sys_conf_lba) m
    = Done SBCOK (put_blkdev i (dev_put dev SYS_CONF_ADDR buf) m)"
  using RawPrtBlockWrite_sound [where m = m and i = i and dev = dev and lba = "0xC0001" and len = 16896 and buf = buf] settings_okD [OF assms(1)] assms(2)
  by (simp add: sys_conf_lba_eq)

lemma settings_ok_put [simp]:
  "settings_ok m i dev \<Longrightarrow> settings_ok (put_blkdev i (dev_put dev a bs) m) i (dev_put dev a bs)"
  by (simp add: settings_ok_def)

lemma baseanswer_store_sound:
  assumes "settings_ok m i dev" "ansid_wf a" "unat (msglen a) \<le> BASE_ANS_MAX_LEN"
  shows "baseanswer_store (Some i) (Some a) m =
    Done SBCOK (put_blkdev i (dev_put dev (SYS_CONF_ADDR + SYS_CONF_RES_OFS) (ansid_slot a)) m)"
proof -
  let ?buf = "dev_bytes dev SYS_CONF_ADDR 16896"
  have len: "length (ansid_slot a) = 48 + unat (msglen a)" using assms(2,3) by (rule length_ansid_slot)
  then have fits: "SYS_CONF_RES_OFS + length (ansid_slot a) \<le> 16896" using assms(3) by simp
  then have "length (overlay SYS_CONF_RES_OFS (ansid_slot a) ?buf) = 16896" by (simp add: length_overlay)
  from settings_write [OF assms(1) this]
  have wr: "SBC_RawPrtBlockWrite (Some i) (Some (overlay SYS_CONF_RES_OFS (ansid_slot a) ?buf)) 16896 (ucast sys_conf_lba) m
      = Done SBCOK (put_blkdev i (dev_put dev (SYS_CONF_ADDR + SYS_CONF_RES_OFS) (ansid_slot a)) m)"
    using dev_put_overlay [OF fits, of dev SYS_CONF_ADDR] by simp
  show ?thesis
    using settings_okD [OF assms(1)] settings_read [OF assms(1)] wr fits assms(3)
    by (simp add: baseanswer_store_def setting_len andthen_Done)
qed

lemma baseanswer_extract_sound:
  assumes "settings_ok m i dev" "length (encmsg z) = BASE_ANS_MAX_LEN"
  shows "baseanswer_extract_from_disk (Some i) (Some z) m =
    (let slot = SYS_CONF_ADDR + SYS_CONF_RES_OFS; len = rd32 (dev_bytes dev slot 4); n = unat len in
     if len = 0 then Done (SBCBSANSWNOTFND, Some (z\<lparr>msglen := 0\<rparr>)) m
     else if BASE_ANS_MAX_LEN < n then Faulted OutOfBounds m
     else Done (SBCOK, Some (z\<lparr>msglen := len, encmsg := overlay 0 (dev_bytes dev (slot + 4) n) (encmsg z),
       ansiv := dev_bytes dev (slot + 4 + n) BASE_ANS_IV_KEY_STR,
       anstag := dev_bytes dev (slot + 4 + n + BASE_ANS_IV_KEY_STR) BASE_ANS_TAG_LEN\<rparr>)) m)"
  using settings_okD [OF assms(1)] settings_read [OF assms(1)] assms(2)
  by (auto simp: baseanswer_extract_from_disk_def setting_len andthen_Done slice_dev_bytes Let_def
      word_neq_0_conv)

section \<open>Round trip through the medium\<close>

lemma slot_bytes:
  fixes dev :: nvme_device and x :: nat
  assumes "ansid_wf a" "unat (msglen a) \<le> BASE_ANS_MAX_LEN"
  defines "dev' \<equiv> dev_put dev x (ansid_slot a)" and "n \<equiv> unat (msglen a)"
  shows "dev_bytes dev' x 4 = le32 (msglen a)" "dev_bytes dev' (x + 4) n = take n (encmsg a)"
    "dev_bytes dev' (x + 4 + n) BASE_ANS_IV_KEY_STR = ansiv a"
    "dev_bytes dev' (x + 4 + n + BASE_ANS_IV_KEY_STR) BASE_ANS_TAG_LEN = anstag a"
proof -
  have len: "length (ansid_slot a) = 48 + n" using assms by (simp add: length_ansid_slot)
  note part = nvme.load_part [of _ _ "ansid_slot a" dev x, folded dev'_def, unfolded len]
  have wf: "length (take n (encmsg a)) = n" "length (ansiv a) = BASE_ANS_IV_KEY_STR" "length (anstag a) = BASE_ANS_TAG_LEN"
    using assms by (auto simp: ansid_wf_def)
  show "dev_bytes dev' x 4 = le32 (msglen a)"
    using part [of 0 4] by (simp add: ansid_slot_def slice_def)
  show "dev_bytes dev' (x + 4) n = take n (encmsg a)"
    using part [of 4 n] wf by (simp add: ansid_slot_def slice_def n_def)
  show "dev_bytes dev' (x + 4 + n) BASE_ANS_IV_KEY_STR = ansiv a"
    using part [of "4 + n" 12] wf by (simp add: ansid_slot_def slice_def n_def add.assoc)
  show "dev_bytes dev' (x + 4 + n + BASE_ANS_IV_KEY_STR) BASE_ANS_TAG_LEN = anstag a"
    using part [of "4 + n + 12" 16] wf by (simp add: ansid_slot_def slice_def n_def add.assoc)
qed

lemma extract_after_store:
  assumes "settings_ok m i dev" "ansid_wf a" "0 < msglen a" "unat (msglen a) \<le> BASE_ANS_MAX_LEN"
    "length (encmsg z) = BASE_ANS_MAX_LEN"
  defines "dev' \<equiv> dev_put dev (SYS_CONF_ADDR + SYS_CONF_RES_OFS) (ansid_slot a)"
  shows "baseanswer_extract_from_disk (Some i) (Some z) (put_blkdev i dev' m) =
    Done (SBCOK, Some (z\<lparr>msglen := msglen a, encmsg := overlay 0 (take (unat (msglen a)) (encmsg a)) (encmsg z),
      ansiv := ansiv a, anstag := anstag a\<rparr>)) (put_blkdev i dev' m)"
proof -
  have ok: "settings_ok (put_blkdev i dev' m) i dev'" using assms(1) by (simp add: dev'_def)
  note sb = slot_bytes [OF assms(2,4), of dev "SYS_CONF_ADDR + SYS_CONF_RES_OFS", folded dev'_def]
  show ?thesis unfolding baseanswer_extract_sound [OF ok assms(5)] Let_def sb(1) rd32_le32
    using assms(3,4) by (simp only: sb) (simp add: word_neq_0_conv)
qed

section \<open>Encryption end to end\<close>

text \<open>
  What the package relies on of the cipher: with a 32-byte key and a 12-byte vector
  sealing succeeds, keeps the length, makes a tag of 16 bytes, and opening with the
  same inputs gives the message back.
\<close>

definition gcm_correct :: "openssl \<Rightarrow> bool" where
  "gcm_correct ssl \<longleftrightarrow> (\<forall>k iv pt. length k = 32 \<and> length iv = 12 \<longrightarrow>
     (\<exists>ct tag. ssl_gcm_seal ssl k iv [] pt 16 = Some (ct, tag) \<and> length ct = length pt \<and> length tag = 16
        \<and> ssl_gcm_open ssl k iv [] ct tag = Some pt))"

definition ans_machine :: "machine \<Rightarrow> machine" where
  "ans_machine m = m\<lparr>rng_calls := Suc (rng_calls m)\<rparr>"

lemma settings_ok_ans [simp]: "settings_ok (ans_machine m) i dev = settings_ok m i dev"
  by (simp add: settings_ok_def ans_machine_def blkdev_def)

lemma EncryptStore_sound:
  assumes "settings_ok m i dev" "length key = BASE_ANS_KEY_STR" "unat msgl \<le> BASE_ANS_MAX_LEN"
    and iv: "iv = (case rng m (rng_calls m) 12 of None \<Rightarrow> zeros 12 | Some b \<Rightarrow> b)" "length iv = 12"
    and seal: "ssl_gcm_seal ssl key iv [] (take (unat msgl) d) 16 = Some (ct, tag)"
      "length ct = unat msgl" "length tag = 16"
  defines "a \<equiv> \<lparr>msglen = msgl, encmsg = overlay 0 ct (zeros BASE_ANS_MAX_LEN), anskey = key, ansiv = iv, anstag = tag\<rparr>"
  shows "SBC_BaseAnswerEncryptStore ssl (Some i) (Some d) msgl key m = Done SBCOK
      (put_blkdev i (dev_put dev (SYS_CONF_ADDR + SYS_CONF_RES_OFS) (ansid_slot a)) (ans_machine m))"
    and "ansid_wf a"
proof -
  have le: "\<not> (256 :: u64) < ucast msgl" "\<not> INT_MAX < ucast msgl" using assms(3) by (simp_all add: word_less_nat_alt)
  have args: "gcm_args_ok 32 12 0 (ucast msgl) 16 (Some 256)" using le by (simp add: gcm_args_ok_def)
  have tk: "take 32 key = key" "take 12 iv = iv" using assms(2) iv(2) by simp_all
  have ov: "overlay 0 tag (zeros 16) = tag" using seal(3) by (simp add: overlay_def)
  have msg: "(ucast (ucast msgl :: u64) :: u32) = msgl"
    by (rule bit_word_eqI) (simp add: bit_simps)
  show wf: "ansid_wf a" using assms by (simp add: a_def ansid_wf_def length_overlay)
  have st: "baseanswer_store (Some i) (Some a) (ans_machine m) = Done SBCOK
      (put_blkdev i (dev_put dev (SYS_CONF_ADDR + SYS_CONF_RES_OFS) (ansid_slot a)) (ans_machine m))"
    using assms(1,3) wf by (intro baseanswer_store_sound) (simp_all add: a_def)
  show "SBC_BaseAnswerEncryptStore ssl (Some i) (Some d) msgl key m = Done SBCOK
      (put_blkdev i (dev_put dev (SYS_CONF_ADDR + SYS_CONF_RES_OFS) (ansid_slot a)) (ans_machine m))"
    using args seal tk ov msg st
    by (simp add: SBC_BaseAnswerEncryptStore_def andthen_def RandomBytes_def SBC_AESEncrypt_def SBC_AESGcmEncrypt_def
        AeadAesGcmEncrypt_def zero_ansid_def Let_def iv(1) [symmetric] a_def ans_machine_def)
qed

text \<open>The decision of the validation in terms of what is on the medium.\<close>

lemma Validate_sound:
  assumes "settings_ok m i dev" "length key = 32" "unat answerl \<le> BASE_ANS_STREAM_LEN" "unat answerl \<le> length ans"
  shows "SBC_BaseAnswerValidate ssl (Some i) (Some ans) answerl key m =
    (let slot = SYS_CONF_ADDR + SYS_CONF_RES_OFS; len = rd32 (dev_bytes dev slot 4); n = unat len in
     if len = 0 then Done SBCBSANSWNOTFND m
     else if BASE_ANS_MAX_LEN < n then Faulted OutOfBounds m
     else case ssl_gcm_open ssl key (dev_bytes dev (slot + 4 + n) 12) [] (dev_bytes dev (slot + 4) n)
                 (dev_bytes dev (slot + 4 + n + 12) 16) of
       None \<Rightarrow> Done SBCFAIL m
     | Some pt \<Rightarrow> if take (unat answerl) (overlay 0 pt (zeros BASE_ANS_STREAM_LEN)) = take (unat answerl) ans
         then Done SBCOK m else Done SBCFAIL m)"
proof -
  let ?len = "rd32 (dev_bytes dev (SYS_CONF_ADDR + SYS_CONF_RES_OFS) 4)"
  have args: "gcm_args_ok 32 12 0 (ucast ?len) 16 (Some 512)" if "unat ?len \<le> BASE_ANS_MAX_LEN"
    using that by (simp add: gcm_args_ok_def word_less_nat_alt)
  have z: "length (encmsg zero_ansid) = BASE_ANS_MAX_LEN" by (simp add: zero_ansid_def)
  have tk: "take n (overlay 0 (dev_bytes dev x n) b) = dev_bytes dev x n" for n x b
    by (simp add: overlay_def)
  show ?thesis
    using assms(2-4) args tk
    by (auto simp: SBC_BaseAnswerValidate_def andthen_def baseanswer_extract_sound [OF assms(1) z] Let_def
        SBC_AESGcmDecrypt_def AeadAesGcmDecrypt_def not_less split: option.splits)
qed

text \<open>
  A base answer sealed on the medium: the slot holds its length, and the sealed
  message, vector and tag open to it under the key.
\<close>

abbreviation ANS_SLOT :: nat where "ANS_SLOT \<equiv> SYS_CONF_ADDR + SYS_CONF_RES_OFS"

definition sealed :: "openssl \<Rightarrow> bytes \<Rightarrow> bytes \<Rightarrow> nvme_device \<Rightarrow> bool" where
  "sealed ssl key d dev \<longleftrightarrow> (let n = length d in n \<le> BASE_ANS_MAX_LEN \<and> rd32 (dev_bytes dev ANS_SLOT 4) = word_of_nat n \<and>
     ssl_gcm_open ssl key (dev_bytes dev (ANS_SLOT + 4 + n) 12) [] (dev_bytes dev (ANS_SLOT + 4) n)
       (dev_bytes dev (ANS_SLOT + 4 + n + 12) 16) = Some d)"

lemma EncryptStore_seals:
  assumes "settings_ok m i dev" "gcm_correct ssl" "length key = BASE_ANS_KEY_STR"
    "length d = unat msgl" "unat msgl \<le> BASE_ANS_MAX_LEN"
    "\<forall>b. rng m (rng_calls m) 12 = Some b \<longrightarrow> length b = 12"
  obtains bs where "length bs = 48 + length d" "sealed ssl key d (dev_put dev ANS_SLOT bs)"
    "SBC_BaseAnswerEncryptStore ssl (Some i) (Some d) msgl key m = Done SBCOK (put_blkdev i (dev_put dev ANS_SLOT bs) (ans_machine m))"
proof -
  define iv where "iv = (case rng m (rng_calls m) 12 of None \<Rightarrow> zeros 12 | Some b \<Rightarrow> b)"
  have iv: "length iv = 12" using assms(6) by (auto simp: iv_def split: option.splits)
  obtain ct tag where seal: "ssl_gcm_seal ssl key iv [] d 16 = Some (ct, tag)" "length ct = length d" "length tag = 16"
    and op: "ssl_gcm_open ssl key iv [] ct tag = Some d"
    using assms(2,3) iv unfolding gcm_correct_def by blast
  define a where "a = \<lparr>msglen = msgl, encmsg = overlay 0 ct (zeros BASE_ANS_MAX_LEN), anskey = key, ansiv = iv, anstag = tag\<rparr>"
  have wr: "SBC_BaseAnswerEncryptStore ssl (Some i) (Some d) msgl key m
      = Done SBCOK (put_blkdev i (dev_put dev ANS_SLOT (ansid_slot a)) (ans_machine m))" and wf: "ansid_wf a"
    using EncryptStore_sound [OF assms(1,3,5) iv_def iv, of ssl d ct tag] seal assms(4)
    by (simp_all add: a_def)
  have n: "unat (msglen a) = length d" "length d \<le> BASE_ANS_MAX_LEN" "msglen a = word_of_nat (length d)"
    using assms(4,5) by (simp_all add: a_def)
  have "take (length d) (encmsg a) = ct" using seal(2) by (simp add: a_def overlay_def)
  then have "sealed ssl key d (dev_put dev ANS_SLOT (ansid_slot a))"
    using slot_bytes [OF wf, of dev ANS_SLOT] n op by (simp add: sealed_def Let_def) (simp add: a_def)
  moreover have "length (ansid_slot a) = 48 + length d" using wf n by (simp add: length_ansid_slot)
  ultimately show ?thesis using wr that by blast
qed

lemma sealed_compares:
  assumes "settings_ok m i dev" "sealed ssl key d dev" "length key = BASE_ANS_KEY_STR" "d \<noteq> []"
    "unat l \<le> length d" "unat l \<le> length d'"
  shows "SBC_BaseAnswerValidate ssl (Some i) (Some d') l key m =
    Done (if take (unat l) d' = take (unat l) d then SBCOK else SBCFAIL) m"
proof -
  have n: "length d \<le> BASE_ANS_MAX_LEN" "unat (word_of_nat (length d) :: u32) = length d" "(word_of_nat (length d) :: u32) \<noteq> 0"
    using assms(2,4) by (simp_all add: sealed_def Let_def unat_of_nat flip: unat_eq_zero)
  then show ?thesis
    using Validate_sound [OF assms(1,3) _ assms(6), of ssl] assms(2,5)
    by (auto simp: sealed_def Let_def overlay_def)
qed

lemma sealed_validates:
  assumes "settings_ok m i dev" "sealed ssl key d dev" "length key = BASE_ANS_KEY_STR" "d \<noteq> []"
  shows "SBC_BaseAnswerValidate ssl (Some i) (Some d) (word_of_nat (length d)) key m = Done SBCOK m"
proof -
  have "unat (word_of_nat (length d) :: u64) = length d" using assms(2) by (simp add: sealed_def Let_def unat_of_nat)
  then show ?thesis using sealed_compares [OF assms, of "word_of_nat (length d)" d] by simp
qed

lemma sealed_put_below: "length bs \<le> ANS_SLOT \<Longrightarrow> sealed ssl key d (dev_put dev 0 bs) = sealed ssl key d dev"
  by (simp add: sealed_def Let_def dev_bytes_put_other)

end
