(* ===== verification/Fat_Names.thy ===== *)
theory Fat_Names
  imports Sbc_Machine
begin

text \<open>
  How a path finds its file: the walk of the FAT driver through the directories
  (\<^verbatim>\<open>FatLocateOFile\<close> of \<^verbatim>\<open>DirectoryManage.c\<close>), the names it accepts
  (\<^verbatim>\<open>FatFileNameIsValid\<close> of \<^verbatim>\<open>FileName.c\<close>), and the comparison of names without
  regard to case by the table of the English collation driver
  (\<^verbatim>\<open>UnicodeCollationEng.c\<close>).  Several paths can name one entry; the lemmas say
  which do, and what a change of one entry means for every path.  A path is the list
  of its components, none of them empty, from the root of the volume; directories
  are always readable.
\<close>

section \<open>Names\<close>

text \<open>The table of upper case letters; it covers the accented letters of Latin-1.\<close>

definition mEngUpperMap :: "char \<Rightarrow> char" where
  "mEngUpperMap c = (let n = (of_char c :: nat) in
     if (97 \<le> n \<and> n \<le> 122) \<or> (0xe0 \<le> n \<and> n \<le> 0xf6) \<or> (0xf8 \<le> n \<and> n \<le> 0xfe) then char_of (n - 0x20) else c)"

definition EngStrUpr :: "string \<Rightarrow> string" where
  "EngStrUpr s = map mEngUpperMap s"

text \<open>
  Leading blanks and trailing blanks and dots are cut off; \<open>None\<close> is a name with
  nothing left, with more than 255 characters or with a character that is not allowed.
\<close>

definition FatFileNameIsValid :: "string \<Rightarrow> string option" where
  "FatFileNameIsValid s =
     (let name = rev (dropWhile (\<lambda>c. c = CHR '' '' \<or> c = CHR ''.'') (rev (dropWhile (\<lambda>c. c = CHR '' '') s))) in
      if name = [] \<or> 255 < length name
        \<or> list_ex (\<lambda>c. (of_char c :: nat) < 0x20 \<or> c \<in> set [CHR 0x22, CHR ''*'', CHR ''/'', CHR '':'', CHR ''<'', CHR ''>'', CHR ''?'', CHR 0x5C, CHR ''|'']) name
      then None else Some name)"

section \<open>The walk\<close>

text \<open>
  The entry a name is found under in the directory \<open>d\<close>.  Long names agree when they
  differ in case only.  A name with a tilde may be the short name the driver made
  for an entry with a longer one; \<open>vol_short\<close> then has the name of that entry.
\<close>

definition FatSearchODir :: "volume \<Rightarrow> path \<Rightarrow> string \<Rightarrow> path" where
  "FatSearchODir v d name =
     (let u = EngStrUpr name in d @ [if CHR ''~'' \<in> set u then vol_short v d u else u])"

text \<open>The root is the entry with the empty path, and a directory.\<close>

definition node_at :: "volume \<Rightarrow> path \<Rightarrow> node option" where
  "node_at v k = (if k = [] then Some Directory else vol_files v k)"

text \<open>
  From the directory \<open>cur\<close> on.  The result is the entry, and whether it is there; only
  the last component may be missing.
\<close>

fun locate_loop :: "volume \<Rightarrow> path \<Rightarrow> path \<Rightarrow> efi_status + (path \<times> bool)" where
  "locate_loop v cur [] = Inr (cur, True)"
| "locate_loop v cur (c # cs) =
     (if c = ''.'' then locate_loop v cur cs
      else if c = ''..'' then (if cur = [] then Inl EFI_INVALID_PARAMETER else locate_loop v (butlast cur) cs)
      else case FatFileNameIsValid c of None \<Rightarrow> Inl EFI_INVALID_PARAMETER
      | Some name \<Rightarrow>
        if node_at v cur \<noteq> Some Directory then Inl EFI_NOT_FOUND
        else let k = FatSearchODir v cur name in
          if vol_files v k = None then (if cs \<noteq> [] then Inl EFI_NOT_FOUND else Inr (k, False))
          else locate_loop v k cs)"

text \<open>A drive letter, its colon, the leading separator and the final zero count for the length of the path.\<close>

definition FatLocateOFile :: "volume \<Rightarrow> path \<Rightarrow> efi_status + (path \<times> bool)" where
  "FatLocateOFile v p =
     (if 260 < 4 + (sum_list (map length p) + (length p - 1)) then Inl EFI_INVALID_PARAMETER
      else locate_loop v [] p)"

text \<open>What is there, for a path that is only read.\<close>

definition found_node :: "volume \<Rightarrow> efi_status + (path \<times> bool) \<Rightarrow> efi_status + node" where
  "found_node v r = (case r of Inl e \<Rightarrow> Inl e
     | Inr (k, found) \<Rightarrow> (case node_at v k of Some n \<Rightarrow> if found then Inr n else Inl EFI_NOT_FOUND | None \<Rightarrow> Inl EFI_NOT_FOUND))"

section \<open>Spelling\<close>

lemma of_char_upper:
  "(of_char (mEngUpperMap c) :: nat) = (let n = of_char c in
     if (97 \<le> n \<and> n \<le> 122) \<or> (0xe0 \<le> n \<and> n \<le> 0xf6) \<or> (0xf8 \<le> n \<and> n \<le> 0xfe) then n - 0x20 else n)"
proof -
  have "of_char c < (256 :: nat)" by simp
  then show ?thesis by (auto simp: mEngUpperMap_def Let_def of_char_of)
qed

lemma upper_upper [simp]: "mEngUpperMap (mEngUpperMap c) = mEngUpperMap c"
proof -
  have "(of_char (mEngUpperMap (mEngUpperMap c)) :: nat) = of_char (mEngUpperMap c)"
    unfolding of_char_upper Let_def by auto
  then show ?thesis by simp
qed

lemma upper_eq:
  assumes "(of_char x :: nat) < 65 \<or> (of_char x :: nat) \<in> {92, 124, 126}"
  shows "mEngUpperMap c = x \<longleftrightarrow> c = x"
proof -
  have "(of_char (mEngUpperMap c) :: nat) = of_char x \<longleftrightarrow> (of_char c :: nat) = of_char x"
    unfolding of_char_upper Let_def using assms by auto
  then show ?thesis by simp
qed

lemma upper_marks [simp]:
  "mEngUpperMap c = CHR '' '' \<longleftrightarrow> c = CHR '' ''" "mEngUpperMap c = CHR ''.'' \<longleftrightarrow> c = CHR ''.''"
  "mEngUpperMap c = CHR ''~'' \<longleftrightarrow> c = CHR ''~''" "mEngUpperMap c = CHR 0x22 \<longleftrightarrow> c = CHR 0x22"
  "mEngUpperMap c = CHR ''*'' \<longleftrightarrow> c = CHR ''*''" "mEngUpperMap c = CHR ''/'' \<longleftrightarrow> c = CHR ''/''"
  "mEngUpperMap c = CHR '':'' \<longleftrightarrow> c = CHR '':''" "mEngUpperMap c = CHR ''<'' \<longleftrightarrow> c = CHR ''<''"
  "mEngUpperMap c = CHR ''>'' \<longleftrightarrow> c = CHR ''>''" "mEngUpperMap c = CHR ''?'' \<longleftrightarrow> c = CHR ''?''"
  "mEngUpperMap c = CHR 0x5C \<longleftrightarrow> c = CHR 0x5C" "mEngUpperMap c = CHR ''|'' \<longleftrightarrow> c = CHR ''|''"
  "(of_char (mEngUpperMap c) :: nat) < 0x20 \<longleftrightarrow> (of_char c :: nat) < 0x20"
  by ((rule upper_eq, simp)+, unfold of_char_upper Let_def, auto)

lemma StrUpr_StrUpr [simp]: "EngStrUpr (EngStrUpr s) = EngStrUpr s"
  by (simp add: EngStrUpr_def)

lemma FileNameIsValid_upper: "FatFileNameIsValid (EngStrUpr s) = map_option EngStrUpr (FatFileNameIsValid s)"
  by (simp add: FatFileNameIsValid_def EngStrUpr_def Let_def dropWhile_map rev_map list_ex_iff o_def)

lemma SearchODir_upper: "FatSearchODir v d (EngStrUpr s) = FatSearchODir v d s"
  by (simp add: FatSearchODir_def)

lemma StrUpr_dots [simp]: "EngStrUpr c = ''.'' \<longleftrightarrow> c = ''.''" "EngStrUpr c = ''..'' \<longleftrightarrow> c = ''..''"
  by (auto simp: EngStrUpr_def map_eq_Cons_conv)

lemma locate_upper: "locate_loop v cur (map EngStrUpr p) = locate_loop v cur p"
  by (induction v cur p rule: locate_loop.induct)
    (auto simp: FileNameIsValid_upper SearchODir_upper Let_def split: option.split)

lemma length_StrUpr [simp]: "length (EngStrUpr s) = length s"
  by (simp add: EngStrUpr_def)

text \<open>Paths that differ in case only find the same entry.\<close>

lemma LocateOFile_spelling:
  assumes "map EngStrUpr q = map EngStrUpr p"
  shows "FatLocateOFile v q = FatLocateOFile v p"
proof -
  have "length q = length p" using assms by (rule map_eq_imp_length_eq)
  moreover have "map length q = map length p"
    using arg_cong [OF assms, of "map length"] by (simp add: o_def)
  ultimately show ?thesis
    unfolding FatLocateOFile_def using assms locate_upper [of v "[]" q] locate_upper [of v "[]" p] by simp
qed

section \<open>A change of one entry\<close>

definition set_node :: "path \<Rightarrow> node \<Rightarrow> volume \<Rightarrow> volume" where
  "set_node k n v = v\<lparr>vol_files := (vol_files v)(k \<mapsto> n)\<rparr>"

lemma set_node_fields [simp]:
  "vol_files (set_node k n v) = (vol_files v)(k \<mapsto> n)" "vol_short (set_node k n v) = vol_short v"
  "vol_open (set_node k n v) = vol_open v" "vol_read (set_node k n v) = vol_read v" "vol_wopen (set_node k n v) = vol_wopen v"
  "vol_info (set_node k n v) = vol_info v" "vol_create (set_node k n v) = vol_create v" "vol_readonly (set_node k n v) = vol_readonly v"
  "vol_grow (set_node k n v) = vol_grow v" "vol_slack (set_node k n v) = vol_slack v" "vol_write (set_node k n v) = vol_write v"
  by (simp_all add: set_node_def)

text \<open>When a file is written or made, what a path finds it finds afterwards too.\<close>

lemma SearchODir_set [simp]: "FatSearchODir (set_node k n v) d s = FatSearchODir v d s"
  by (simp add: FatSearchODir_def Let_def)

lemma node_at_set:
  "node_at v k \<noteq> Some Directory \<Longrightarrow> n \<noteq> Directory \<Longrightarrow> node_at (set_node k n v) d = Some Directory \<longleftrightarrow> node_at v d = Some Directory"
  by (auto simp: node_at_def split: if_splits)

lemma locate_set:
  assumes "node_at v k \<noteq> Some Directory" "n \<noteq> Directory"
  shows "locate_loop v cur p = Inr (e, b) \<Longrightarrow> locate_loop (set_node k n v) cur p = Inr (e, b \<or> e = k)"
proof (induction p arbitrary: cur)
  case (Cons c cs)
  note dirs = node_at_set [OF assms]
  consider "c = ''.''" | "c = ''..''" | "c \<noteq> ''.''" "c \<noteq> ''..''" by blast
  then show ?case
  proof cases
    case 3
    then obtain name where name: "FatFileNameIsValid c = Some name" "node_at v cur = Some Directory"
      using Cons.prems by (auto split: option.splits if_splits)
    show ?thesis
    proof (cases "vol_files v (FatSearchODir v cur name)")
      case None
      then have "cs = []" "e = FatSearchODir v cur name" "\<not> b" using Cons.prems 3 name by (auto split: if_splits)
      then show ?thesis using 3 name dirs None by (simp add: Let_def)
    next
      case (Some x)
      then show ?thesis using Cons 3 name dirs by (auto simp: Let_def)
    qed
  qed (use Cons in \<open>auto split: if_splits\<close>)
qed simp

lemma locate_missing: "locate_loop v cur p = Inr (e, False) \<Longrightarrow> node_at v e = None"
  by (induction p arbitrary: cur) (auto simp: node_at_def FatSearchODir_def Let_def split: if_splits option.splits)

text \<open>
  A path of plain names has no dots and no short names in it; its entry is known
  from the names alone.
\<close>

definition plain_path :: "path \<Rightarrow> bool" where
  "plain_path p \<longleftrightarrow> list_all (\<lambda>c. CHR ''~'' \<notin> set c \<and> FatFileNameIsValid c \<noteq> None) p
     \<and> sum_list (map length p) + (length p - 1) \<le> 256"

definition name_key :: "path \<Rightarrow> path" where
  "name_key p = map (\<lambda>c. case FatFileNameIsValid c of None \<Rightarrow> c | Some name \<Rightarrow> EngStrUpr name) p"

definition other_file :: "path \<Rightarrow> path \<Rightarrow> bool" where
  "other_file p q \<longleftrightarrow> plain_path q \<and> name_key q \<noteq> name_key p"

lemma FileNameIsValid_set: "FatFileNameIsValid c = Some name \<Longrightarrow> set name \<subseteq> set c"
proof
  fix x assume "FatFileNameIsValid c = Some name" "x \<in> set name"
  then show "x \<in> set c" by (auto simp: FatFileNameIsValid_def Let_def split: if_splits dest!: set_dropWhileD)
qed

lemma plain_name:
  assumes "CHR ''~'' \<notin> set c" "FatFileNameIsValid c = Some name"
  shows "FatSearchODir v d name = d @ [EngStrUpr name]" "c \<noteq> ''.''" "c \<noteq> ''..''"
proof -
  have "CHR ''~'' \<notin> set name" using assms FileNameIsValid_set by blast
  then have "CHR ''~'' \<notin> set (EngStrUpr name)" by (metis EngStrUpr_def imageE list.set_map upper_marks(3))
  then show "FatSearchODir v d name = d @ [EngStrUpr name]" by (simp add: FatSearchODir_def Let_def)
  have "FatFileNameIsValid ''.'' = None" "FatFileNameIsValid ''..'' = None" by code_simp+
  then show "c \<noteq> ''.''" "c \<noteq> ''..''" using assms(2) by auto
qed

lemma locate_plain:
  assumes "list_all (\<lambda>c. CHR ''~'' \<notin> set c \<and> FatFileNameIsValid c \<noteq> None) p" "locate_loop v cur p = Inr (e, b)"
  shows "e = cur @ name_key p"
  using assms
proof (induction p arbitrary: cur)
  case (Cons c cs)
  then obtain name where name: "FatFileNameIsValid c = Some name" by auto
  note c = plain_name [OF _ name]
  show ?case
    using Cons name c by (fastforce simp: name_key_def Let_def split: if_splits)
qed (simp add: name_key_def)

text \<open>A plain path that names another entry finds what it found before.\<close>

lemma found_other:
  assumes "node_at v k \<noteq> Some Directory" "n \<noteq> Directory"
  shows "list_all (\<lambda>c. CHR ''~'' \<notin> set c \<and> FatFileNameIsValid c \<noteq> None) p \<Longrightarrow> cur @ name_key p \<noteq> k \<Longrightarrow>
    found_node (set_node k n v) (locate_loop (set_node k n v) cur p) = found_node v (locate_loop v cur p)"
proof (induction p arbitrary: cur)
  case Nil
  then show ?case by (simp add: found_node_def node_at_def name_key_def split: option.split)
next
  case (Cons c cs)
  then obtain name where name: "FatFileNameIsValid c = Some name" "CHR ''~'' \<notin> set c" by auto
  note c = plain_name [OF name(2,1)]
  define k1 where "k1 = cur @ [EngStrUpr name]"
  have key: "k1 @ name_key cs \<noteq> k" using Cons.prems(2) name by (simp add: k1_def name_key_def)
  have IH: "found_node (set_node k n v) (locate_loop (set_node k n v) k1 cs) = found_node v (locate_loop v k1 cs)"
    using Cons.IH [OF _ key] Cons.prems(1) by simp
  show ?case
  proof (cases "k1 = k")
    case True
    then obtain c2 cs2 where cs: "cs = c2 # cs2" using key by (cases cs) (auto simp: name_key_def)
    then obtain name2 where n2: "FatFileNameIsValid c2 = Some name2" "CHR ''~'' \<notin> set c2" using Cons.prems(1) by auto
    have k: "node_at (set_node k n v) k \<noteq> Some Directory" using node_at_set [OF assms, of k] assms(1) by simp
    have "locate_loop v k cs = Inl EFI_NOT_FOUND" "locate_loop (set_node k n v) k cs = Inl EFI_NOT_FOUND"
      using cs n2 plain_name [OF n2(2,1)] assms(1) k by simp_all
    then show ?thesis using name c cs True node_at_set [OF assms, of cur]
      by (auto simp: k1_def found_node_def)
  next
    case False
    then show ?thesis using name c IH node_at_set [OF assms, of cur]
      by (auto simp: k1_def [symmetric] found_node_def node_at_def split: option.splits)
  qed
qed

lemma LocateOFile_set:
  assumes "node_at v k \<noteq> Some Directory" "n \<noteq> Directory" "FatLocateOFile v p = Inr (e, b)"
  shows "FatLocateOFile (set_node k n v) p = Inr (e, b \<or> e = k)"
  using assms locate_set [of v k n "[]" p e b] by (simp add: FatLocateOFile_def split: if_splits)

lemma LocateOFile_plain: "plain_path p \<Longrightarrow> FatLocateOFile v p = Inr (e, b) \<Longrightarrow> e = name_key p"
  using locate_plain [of p v "[]" e b] by (simp add: plain_path_def FatLocateOFile_def)

lemma LocateOFile_missing: "FatLocateOFile v p = Inr (e, False) \<Longrightarrow> node_at v e = None"
  using locate_missing [of v "[]" p e] by (simp add: FatLocateOFile_def split: if_splits)

lemma LocateOFile_other:
  assumes "node_at v k \<noteq> Some Directory" "n \<noteq> Directory" "plain_path p" "name_key p \<noteq> k"
  shows "found_node (set_node k n v) (FatLocateOFile (set_node k n v) p) = found_node v (FatLocateOFile v p)"
  using found_other [OF assms(1,2), of p "[]"] assms(3,4) by (simp add: plain_path_def FatLocateOFile_def)

lemma found_same:
  assumes "node_at v k \<noteq> Some Directory" "n \<noteq> Directory" "FatLocateOFile v p = Inr (e, b)"
  shows "found_node (set_node k n v) (FatLocateOFile (set_node k n v) p) = (if e = k then Inr n else found_node v (Inr (e, b)))"
  using LocateOFile_set [OF assms] assms(1) by (auto simp: found_node_def node_at_def split: option.splits)

end
