(* ===== verification/Sbc_FileCtrl.thy ===== *)
theory Sbc_FileCtrl
  imports Fat_Names
begin

text \<open>
  Files of \<^verbatim>\<open>SBC_FileCtrl.c\<close>: opening and reading through the simple file system
  protocol, the search for the volume that has a file, file sizes, and the boot
  mode file.  A handle is a position in the list of volumes.
\<close>

unbundle bit_operations_syntax

section \<open>Length and value\<close>

text \<open>
  \<^verbatim>\<open>LV_t\<close> is a 32-bit length, four bytes of padding and a pointer.  The file
  functions hand the address of the length to services that read and write a
  64-bit size there, so the padding is the upper half of that size.
\<close>

record LV =
  lv_length :: u32
  lv_pad :: u32
  lv_value :: "bytes option"

definition lv_size :: "LV \<Rightarrow> u64" where
  "lv_size lv = push_bit 32 (ucast (lv_pad lv)) OR ucast (lv_length lv)"

definition lv_set_size :: "u64 \<Rightarrow> LV \<Rightarrow> LV" where
  "lv_set_size n lv = lv\<lparr>lv_length := ucast n, lv_pad := ucast (drop_bit 32 n)\<rparr>"

definition lv_set_data :: "LV \<Rightarrow> bytes option \<Rightarrow> u32 \<Rightarrow> LV" where
  "lv_set_data lv buf bufl = lv\<lparr>lv_value := buf, lv_length := bufl\<rparr>"

section \<open>Open, size, read\<close>

definition fs_open :: "machine \<Rightarrow> nat \<Rightarrow> path \<Rightarrow> efi_status + node" where
  "fs_open m h p = (if length (volumes m) \<le> h then Inl EFI_INVALID_PARAMETER
     else case volumes m ! h of None \<Rightarrow> Inl EFI_UNSUPPORTED
     | Some v \<Rightarrow> if EFI_ERROR (vol_open v) then Inl (vol_open v)
         else found_node v (FatLocateOFile v p))"

text \<open>\<^verbatim>\<open>LoadImage\<close> from a device path reads the file through the same file system.\<close>

definition can_load :: "machine \<Rightarrow> path \<Rightarrow> nat \<Rightarrow> bool" where
  "can_load m p h = (case fs_open m h p of Inl e \<Rightarrow> False | Inr Directory \<Rightarrow> False
     | Inr (RegFile content) \<Rightarrow> (case volumes m ! h of None \<Rightarrow> False
         | Some v \<Rightarrow> \<not> EFI_ERROR (vol_read v) \<and> loadable m content))"

definition SBC_IsFlieAccess :: "machine \<Rightarrow> nat \<Rightarrow> path \<Rightarrow> efi_status" where
  "SBC_IsFlieAccess m h p = (case fs_open m h p of Inl e \<Rightarrow> e | Inr _ \<Rightarrow> EFI_SUCCESS)"

definition SBC_FindEfiFileSystemProtocol :: "machine \<Rightarrow> nat" where
  "SBC_FindEfiFileSystemProtocol m = length (volumes m)"

definition SBC_FileSysFindHndl :: "machine \<Rightarrow> nat \<times> nat option" where
  "SBC_FileSysFindHndl m = (if volumes m = [] then (0, None) else (length (volumes m), Some 0))"

text \<open>The loop over the handles stops at the first that has the file, or behind the last with its error.\<close>

fun access_loop :: "machine \<Rightarrow> path \<Rightarrow> nat \<Rightarrow> nat \<Rightarrow> efi_status \<Rightarrow> nat \<times> efi_status" where
  "access_loop m p idx 0 st = (idx, st)"
| "access_loop m p idx (Suc k) st =
     (let st' = SBC_IsFlieAccess m idx p in
      if EFI_ERROR st' then access_loop m p (Suc idx) k st' else (idx, st'))"

definition node_size :: "node \<Rightarrow> nat" where
  "node_size n = (case n of RegFile bs \<Rightarrow> length bs | Directory \<Rightarrow> 0)"

definition file_info_size :: "path \<Rightarrow> nat" where
  "file_info_size p = 80 + 2 * (length (last p) + 1)"

text \<open>
  The size goes into a variable of the caller, which has the value \<open>FileSize\<close> before.  When
  the second request for the information fails, the variable stays as it is and the
  status is good all the same.
\<close>

definition file_info :: "machine \<Rightarrow> nat \<Rightarrow> efi_status" where
  "file_info m h = (case volumes m ! h of None \<Rightarrow> EFI_UNSUPPORTED | Some v \<Rightarrow> vol_info v)"

definition info_ok :: "machine \<Rightarrow> nat \<Rightarrow> bool" where
  "info_ok m h \<longleftrightarrow> \<not> EFI_ERROR (file_info m h)"

definition SBC_GetFileSize :: "machine \<Rightarrow> path \<Rightarrow> u64 \<Rightarrow> SBCStatus \<times> u64" where
  "SBC_GetFileSize m p FileSize =
     (let hndlcnt = SBC_FindEfiFileSystemProtocol m in
      if hndlcnt = 0 then (SBCFAIL, FileSize)
      else case access_loop m p 0 hndlcnt EFI_SUCCESS of (idx, Status) \<Rightarrow>
        if EFI_ERROR Status then (SBCFAIL, FileSize)
        else case fs_open m idx p of Inl e \<Rightarrow> (SBCFAIL, FileSize)
        | Inr n \<Rightarrow> if \<not> pool_ok m (file_info_size p) then (SBCFAIL, FileSize)
            else (SBCOK, if info_ok m idx then word_of_nat (node_size n) else FileSize))"

text \<open>A handle count of zero is not caught: nothing is tried and the result is handle zero.\<close>

definition SBC_FindFileBufHndl :: "path option \<Rightarrow> nat \<Rightarrow> (SBCStatus \<times> nat) io" where
  "SBC_FindFileBufHndl f_path hndlcnt = (case f_path of None \<Rightarrow> retn (SBCNULLP, hndlcnt)
     | Some p \<Rightarrow> (\<lambda>m. if volumes m = [] then Faulted NullDeref m
         else case access_loop m p 0 hndlcnt EFI_SUCCESS of (idx, retval) \<Rightarrow>
           if EFI_ERROR retval then Done (SBCNOTFND, hndlcnt) m else Done (SBCOK, idx) m))"

definition SBC_ReadFile :: "nat \<Rightarrow> path \<Rightarrow> LV \<Rightarrow> (efi_status \<times> LV) io" where
  "SBC_ReadFile h p out m = (case fs_open m h p of Inl e \<Rightarrow> Done (e, out) m
     | Inr Directory \<Rightarrow> Done (EFI_BUFFER_TOO_SMALL, out) m
     | Inr (RegFile content) \<Rightarrow>
       (case volumes m ! h of None \<Rightarrow> Done (EFI_UNSUPPORTED, out) m
        | Some v \<Rightarrow> if EFI_ERROR (vol_read v) then Done (vol_read v, out) m
          else let data = take (unat (lv_size out)) content;
                   out' = lv_set_size (word_of_nat (length data)) out in
            case lv_value out of
              None \<Rightarrow> if data = [] then Done (EFI_SUCCESS, out') m else Faulted NullDeref m
            | Some buf \<Rightarrow> if length buf < length data then Faulted OutOfBounds m
                else Done (EFI_SUCCESS, out'\<lparr>lv_value := Some (overlay 0 data buf)\<rparr>) m))"

section \<open>The boot mode file\<close>

abbreviation BOOT_MODE_FNAME :: path where "BOOT_MODE_FNAME \<equiv> [''EFI'', ''BOOT'', ''bootmode'']"

definition ascii :: "string \<Rightarrow> bytes" where
  "ascii s = map of_char s"

text \<open>\<^verbatim>\<open>strncmp\<close> as a test for equality; behind the end of a list there is a zero.\<close>

fun strncmp_eq :: "nat \<Rightarrow> bytes \<Rightarrow> bytes \<Rightarrow> bool" where
  "strncmp_eq 0 xs ys = True"
| "strncmp_eq (Suc n) xs ys =
     (let x = (case xs of [] \<Rightarrow> 0 | a # _ \<Rightarrow> a); y = (case ys of [] \<Rightarrow> 0 | b # _ \<Rightarrow> b) in
      x = y \<and> (x = 0 \<or> strncmp_eq n (tl xs) (tl ys)))"

definition bm_lookup_table :: "(string \<times> u32) list" where
  "bm_lookup_table = [(''normal'', BOOT_MODE_NORMAL), (''update'', BOOT_MODE_UPDATE), (''factory'', BOOT_MODE_FACTORY)]"

definition sbc_bm_lookup_key :: "bytes \<Rightarrow> u32" where
  "sbc_bm_lookup_key key =
     (case find (\<lambda>(sy, val). strncmp_eq (length sy - 1) (ascii sy) key) bm_lookup_table of
        None \<Rightarrow> BOOT_MODE_UNKNOWN | Some (sy, val) \<Rightarrow> val)"

definition SBC_ReadBootMode :: "u32 io" where
  "SBC_ReadBootMode m =
     (case SBC_FileSysFindHndl m of
        (cnt, None) \<Rightarrow> Done BOOT_MODE_UNKNOWN m
      | (cnt, Some fhnd) \<Rightarrow>
        let rdlv = lv_set_data \<lparr>lv_length = 0, lv_pad = rd32 (stale_bytes m 4), lv_value = None\<rparr> (Some (zeros 16)) 16 in
        andthen (SBC_ReadFile fhnd BOOT_MODE_FNAME rdlv) (\<lambda>(st, lv).
          if st \<noteq> EFI_SUCCESS then retn BOOT_MODE_UNKNOWN
          else retn (sbc_bm_lookup_key (case lv_value lv of None \<Rightarrow> [] | Some b \<Rightarrow> b))) m)"

section \<open>Facts\<close>

lemma fs_open_cong: "volumes m' = volumes m \<Longrightarrow> fs_open m' h p = fs_open m h p"
  by (simp add: fs_open_def)

lemma can_load_cong: "volumes m' = volumes m \<Longrightarrow> loadable m' = loadable m \<Longrightarrow> can_load m' p h = can_load m p h"
  using fs_open_cong [of m' m h p] by (simp add: can_load_def split: sum.split node.split option.split)

lemma can_load_put [simp]: "can_load (put_blkdev i dev m) p h = can_load m p h"
  by (rule can_load_cong) simp_all

lemma lv_size_nopad [simp]: "lv_pad lv = 0 \<Longrightarrow> lv_size lv = ucast (lv_length lv)"
  by (simp add: lv_size_def)

lemma lv_set_size_small:
  assumes "n < 2 ^ 32"
  shows "lv_set_size (word_of_nat n) lv = lv\<lparr>lv_length := word_of_nat n, lv_pad := 0\<rparr>"
proof -
  have "unat (drop_bit 32 (word_of_nat n :: u64)) = drop_bit 32 (unat (word_of_nat n :: u64))"
    by (rule unat_drop_bit_eq)
  also have "\<dots> = 0"
    using assms by (simp add: unat_of_nat drop_bit_eq_div)
  finally have "drop_bit 32 (word_of_nat n :: u64) = 0" by (simp add: unat_eq_zero)
  moreover have "(ucast (word_of_nat n :: u64) :: u32) = word_of_nat n"
    using assms by (simp add: unsigned_of_nat take_bit_nat_eq_self)
  ultimately show ?thesis by (simp add: lv_set_size_def)
qed

lemma lv_size_set_size [simp]: "lv_size (lv_set_size n lv) = n"
  by (rule bit_word_eqI) (auto simp: lv_size_def lv_set_size_def bit_simps)

lemma lv_size_value [simp]: "lv_size (lv\<lparr>lv_value := x\<rparr>) = lv_size lv"
  by (simp add: lv_size_def)

lemma access_loop_result:
  "access_loop m p idx k st = (i, s) \<Longrightarrow>
     (i = idx + k \<and> (k = 0 \<and> s = st \<or> 0 < k \<and> EFI_ERROR s) \<or>
      i < idx + k \<and> idx \<le> i \<and> \<not> EFI_ERROR s \<and> SBC_IsFlieAccess m i p = s)
     \<and> (\<forall>j. idx \<le> j \<and> j < i \<longrightarrow> EFI_ERROR (SBC_IsFlieAccess m j p))"
proof (induction m p idx k st arbitrary: i s rule: access_loop.induct)
  case (2 m p idx k st)
  show ?case
  proof (cases "EFI_ERROR (SBC_IsFlieAccess m idx p)")
    case True
    then have "access_loop m p (Suc idx) k (SBC_IsFlieAccess m idx p) = (i, s)"
      using 2(2) by (simp add: Let_def)
    note ih = 2(1) [OF refl True this]
    have "EFI_ERROR (SBC_IsFlieAccess m j p)" if "idx \<le> j" "j < i" for j
      using ih True that by (cases "j = idx") auto
    then show ?thesis using ih True by auto
  next
    case False
    then show ?thesis using 2(2) by (auto simp: Let_def)
  qed
qed auto

text \<open>
  A file found by size and by handle is the same file: both loops settle on the
  first volume that opens it.
\<close>

lemma find_file_agrees:
  assumes "volumes m \<noteq> []" "SBC_GetFileSize m p n0 = (SBCOK, n)"
  shows "\<exists>i node. SBC_FindFileBufHndl (Some p) (SBC_FindEfiFileSystemProtocol m) m = Done (SBCOK, i) m
    \<and> i < length (volumes m) \<and> fs_open m i p = Inr node \<and> n = (if info_ok m i then word_of_nat (node_size node) else n0)
    \<and> (\<forall>j < i. EFI_ERROR (SBC_IsFlieAccess m j p))"
proof -
  obtain i st where lp: "access_loop m p 0 (length (volumes m)) EFI_SUCCESS = (i, st)"
    by (cases "access_loop m p 0 (length (volumes m)) EFI_SUCCESS")
  have ok: "\<not> EFI_ERROR st"
    using assms lp by (auto simp: SBC_GetFileSize_def SBC_FindEfiFileSystemProtocol_def split: if_splits)
  obtain node where node: "fs_open m i p = Inr node" "n = (if info_ok m i then word_of_nat (node_size node) else n0)"
    using assms lp ok
    by (auto simp: SBC_GetFileSize_def SBC_FindEfiFileSystemProtocol_def split: if_splits sum.splits)
  have "i < length (volumes m)" "\<forall>j < i. EFI_ERROR (SBC_IsFlieAccess m j p)"
    using access_loop_result [OF lp] ok assms(1) by auto
  moreover have "SBC_FindFileBufHndl (Some p) (SBC_FindEfiFileSystemProtocol m) m = Done (SBCOK, i) m"
    using assms(1) lp ok by (simp add: SBC_FindFileBufHndl_def SBC_FindEfiFileSystemProtocol_def)
  ultimately show ?thesis using node by blast
qed

lemma ReadFile_world [ro]: "keeps (=) (SBC_ReadFile h p out)"
  by (auto simp: keeps_def SBC_ReadFile_def Let_def split: sum.splits node.splits option.splits)

lemma lv_size_ge: "unat (lv_length lv) \<le> unat (lv_size lv)"
proof -
  have "take_bit 32 (lv_size lv) = ucast (lv_length lv)"
    by (rule bit_word_eqI) (auto simp: lv_size_def bit_simps dest: bit_imp_le_length)
  then have "unat (take_bit 32 (lv_size lv)) = unat (lv_length lv)" by simp
  then have "take_bit 32 (unat (lv_size lv)) = unat (lv_length lv)" by (simp add: unsigned_take_bit_eq)
  then show ?thesis using take_bit_nat_less_eq_self [of 32 "unat (lv_size lv)"] by simp
qed

text \<open>
  Reading a file into a buffer of its own size fills the buffer with the file,
  whatever the padding holds.
\<close>

lemma ReadFile_whole:
  assumes "fs_open m h p = Inr (RegFile content)" "length content < 2 ^ 32"
    "volumes m ! h = Some v" "\<not> EFI_ERROR (vol_read v)"
    "lv_length lv = word_of_nat (length content)" "lv_value lv = Some buf" "length buf = length content"
  shows "SBC_ReadFile h p lv m = Done (EFI_SUCCESS, lv\<lparr>lv_pad := 0, lv_value := Some content\<rparr>) m"
proof -
  have "length content \<le> unat (lv_size lv)"
    using lv_size_ge [of lv] assms(2,5) by (simp add: unat_of_nat)
  moreover have "lv_set_size (word_of_nat (length content)) lv = lv\<lparr>lv_pad := 0\<rparr>"
    using assms(2,5) by (simp add: lv_set_size_small)
  ultimately show ?thesis using assms by (simp add: SBC_ReadFile_def Let_def overlay_def)
qed

lemma ro_FindFileBufHndl [ro]: "readonly (SBC_FindFileBufHndl p n)"
  by (rule keepsI; auto simp: SBC_FindFileBufHndl_def split: option.splits prod.splits)

lemma ro_ReadBootMode [ro]: "readonly SBC_ReadBootMode"
  by (rule keepsI; auto simp: SBC_ReadBootMode_def Let_def final_readonly_andthen ro split: prod.splits exec.splits option.splits)

section \<open>The first file of a path\<close>

text \<open>The first volume that opens the path, and what it opens.\<close>

definition first_file :: "machine \<Rightarrow> path \<Rightarrow> nat \<Rightarrow> node \<Rightarrow> bool" where
  "first_file m p v n \<longleftrightarrow> fs_open m v p = Inr n \<and> (\<forall>j < v. EFI_ERROR (SBC_IsFlieAccess m j p))"

lemma first_file_volume:
  assumes "first_file m p v n"
  obtains vol where "v < length (volumes m)" "volumes m ! v = Some vol" "\<not> EFI_ERROR (vol_open vol)"
  using assms by (auto simp: first_file_def fs_open_def split: if_splits option.splits)

lemma access_loop_first:
  "\<forall>j. idx \<le> j \<and> j < v \<longrightarrow> EFI_ERROR (SBC_IsFlieAccess m j p) \<Longrightarrow> SBC_IsFlieAccess m v p = EFI_SUCCESS
   \<Longrightarrow> idx \<le> v \<Longrightarrow> v < idx + k \<Longrightarrow> access_loop m p idx k st = (v, EFI_SUCCESS)"
proof (induction m p idx k st rule: access_loop.induct)
  case (2 m p idx k st)
  then show ?case by (cases "idx = v") (auto simp: Let_def EFI_ERROR_def)
qed simp

lemma first_file_found:
  assumes "first_file m p v n"
  shows "volumes m \<noteq> []" "access_loop m p 0 (length (volumes m)) EFI_SUCCESS = (v, EFI_SUCCESS)"
    "SBC_FindFileBufHndl (Some p) (length (volumes m)) m = Done (SBCOK, v) m"
    "pool_ok m (file_info_size p) \<Longrightarrow> info_ok m v \<Longrightarrow> SBC_GetFileSize m p n0 = (SBCOK, word_of_nat (node_size n))"
proof -
  have open_v: "fs_open m v p = Inr n" using assms by (simp add: first_file_def)
  have v: "v < length (volumes m)" using assms by (rule first_file_volume)
  show lp: "access_loop m p 0 (length (volumes m)) EFI_SUCCESS = (v, EFI_SUCCESS)"
    using assms v by (intro access_loop_first) (auto simp: first_file_def SBC_IsFlieAccess_def)
  show ne: "volumes m \<noteq> []" using v by auto
  show "SBC_FindFileBufHndl (Some p) (length (volumes m)) m = Done (SBCOK, v) m"
    using lp ne by (simp add: SBC_FindFileBufHndl_def EFI_ERROR_def)
  show "SBC_GetFileSize m p n0 = (SBCOK, word_of_nat (node_size n))" if "pool_ok m (file_info_size p)" "info_ok m v"
    using lp ne open_v that by (simp add: SBC_GetFileSize_def SBC_FindEfiFileSystemProtocol_def EFI_ERROR_def)
qed

text \<open>The file can be read into a buffer of its own size.\<close>

definition readable_file :: "machine \<Rightarrow> path \<Rightarrow> nat \<Rightarrow> bytes \<Rightarrow> bool" where
  "readable_file m p v content \<longleftrightarrow> first_file m p v (RegFile content) \<and> length content < 2 ^ 32 \<and>
     (\<exists>vol. volumes m ! v = Some vol \<and> \<not> EFI_ERROR (vol_read vol)) \<and> info_ok m v \<and>
     pool_ok m (file_info_size p) \<and> pool_ok m (length content)"

end
