(* ===== verification/Sbc_AntiTampering.thy ===== *)
theory Sbc_AntiTampering
  imports Sbc_BaseAnswer Sbc_FileCtrl
begin

text \<open>
  The rest of \<^verbatim>\<open>SBC_AntiTampering.c\<close>: serial numbers of board, memory and disk, the
  images the identifiers are made of, the device, firmware and OS identifiers,
  the migration key, and the checks of the first stage image and of its
  certificate.
\<close>

unbundle bit_operations_syntax

section \<open>Serial numbers\<close>

record hw_uniqueinfo =
  mbsn :: bytes
  mmsn :: bytes
  nvmesn :: bytes

text \<open>The array and its length field are kept as the bytes up to the length; the array has 64.\<close>

definition zero_info :: hw_uniqueinfo where
  "zero_info = \<lparr>mbsn = [], mmsn = [], nvmesn = []\<rparr>"

text \<open>
  A C string in memory: the bytes up to the first zero, \<open>None\<close> when the memory
  ends before it.
\<close>

fun c_string :: "bytes \<Rightarrow> bytes option" where
  "c_string [] = None"
| "c_string (b # bs) = (if b = 0 then Some [] else map_option (Cons b) (c_string bs))"

fun skip_string :: "bytes \<Rightarrow> bytes option" where
  "skip_string [] = None"
| "skip_string (b # bs) = (if b = 0 then Some bs else skip_string bs)"

text \<open>Skip \<open>n\<close> strings; the code looks at the byte behind each one, which must be there.\<close>

fun skip_strings :: "nat \<Rightarrow> bytes \<Rightarrow> bytes option" where
  "skip_strings 0 bs = Some bs"
| "skip_strings (Suc n) bs = (case skip_string bs of None \<Rightarrow> None
     | Some rest \<Rightarrow> if rest = [] then None else skip_strings n rest)"

text \<open>
  An SMBIOS record in memory: type, length of the formatted area, the area, then
  the strings.  The field at \<open>fld\<close> of the area is the number of the serial number
  string, zero for none.  \<^verbatim>\<open>CopyMem\<close> copies the string without a look at its length:
  a string longer than the array of 64 bytes, or one that the record does not
  end, makes the code write or read outside its object, which is the fault here.
\<close>

definition smbios_serial :: "nat \<Rightarrow> bytes \<Rightarrow> fault + bytes option" where
  "smbios_serial fld r =
     (if length r \<le> fld \<or> length r < 2 then Inl OutOfBounds
      else let index = unat (r ! fld); strings = drop (unat (r ! 1)) r in
        if index = 0 then Inr None
        else case skip_strings (index - 1) strings of None \<Rightarrow> Inl OutOfBounds
        | Some s \<Rightarrow> (case c_string s of None \<Rightarrow> Inl OutOfBounds
            | Some sn \<Rightarrow> if 64 < length sn then Inl OutOfBounds else Inr (Some sn)))"

text \<open>Every record of the type sets the number again, so the last one counts.\<close>

fun smbios_scan :: "byte \<Rightarrow> nat \<Rightarrow> bytes list \<Rightarrow> bytes \<Rightarrow> fault + bytes" where
  "smbios_scan ty fld [] sn = Inr sn"
| "smbios_scan ty fld (r # rs) sn =
     (if r \<noteq> [] \<and> hd r = ty then
        (case smbios_serial fld r of Inl f \<Rightarrow> Inl f
         | Inr None \<Rightarrow> smbios_scan ty fld rs sn
         | Inr (Some s) \<Rightarrow> smbios_scan ty fld rs s)
      else smbios_scan ty fld rs sn)"

abbreviation SMBIOS_TYPE_BASEBOARD_INFORMATION :: byte where "SMBIOS_TYPE_BASEBOARD_INFORMATION \<equiv> 2"
abbreviation SMBIOS_TYPE_MEMORY_DEVICE :: byte where "SMBIOS_TYPE_MEMORY_DEVICE \<equiv> 17"

text \<open>The first of the two resets the length of the memory serial number, not that of the board.\<close>

definition baseboard_sn :: "hw_uniqueinfo \<Rightarrow> (SBCStatus \<times> hw_uniqueinfo) io" where
  "baseboard_sn p m = (case smbios m of None \<Rightarrow> Done (SBCPROTO, p) m
     | Some rs \<Rightarrow> (case smbios_scan SMBIOS_TYPE_BASEBOARD_INFORMATION 7 rs (mbsn p) of
         Inl f \<Rightarrow> Faulted f m
       | Inr sn \<Rightarrow> Done (SBCOK, p\<lparr>mbsn := sn, mmsn := []\<rparr>) m))"

definition memorydevice_sn :: "hw_uniqueinfo \<Rightarrow> (SBCStatus \<times> hw_uniqueinfo) io" where
  "memorydevice_sn p m = (case smbios m of None \<Rightarrow> Done (SBCPROTO, p) m
     | Some rs \<Rightarrow> (case smbios_scan SMBIOS_TYPE_MEMORY_DEVICE 24 rs [] of
         Inl f \<Rightarrow> Faulted f m
       | Inr sn \<Rightarrow> Done (SBCOK, p\<lparr>mmsn := sn\<rparr>) m))"

text \<open>Trailing spaces of the 20-byte serial number become zeros, and the string ends at the first zero.\<close>

definition trim_serial :: "bytes \<Rightarrow> bytes" where
  "trim_serial s = takeWhile (\<lambda>b. b \<noteq> 0) (rev (dropWhile (\<lambda>b. b = 32) (rev s)))"

text \<open>The controllers are tried in turn; one that cannot be asked is passed over.\<close>

fun nvme_serial_scan :: "bytes option list \<Rightarrow> bool \<Rightarrow> bytes option" where
  "nvme_serial_scan [] mem = None"
| "nvme_serial_scan (None # cs) mem = nvme_serial_scan cs mem"
| "nvme_serial_scan (Some ident # cs) mem =
     (if mem then Some (trim_serial (slice 4 20 ident)) else nvme_serial_scan cs mem)"

definition nvme_get_serial :: "hw_uniqueinfo \<Rightarrow> (SBCStatus \<times> hw_uniqueinfo) io" where
  "nvme_get_serial p m = (if nvme_identify m = [] then Done (SBCFAIL, p) m
     else case nvme_serial_scan (nvme_identify m) (pool_ok m 4096) of
       None \<Rightarrow> Done (SBCOK, p) m
     | Some sn \<Rightarrow> Done (SBCOK, p\<lparr>nvmesn := sn\<rparr>) m)"

text \<open>The three calls, whose status nobody looks at.\<close>

definition hw_info :: "hw_uniqueinfo io" where
  "hw_info = andthen (baseboard_sn zero_info) (\<lambda>(r1, i1).
     andthen (memorydevice_sn i1) (\<lambda>(r2, i2).
     andthen (nvme_get_serial i2) (\<lambda>(r3, i3). retn i3)))"

section \<open>Images\<close>

abbreviation OSID_KERNEL_PATH :: path where "OSID_KERNEL_PATH \<equiv> [''boot'', ''vmlinuz-5.14.0-284.11.1.el9_2.x86_64'']"
abbreviation FSBL_PATH :: path where "FSBL_PATH \<equiv> [''EFI'', ''boot'', ''FSBL.efi'']"
abbreviation FSBL_BNIFO_SIZE :: u32 where "FSBL_BNIFO_SIZE \<equiv> 8"
abbreviation SBC_AT_HASH_LEN :: nat where "SBC_AT_HASH_LEN \<equiv> 32"

definition kernel_image_load :: "LV \<Rightarrow> (SBCStatus \<times> LV) io" where
  "kernel_image_load lv m =
     (case SBC_GetFileSize m OSID_KERNEL_PATH 0 of
      (ret, len) \<Rightarrow>
        if ret \<noteq> SBCOK then Done (ret, lv) m
        else let hndlcnt = SBC_FindEfiFileSystemProtocol m in
          if hndlcnt = 0 then Done (SBCFAIL, lv) m
          else case access_loop m OSID_KERNEL_PATH 0 hndlcnt EFI_SUCCESS of (idx, Status) \<Rightarrow>
            if EFI_ERROR Status then Done (SBCFAIL, lv) m
            else if \<not> pool_ok m (unat len) then Done (SBCNULLP, lv\<lparr>lv_length := ucast len, lv_value := None\<rparr>) m
            else andthen (SBC_ReadFile idx OSID_KERNEL_PATH (lv\<lparr>lv_length := ucast len, lv_value := Some (zeros (unat len))\<rparr>))
              (\<lambda>(st, lv'). retn (if EFI_ERROR st then SBCNOTFND else SBCOK, lv')) m)"

text \<open>The sector offset of a bank as \<^verbatim>\<open>_ssbl_image_load\<close> computes it.\<close>

abbreviation BOOT_SECTOR1_OFS :: u64 where "BOOT_SECTOR1_OFS \<equiv> 0x200"
abbreviation BOOT_SECTOR2_OFS :: u64 where "BOOT_SECTOR2_OFS \<equiv> 0x08000200"
abbreviation BOOT_SECTOR3_OFS :: u64 where "BOOT_SECTOR3_OFS \<equiv> 0x10000200"
abbreviation BOOT_SSBL_OFS :: u64 where "BOOT_SSBL_OFS \<equiv> 0x400000"

definition ssbl_startlba :: "u64 \<Rightarrow> u64" where
  "ssbl_startlba normbank =
     (let bsofs = BOOT_SECTOR1_OFS OR push_bit 20 (normbank - 1) in
      drop_bit SBC_RAWPRT_DFLT_SHIFT (bsofs OR BOOT_SSBL_OFS))"

definition ssbl_image_load :: "blkhandle \<Rightarrow> LV \<Rightarrow> u64 \<Rightarrow> u64 \<Rightarrow> (SBCStatus \<times> LV) io" where
  "ssbl_image_load blkhnd lv normbank bm =
     (let startlba = ssbl_startlba normbank in
      andthen (SBC_RawPrtReadBlock blkhnd (Some (zeros 512)) (Some SBC_RAWPRT_DFLT_BLK_SZ) startlba) (\<lambda>(ret, imghdr).
        if ret \<noteq> SBCOK then retn (ret, lv)
        else let imglen = ALIGN_VALUE (rd32 (take 4 imghdr)) SBC_RAWPRT_DFLT_BLK_SZ in
          (\<lambda>m. if \<not> pool_ok m (unat imglen) then Done (SBCNULLP, lv\<lparr>lv_value := None\<rparr>) m
            else andthen (SBC_RawPrtReadBlock blkhnd (Some (stale_bytes m (unat imglen))) (Some imglen) startlba)
              (\<lambda>(ret', buf). if ret' \<noteq> SBCOK then retn (ret', lv\<lparr>lv_value := Some buf\<rparr>)
                 else retn (SBCOK, lv\<lparr>lv_length := imglen - FSBL_BNIFO_SIZE, lv_value := Some (drop 4 buf)\<rparr>)) m)))"

text \<open>
  The first stage image from the first volume that opens, whether or not the file
  is there.  The directories are opened one after the other.
\<close>

fun first_volume :: "volume option list \<Rightarrow> nat \<Rightarrow> nat option" where
  "first_volume [] idx = None"
| "first_volume (None # vs) idx = first_volume vs (Suc idx)"
| "first_volume (Some v # vs) idx = (if \<not> EFI_ERROR (vol_open v) then Some idx else first_volume vs (Suc idx))"

definition efi_boot_fsbl_load :: "LV \<Rightarrow> (efi_status \<times> LV) io" where
  "efi_boot_fsbl_load lv m =
     (if volumes m = [] then Done (EFI_NOT_FOUND, lv) m
      else case first_volume (volumes m) 0 of None \<Rightarrow> Done (EFI_NOT_FOUND, lv) m
      | Some idx \<Rightarrow>
        (case fs_open m idx [''EFI''] of Inl e \<Rightarrow> Done (e, lv) m
         | Inr _ \<Rightarrow> (case fs_open m idx [''EFI'', ''BOOT''] of Inl e \<Rightarrow> Done (e, lv) m
         | Inr _ \<Rightarrow> (case fs_open m idx [''EFI'', ''BOOT'', ''FSBL.efi''] of Inl e \<Rightarrow> Done (e, lv) m
         | Inr node \<Rightarrow>
           if \<not> pool_ok m (file_info_size FSBL_PATH) then Done (EFI_OUT_OF_RESOURCES, lv) m
           else if EFI_ERROR (file_info m idx) then Done (file_info m idx, lv) m
           else let len = (word_of_nat (node_size node) :: u32) in
             if \<not> pool_ok m (unat len) then Done (EFI_OUT_OF_RESOURCES, lv\<lparr>lv_length := len\<rparr>) m
             else SBC_ReadFile idx [''EFI'', ''BOOT'', ''FSBL.efi'']
                    (lv\<lparr>lv_length := len, lv_value := Some (stale_bytes m (unat len))\<rparr>) m))))"

section \<open>Identifiers\<close>

record atp_ident =
  devid :: bytes
  fwid :: bytes
  osid :: bytes
  migid :: bytes

text \<open>
  The hash of the first stage image is computed into \<open>devidhsah\<close> and then left
  alone: what goes into the message are the first 32 bytes of the image.
\<close>

definition SBC_GenDeviceID :: "bytes \<Rightarrow> (SBCStatus \<times> bytes) io" where
  "SBC_GenDeviceID out =
     andthen hw_info (\<lambda>info.
     andthen (efi_boot_fsbl_load \<lparr>lv_length = 0, lv_pad = 0, lv_value = None\<rparr>) (\<lambda>(st, rdlv).
       case lv_value rdlv of None \<Rightarrow> retn (SBCNULLP, out)
       | Some img \<Rightarrow>
         (case SBC_HashCompute (Some img) (ucast (lv_length rdlv)) (Some (zeros SBC_AT_HASH_LEN)) of (ret, _) \<Rightarrow>
           if ret \<noteq> SBCOK then retn (ret, out)
           else (\<lambda>m. if \<not> pool_ok m (length (mbsn info) + length (mmsn info) + length (nvmesn info) + SBC_AT_HASH_LEN)
               then Done (SBCNULLP, out) m
               else if length img < SBC_AT_HASH_LEN then Faulted OutOfBounds m
               else let msg = mbsn info @ mmsn info @ nvmesn info @ take SBC_AT_HASH_LEN img in
                 (case SBC_HashCompute (Some msg) (word_of_nat (length msg)) (Some out) of (ret, d) \<Rightarrow>
                    Done (ret, case d of None \<Rightarrow> out | Some h \<Rightarrow> h) m)))))"

text \<open>
  The image is loaded, and then the pointer to it is replaced by that of the
  zeroed hash buffer: what is hashed are 32 zero bytes.
\<close>

definition SBC_GenFWID :: "blkhandle \<Rightarrow> bytes \<Rightarrow> bytes \<Rightarrow> u64 \<Rightarrow> u64 \<Rightarrow> (SBCStatus \<times> bytes) io" where
  "SBC_GenFWID h_blkio dev out normbank bm =
     andthen (ssbl_image_load h_blkio \<lparr>lv_length = 0, lv_pad = 0, lv_value = None\<rparr> normbank bm) (\<lambda>(ret, lv).
       if ret \<noteq> SBCOK then retn (ret, out)
       else if \<not> 0 < lv_length lv then retn (SBCZEROL, out)
       else let hash_ssbl = zeros SBC_AT_HASH_LEN; lv = lv\<lparr>lv_value := Some hash_ssbl, lv_length := 32\<rparr> in
         (case SBC_HashCompute (lv_value lv) (ucast (lv_length lv)) (Some hash_ssbl) of (ret, h) \<Rightarrow>
           if ret \<noteq> SBCOK then retn (ret, out)
           else (\<lambda>m. if \<not> pool_ok m (2 * SBC_AT_HASH_LEN) then Done (SBCNULLP, out) m
             else (case SBC_HashCompute (Some (take SBC_AT_HASH_LEN dev @ the h)) 64 (Some out) of (ret, d) \<Rightarrow>
                Done (ret, case d of None \<Rightarrow> out | Some x \<Rightarrow> x) m))))"

definition SBC_GenOSID :: "bytes \<Rightarrow> bytes \<Rightarrow> (SBCStatus \<times> bytes) io" where
  "SBC_GenOSID fw out m =
     andthen (kernel_image_load \<lparr>lv_length = 0, lv_pad = rd32 (stale_bytes m 4), lv_value = None\<rparr>) (\<lambda>(ret, lv).
       if ret \<noteq> SBCOK then retn (ret, out)
       else (case SBC_HashCompute (lv_value lv) (ucast (lv_length lv)) (Some (zeros SBC_AT_HASH_LEN)) of (ret, h) \<Rightarrow>
           if ret \<noteq> SBCOK then retn (ret, out)
           else (\<lambda>m. if \<not> pool_ok m (2 * SBC_AT_HASH_LEN) then Done (SBCNULLP, out) m
             else (case SBC_HashCompute (Some (take SBC_AT_HASH_LEN fw @ the h)) 64 (Some out) of (ret, d) \<Rightarrow>
                Done (ret, case d of None \<Rightarrow> out | Some x \<Rightarrow> x) m)))) m"

section \<open>Migration key\<close>

text \<open>The layout of \<^verbatim>\<open>boot_fw_inf_t\<close>: each image with its length word in front.\<close>

abbreviation BOOT_FW_IMGMAX :: u32 where "BOOT_FW_IMGMAX \<equiv> 0x08000000"
abbreviation SSBLN_OFS :: nat where "SSBLN_OFS \<equiv> 0x400000"
abbreviation OSLN_OFS :: nat where "OSLN_OFS \<equiv> 0x800000"

definition bank_startlba :: "u32 \<Rightarrow> u64" where
  "bank_startlba bankid = drop_bit SBC_RAWPRT_DFLT_SHIFT (ucast (0x200 OR (BOOT_FW_IMGMAX * (bankid - 1))))"

text \<open>Hash of an image of the bank: as many bytes as its length word says, which must lie in the buffer.\<close>

definition hash_image :: "bytes \<Rightarrow> nat \<Rightarrow> (SBCStatus \<times> bytes) io" where
  "hash_image fwinf ofs =
     (let len = rd32 (slice ofs 4 fwinf) in
      if length fwinf < ofs + 4 + unat len then fail OutOfBounds
      else case SBC_HashCompute (Some (drop (ofs + 4) fwinf)) (ucast len) (Some (zeros SBC_AT_HASH_LEN)) of
        (ret, d) \<Rightarrow> retn (ret, the d))"

text \<open>
  The second read asks for the size of the pointer, one block, and the clearing
  before it for eight bytes, so the lengths and images of the second and third
  stage stay those of the current bank.
\<close>

definition SBC_GenMigrationKey :: "blkhandle \<Rightarrow> u32 \<Rightarrow> u32 \<Rightarrow> bytes \<Rightarrow> (SBCStatus \<times> bytes) io" where
  "SBC_GenMigrationKey priv currbankid prevbankid out =
     (if priv = None then retn (SBCNULLP, out)
      else andthen hw_info (\<lambda>info. (\<lambda>m.
        let hw = mbsn info @ mmsn info @ nvmesn info in
        if \<not> pool_ok m (unat BOOT_FW_IMGMAX) \<or> \<not> pool_ok m (length hw) \<or> \<not> pool_ok m (6 * SBC_AT_HASH_LEN)
        then Done (SBCNULLP, out) m
        else (case SBC_HashCompute (Some hw) (word_of_nat (length hw)) (Some (zeros SBC_AT_HASH_LEN)) of (ret, h1) \<Rightarrow>
          if ret \<noteq> SBCOK then Done (ret, out) m
          else andthen (SBC_RawPrtReadBlock priv (Some (stale_bytes m (unat BOOT_FW_IMGMAX))) (Some BOOT_FW_IMGMAX)
                          (bank_startlba currbankid)) (\<lambda>(ret, fwinf).
            if ret \<noteq> SBCOK then retn (ret, out)
            else andthen (hash_image fwinf 0) (\<lambda>(ret, h2). if ret \<noteq> SBCOK then retn (ret, out)
            else andthen (hash_image fwinf SSBLN_OFS) (\<lambda>(ret, h3). if ret \<noteq> SBCOK then retn (ret, out)
            else andthen (hash_image fwinf OSLN_OFS) (\<lambda>(ret, h4). if ret \<noteq> SBCOK then retn (ret, out)
            else let fwinf = overlay 0 (zeros 8) fwinf in
              andthen (SBC_RawPrtReadBlock priv (Some fwinf) (Some (ALIGN_VALUE 8 SBC_RAWPRT_DFLT_BLK_SZ))
                         (bank_startlba prevbankid)) (\<lambda>(ret, fwinf).
            if ret \<noteq> SBCOK then retn (ret, out)
            else andthen (hash_image fwinf SSBLN_OFS) (\<lambda>(ret, h5). if ret \<noteq> SBCOK then retn (ret, out)
            else andthen (hash_image fwinf OSLN_OFS) (\<lambda>(ret, h6). if ret \<noteq> SBCOK then retn (ret, out)
            else (case SBC_HashCompute (Some (the h1 @ h2 @ h3 @ h4 @ h5 @ h6)) (6 * 32) (Some out) of
                (ret, d) \<Rightarrow> retn (ret, if ret \<noteq> SBCOK then out else the d))))))))) m))))"

section \<open>Certificate check\<close>

text \<open>The certificate is passed with the local \<open>certlen\<close>, which is zero, and not with the length given.\<close>

definition SBC_FSBLIntgCheck :: "openssl \<Rightarrow> blkhandle \<Rightarrow> bytes option \<Rightarrow> u64 \<Rightarrow> u64 \<Rightarrow> u64 \<Rightarrow> SBCStatus io" where
  "SBC_FSBLIntgCheck ssl blkio cert certle nrombank mode =
     (if mode \<noteq> 1 \<and> mode \<noteq> 2 \<and> mode \<noteq> 4 then retn SBCINVPARAM
      else case blkio of None \<Rightarrow> fail NullDeref
      | Some i \<Rightarrow> (\<lambda>m. case blkdev m i of None \<Rightarrow> Faulted NullDeref m
        | Some dev \<Rightarrow>
          let imglen = ALIGN_VALUE SYS_SETTING_STORAGE_LEN (BlockSize dev) in
          if \<not> pool_ok m (unat imglen) then Done SBCNULLP m
          else andthen (SBC_RawPrtReadBlock blkio (Some (zeros (unat imglen))) (Some imglen) sys_conf_lba)
            (\<lambda>(ret, imgbuf). if ret \<noteq> SBCOK then retn ret
              else let calen = ucast (rd32 (slice SYS_CONF_ROOT_CA_OFS 4 imgbuf));
                       cabuf = drop (SYS_CONF_ROOT_CA_OFS + 4) imgbuf; certlen = 0 in
                retn (SBC_X509VerifyCert ssl cert certlen (Some cabuf) calen)) m))"

section \<open>First stage check\<close>

text \<open>The trailer of a signed image: lengths of signature, firmware information, certificate and base answer.\<close>

record fsbl_bsinfo =
  siglen :: u32
  fwinfolen :: u32
  certlen :: u32
  banswlen :: u32
  bsinfv :: u32

definition bsinfo_of_bytes :: "bytes \<Rightarrow> fsbl_bsinfo" where
  "bsinfo_of_bytes bs = \<lparr>siglen = ucast (bs ! 0), fwinfolen = ucast (bs ! 1), certlen = ucast (rd16 (slice 2 2 bs)),
     banswlen = ucast (bs ! 4), bsinfv = ucast (bs ! 5)\<rparr>"

definition bsinfolen :: "fsbl_bsinfo \<Rightarrow> u32" where
  "bsinfolen b = siglen b + fwinfolen b + certlen b + banswlen b"

text \<open>Bytes read through a pointer into the image; reading nothing is always possible.\<close>

definition image_part :: "bytes \<Rightarrow> nat \<Rightarrow> u32 \<Rightarrow> bytes option" where
  "image_part img ofs n = (if n = 0 then Some []
     else if ofs + unat n \<le> length img then Some (slice ofs (unat n) img) else None)"

text \<open>
  What the code does once the file is in memory.  The start of the information is
  a difference of 32-bit lengths, so a trailer that claims more than there is gives a
  position far behind the image; the parts are found from that position by a
  32-bit count, added to a pointer of 64 bits, which does not wrap.
\<close>

definition verify_image :: "openssl \<Rightarrow> bytes \<Rightarrow> u32 \<Rightarrow> (SBCStatus \<times> LV option) io" where
  "verify_image ssl img len =
     (case image_part img (unat (len - FSBL_BNIFO_SIZE)) 8 of None \<Rightarrow> fail OutOfBounds
      | Some trailer \<Rightarrow>
        let b = bsinfo_of_bytes trailer; fsbl_len = len - FSBL_BNIFO_SIZE - bsinfolen b;
            infostart = unat fsbl_len; certcnt = banswlen b + fwinfolen b; sigcnt = certcnt + certlen b in
        case image_part img (infostart + unat certcnt) (certlen b) of None \<Rightarrow> fail OutOfBounds
        | Some cert \<Rightarrow> (case EcGetPublicKeyFromX509 ssl cert (ucast (certlen b)) of None \<Rightarrow> retn (SBCFAIL, None)
        | Some key \<Rightarrow> (case image_part img 0 fsbl_len of None \<Rightarrow> fail OutOfBounds
        | Some code \<Rightarrow> (case image_part img (infostart + unat sigcnt) (siglen b) of None \<Rightarrow> fail OutOfBounds
        | Some signature \<Rightarrow> (\<lambda>m.
            case SBC_HashCompute (Some code) (ucast fsbl_len) (Some (stale_bytes m 256)) of (ret, h) \<Rightarrow>
            if \<not> EcDsaVerify ssl key (the h) 32 signature (ucast (siglen b)) then Done (SBCFAIL, None) m
            else if \<not> pool_ok m (unat (banswlen b)) then Done (SBCNULLP, None) m
            else case image_part img infostart (banswlen b) of None \<Rightarrow> Faulted OutOfBounds m
            | Some answer \<Rightarrow> Done (ret, Some \<lparr>lv_length = banswlen b, lv_pad = 0, lv_value = Some answer\<rparr>) m)))))"

text \<open>
  The body of the check for the file at a path: the second stage applies it to
  one path, the first stage to another.
\<close>

definition verify_file :: "openssl \<Rightarrow> path \<Rightarrow> (SBCStatus \<times> LV option) io" where
  "verify_file ssl fblpath m =
     (let hndlcnt = SBC_FindEfiFileSystemProtocol m in
      case SBC_GetFileSize m fblpath 0 of
      (ret, n) \<Rightarrow>
        if ret \<noteq> SBCOK then Done (ret, None) m
        else let rdlv = lv_set_size n \<lparr>lv_length = 0, lv_pad = 0, lv_value = None\<rparr> in
          if \<not> pool_ok m (unat (lv_length rdlv)) then Done (SBCNULLP, None) m
          else andthen (SBC_FindFileBufHndl (Some fblpath) hndlcnt) (\<lambda>(ret, idx).
            if ret \<noteq> SBCOK then retn (ret, None)
            else andthen (SBC_ReadFile idx fblpath (rdlv\<lparr>lv_value := Some (zeros (unat (lv_length rdlv)))\<rparr>))
              (\<lambda>(retval, lv). if EFI_ERROR retval then retn (SBCIO, None)
                 else verify_image ssl (case lv_value lv of None \<Rightarrow> [] | Some b \<Rightarrow> b) (lv_length lv))) m)"

definition SBC_SSBL_Verify :: "openssl \<Rightarrow> blkhandle \<Rightarrow> u64 \<Rightarrow> (SBCStatus \<times> LV option) io" where
  "SBC_SSBL_Verify ssl blkhnd normbank = verify_file ssl FSBL_PATH"

section \<open>What changes nothing\<close>

lemma ro_serials [ro]: "readonly (baseboard_sn p)" "readonly (memorydevice_sn p)" "readonly (nvme_get_serial p)"
  by ((rule keepsI; auto simp: baseboard_sn_def memorydevice_sn_def nvme_get_serial_def split: option.splits sum.splits)+)

lemma ro_hw_info [ro]: "readonly hw_info"
  unfolding hw_info_def by (auto intro!: readonly_andthen ro split: prod.splits)

lemma ro_kernel_image_load [ro]: "readonly (kernel_image_load lv)"
  by (rule keepsI; auto simp: kernel_image_load_def Let_def final_readonly_andthen ro split: prod.splits option.splits exec.splits)

lemma ro_ssbl_image_load [ro]: "readonly (ssbl_image_load h lv n b)"
  by (rule keepsI; auto simp: ssbl_image_load_def Let_def final_readonly_andthen ro split: prod.splits exec.splits)

lemma ro_efi_boot_fsbl_load [ro]: "readonly (efi_boot_fsbl_load lv)"
  by (rule keepsI; auto simp: efi_boot_fsbl_load_def Let_def keepsD [OF ReadFile_world, symmetric] split: option.splits sum.splits)

lemma ro_ids [ro]: "readonly (SBC_GenDeviceID out)" "readonly (SBC_GenFWID h d out n b)" "readonly (SBC_GenOSID f out)"
  by ((rule keepsI; auto simp: SBC_GenDeviceID_def SBC_GenFWID_def SBC_GenOSID_def Let_def final_readonly_andthen ro
      split: prod.splits exec.splits option.splits)+)

lemma ro_hash_image [ro]: "readonly (hash_image f ofs)"
  by (rule keepsI; auto simp: hash_image_def Let_def split: prod.splits)

lemma ro_GenMigrationKey [ro]: "readonly (SBC_GenMigrationKey h c p out)"
  by (rule keepsI; auto simp: SBC_GenMigrationKey_def Let_def final_readonly_andthen ro split: prod.splits exec.splits)

lemma ro_verify_image [ro]: "readonly (verify_image ssl img len)"
  by (rule keepsI; auto simp: verify_image_def Let_def split: prod.splits option.splits)

lemma ro_verify_file [ro]: "readonly (verify_file ssl p)"
  by (rule keepsI; auto simp: verify_file_def Let_def keepsD [OF ro_verify_image, symmetric] final_readonly_andthen ro split: prod.splits exec.splits option.splits)

lemma ro_SSBL_Verify [ro]: "readonly (SBC_SSBL_Verify ssl h n)"
  by (simp add: SBC_SSBL_Verify_def ro)

section \<open>Signed images\<close>

text \<open>The lengths of a trailer as numbers, and a word sum without a carry.\<close>

definition trailer_lengths :: "bytes \<Rightarrow> nat \<times> nat \<times> nat \<times> nat" where
  "trailer_lengths t = (let b = bsinfo_of_bytes t in
     (unat (banswlen b), unat (fwinfolen b), unat (certlen b), unat (siglen b)))"

lemma small_lengths:
  "unat (siglen (bsinfo_of_bytes t)) < 256" "unat (fwinfolen (bsinfo_of_bytes t)) < 256"
  "unat (certlen (bsinfo_of_bytes t)) < 65536" "unat (banswlen (bsinfo_of_bytes t)) < 256"
proof -
  have b: "unat (ucast (x :: byte) :: u32) < 256" for x
    using unat_bound [of x] by (simp add: unsigned_ucast_eq take_bit_nat_eq_self)
  have w: "unat (ucast (x :: u16) :: u32) < 65536" for x
    using unat_bound [of x] by (simp add: unsigned_ucast_eq take_bit_nat_eq_self)
  show "unat (siglen (bsinfo_of_bytes t)) < 256" "unat (fwinfolen (bsinfo_of_bytes t)) < 256"
    "unat (certlen (bsinfo_of_bytes t)) < 65536" "unat (banswlen (bsinfo_of_bytes t)) < 256"
    by (simp_all add: bsinfo_of_bytes_def b w)
qed

lemma unat_bsinfolen:
  "unat (bsinfolen (bsinfo_of_bytes t)) = unat (siglen (bsinfo_of_bytes t)) + unat (fwinfolen (bsinfo_of_bytes t))
     + unat (certlen (bsinfo_of_bytes t)) + unat (banswlen (bsinfo_of_bytes t))"
  using small_lengths [of t] by (simp add: bsinfolen_def unat_word_ariths)

text \<open>
  A signed image: code, base answer, firmware information, certificate and
  signature, in this order, with a trailer that gives their lengths; the
  certificate holds a key under which the signature of the hash of the code is
  good.
\<close>

definition image_layout :: "bytes \<Rightarrow> bytes \<Rightarrow> bytes \<Rightarrow> bytes \<Rightarrow> bytes \<Rightarrow> bytes \<Rightarrow> bytes" where
  "image_layout code ans fw cert sg trailer = code @ ans @ fw @ cert @ sg @ trailer"

definition layout_ok :: "bytes \<Rightarrow> bytes \<Rightarrow> bytes \<Rightarrow> bytes \<Rightarrow> bytes \<Rightarrow> bytes \<Rightarrow> bool" where
  "layout_ok code ans fw cert sg trailer \<longleftrightarrow> length trailer = 8 \<and> code \<noteq> [] \<and>
     trailer_lengths trailer = (length ans, length fw, length cert, length sg) \<and>
     length (image_layout code ans fw cert sg trailer) < 2 ^ 32"

definition signature_good :: "openssl \<Rightarrow> bytes \<Rightarrow> bytes \<Rightarrow> bytes \<Rightarrow> bool" where
  "signature_good ssl code cert sg \<longleftrightarrow> (case ssl_x509_ec ssl cert of None \<Rightarrow> False
     | Some key \<Rightarrow> EcDsaVerify ssl key (sha256 code) 32 sg (word_of_nat (length sg)))"

lemma image_part_exact:
  assumes "img = pre @ x @ post" "ofs = length pre" "unat n = length x"
  shows "image_part img ofs n = Some x"
  using assms by (auto simp: image_part_def slice_def unat_eq_zero)

lemma verify_image_layout:
  assumes "layout_ok code ans fw cert sg trailer"
  defines "img \<equiv> image_layout code ans fw cert sg trailer"
  shows "verify_image ssl img (word_of_nat (length img)) m =
    (if \<not> signature_good ssl code cert sg then Done (SBCFAIL, None) m
     else if \<not> pool_ok m (length ans) then Done (SBCNULLP, None) m
     else Done (SBCOK, Some \<lparr>lv_length = word_of_nat (length ans), lv_pad = 0, lv_value = Some ans\<rparr>) m)"
proof -
  let ?b = "bsinfo_of_bytes trailer"
  define len where "len = (word_of_nat (length img) :: u32)"
  define f where "f = len - FSBL_BNIFO_SIZE - bsinfolen ?b"
  have lt: "length trailer = 8" "code \<noteq> []" "length img < 2 ^ 32"
    and lens: "unat (banswlen ?b) = length ans" "unat (fwinfolen ?b) = length fw"
      "unat (certlen ?b) = length cert" "unat (siglen ?b) = length sg"
    using assms by (auto simp: layout_ok_def trailer_lengths_def Let_def)
  have ilen: "length img = length code + length ans + length fw + length cert + length sg + 8"
    using lt(1) by (simp add: img_def image_layout_def)
  have ulen: "unat len = length img" using lt(3) by (simp add: len_def unat_of_nat)
  have bl: "unat (bsinfolen ?b) = length ans + length fw + length cert + length sg"
    using lens by (simp add: unat_bsinfolen)
  have t: "unat (len - FSBL_BNIFO_SIZE) = length img - 8"
    using ulen ilen by (subst unat_sub) (simp_all add: word_le_nat_alt)
  have uf: "unat f = length code"
    using t bl ilen unfolding f_def by (subst unat_sub) (simp_all add: word_le_nat_alt)
  have u2: "unat (banswlen ?b + fwinfolen ?b) = length ans + length fw"
    using lens lt(3) ilen by (simp add: unat_word_ariths)
  have u3: "unat (banswlen ?b + fwinfolen ?b + certlen ?b) = length ans + length fw + length cert"
    using u2 lens lt(3) ilen by (simp add: unat_word_ariths)
  note lay = img_def image_layout_def
  have p0: "image_part img (unat (len - FSBL_BNIFO_SIZE)) 8 = Some trailer"
    using t ilen lt(1) by (intro image_part_exact [where pre = "code @ ans @ fw @ cert @ sg" and post = "[]"]) (simp_all add: lay)
  have p1: "image_part img (unat f + unat (banswlen ?b + fwinfolen ?b)) (certlen ?b) = Some cert"
    using uf u2 lens by (intro image_part_exact [where pre = "code @ ans @ fw" and post = "sg @ trailer"]) (simp_all add: lay)
  have p2: "image_part img 0 f = Some code"
    using uf by (intro image_part_exact [where pre = "[]" and post = "ans @ fw @ cert @ sg @ trailer"]) (simp_all add: lay)
  have p3: "image_part img (unat f + unat (banswlen ?b + fwinfolen ?b + certlen ?b)) (siglen ?b) = Some sg"
    using uf u3 lens by (intro image_part_exact [where pre = "code @ ans @ fw @ cert" and post = trailer]) (simp_all add: lay)
  have p4: "image_part img (unat f) (banswlen ?b) = Some ans"
    using uf lens by (intro image_part_exact [where pre = code and post = "fw @ cert @ sg @ trailer"]) (simp_all add: lay)
  have hash: "SBC_HashCompute (Some code) (ucast f) (Some out) = (SBCOK, Some (sha256 code))" for out
    using uf lt(2) by (simp add: word_less_nat_alt)
  have certl: "\<not> INT_MAX < ucast (certlen ?b)" "take (unat (ucast (certlen ?b) :: u64)) cert = cert"
    using small_lengths [of trailer] lens by (simp_all add: word_less_nat_alt)
  have sgl: "(ucast (siglen ?b) :: u64) = word_of_nat (length sg)" "banswlen ?b = word_of_nat (length ans)"
    by (simp_all flip: lens)
  show ?thesis
    using p0 p1 p2 p3 p4 certl lens
    by (auto simp: verify_image_def hash Let_def f_def [symmetric] len_def [symmetric] EcGetPublicKeyFromX509_def signature_good_def sgl
        split: option.splits)
qed

lemma no_wrap:
  assumes "n = (k + j + 8) mod 2 ^ 32" "j < (70000 :: nat)" "k \<le> n"
  shows "n = k + j + 8"
proof (cases "k + j + 8 < 2 ^ 32")
  case False
  moreover have "n < 2 ^ 32" using assms(1) by simp
  ultimately have "n = k + j + 8 - 2 ^ 32" using assms by (simp add: le_mod_geq)
  then show ?thesis using assms False by simp
qed (use assms in simp)

lemma cut_image:
  "length img = f + a + b + c + d + e \<Longrightarrow> slice 0 f img @ slice f a img @ slice (f + a) b img @ slice (f + a + b) c img @
     slice (f + a + b + c) d img @ slice (f + a + b + c + d) e img = img"
  by (simp add: slice_join add.assoc) (simp add: slice_def)

lemma image_part_slice:
  "image_part img ofs n = Some x \<Longrightarrow> ofs + unat n \<le> length img \<Longrightarrow> x = slice ofs (unat n) img"
  by (auto simp: image_part_def slice_def unat_eq_zero split: if_splits)

lemma verify_image_accepts:
  assumes "verify_image ssl img (word_of_nat (length img)) m = Done (SBCOK, a) m'" "length img < 2 ^ 32"
  obtains code ans fw cert sg trailer where "layout_ok code ans fw cert sg trailer"
    "img = image_layout code ans fw cert sg trailer" "signature_good ssl code cert sg"
    "a = Some \<lparr>lv_length = word_of_nat (length ans), lv_pad = 0, lv_value = Some ans\<rparr>"
proof -
  define len where "len = (word_of_nat (length img) :: u32)"
  have ulen: "unat len = length img" using assms(2) by (simp add: len_def unat_of_nat)
  obtain trailer where p0: "image_part img (unat (len - FSBL_BNIFO_SIZE)) 8 = Some trailer"
    using assms(1) by (auto simp: verify_image_def len_def split: option.splits)
  let ?b = "bsinfo_of_bytes trailer"
  define f where "f = len - FSBL_BNIFO_SIZE - bsinfolen ?b"
  have f0: "f \<noteq> 0" using assms(1) p0
    by (auto simp: verify_image_def Let_def len_def [symmetric] f_def [symmetric] split: option.splits prod.splits if_splits)
  obtain code where p2: "image_part img 0 f = Some code"
    using assms(1) p0
    by (auto simp: verify_image_def Let_def len_def [symmetric] f_def [symmetric] split: option.splits)
  then have F: "unat f \<le> length img" using f0 by (auto simp: image_part_def split: if_splits)
  have "len = word_of_nat (unat f + unat (bsinfolen ?b) + 8)" by (simp add: f_def)
  then have "length img = (unat f + unat (bsinfolen ?b) + 8) mod 2 ^ 32"
    unfolding ulen [symmetric] by (simp only: unat_of_nat) simp
  moreover have "unat (bsinfolen ?b) < 70000" using small_lengths [of trailer] by (simp add: unat_bsinfolen)
  ultimately have sum: "length img = unat f + unat (bsinfolen ?b) + 8"
    using F assms(2) by (intro no_wrap)
  let ?na = "unat (banswlen ?b)" and ?nf = "unat (fwinfolen ?b)" and ?nc = "unat (certlen ?b)" and ?ns = "unat (siglen ?b)"
  have tot: "length img = unat f + ?na + ?nf + ?nc + ?ns + 8" using sum by (simp add: unat_bsinfolen)
  have t: "unat (len - FSBL_BNIFO_SIZE) = unat f + ?na + ?nf + ?nc + ?ns"
    using ulen tot by (subst unat_sub) (simp_all add: word_le_nat_alt)
  define ans fw cert sg where parts: "ans = slice (unat f) ?na img" "fw = slice (unat f + ?na) ?nf img"
    "cert = slice (unat f + ?na + ?nf) ?nc img" "sg = slice (unat f + ?na + ?nf + ?nc) ?ns img"
  have code: "code = slice 0 (unat f) img" using image_part_slice [OF p2] F by simp
  have tr: "trailer = slice (unat f + ?na + ?nf + ?nc + ?ns) 8 img" using image_part_slice [OF p0] t tot by simp
  have img: "img = image_layout code ans fw cert sg trailer"
    unfolding image_layout_def code parts using cut_image [OF tot, folded tr] by simp
  have ls: "length trailer = 8" "length ans = ?na" "length fw = ?nf" "length cert = ?nc" "length sg = ?ns" "length code = unat f"
    using tot arg_cong [OF tr, of length] by (simp_all add: parts code length_slice)
  have lay: "layout_ok code ans fw cert sg trailer"
    using f0 ls assms(2) by (auto simp: layout_ok_def trailer_lengths_def Let_def unat_eq_zero simp flip: img)
  show ?thesis
  proof (rule that [OF lay img])
    have eq: "verify_image ssl img (word_of_nat (length img)) m = Done (SBCOK, a) m'" using assms(1) .
    show "signature_good ssl code cert sg"
      "a = Some \<lparr>lv_length = word_of_nat (length ans), lv_pad = 0, lv_value = Some ans\<rparr>"
      using eq verify_image_layout [OF lay, of ssl m, folded img] by (auto split: if_splits)
  qed
qed

section \<open>From the file to the image\<close>

lemma verify_file_whole:
  assumes "readable_file m p v img"
  shows "verify_file ssl p m = verify_image ssl img (word_of_nat (length img)) m"
proof -
  have ff: "first_file m p v (RegFile img)" and len: "length img < 2 ^ 32"
    using assms by (auto simp: readable_file_def)
  obtain vol where vol: "volumes m ! v = Some vol" "\<not> EFI_ERROR (vol_read vol)"
    using assms by (auto simp: readable_file_def)
  let ?n = "word_of_nat (length img) :: u64" and ?z = "\<lparr>lv_length = 0, lv_pad = 0, lv_value = None\<rparr>"
  have sz: "lv_set_size ?n ?z = ?z\<lparr>lv_length := word_of_nat (length img)\<rparr>"
    using len by (simp add: lv_set_size_small)
  have rd: "SBC_ReadFile v p (?z\<lparr>lv_length := word_of_nat (length img), lv_value := Some (zeros (length img))\<rparr>) m
      = Done (EFI_SUCCESS, ?z\<lparr>lv_length := word_of_nat (length img), lv_value := Some img\<rparr>) m"
    using ff len vol
    by (subst ReadFile_whole [where content = img and v = vol and buf = "zeros (length img)"]) (auto simp: first_file_def)
  show ?thesis
    using assms first_file_found [OF ff] sz rd len
    by (simp add: verify_file_def SBC_FindEfiFileSystemProtocol_def readable_file_def Let_def
        andthen_Done node_size_def unat_of_nat EFI_ERROR_def)
qed

text \<open>
  Conversely, a good result comes from a file that was read whole: a file of four
  gigabytes or more overruns the buffer.
\<close>

lemma verify_image_empty: "verify_image ssl [] len m = Faulted OutOfBounds m"
  by (simp add: verify_image_def image_part_def)

lemma verify_file_reads:
  assumes ok: "verify_file ssl p m = Done (SBCOK, a) m'"
    and short: "\<And>v c. first_file m p v (RegFile c) \<Longrightarrow> length c < 2 ^ 64"
  obtains v img where "first_file m p v (RegFile img)" "length img < 2 ^ 32"
    "verify_image ssl img (word_of_nat (length img)) m = Done (SBCOK, a) m'"
proof -
  let ?z = "\<lparr>lv_length = 0, lv_pad = 0, lv_value = None\<rparr>"
  obtain n where n: "SBC_GetFileSize m p 0 = (SBCOK, n)"
    using ok by (cases "SBC_GetFileSize m p 0") (auto simp: verify_file_def Let_def split: if_splits)
  then have "volumes m \<noteq> []" by (auto simp: SBC_GetFileSize_def SBC_FindEfiFileSystemProtocol_def)
  then obtain v node where v: "SBC_FindFileBufHndl (Some p) (SBC_FindEfiFileSystemProtocol m) m = Done (SBCOK, v) m"
    "first_file m p v node" "n = (if info_ok m v then word_of_nat (node_size node) else 0)"
    using find_file_agrees [OF _ n] unfolding first_file_def by blast
  define lv0 where "lv0 = (lv_set_size n ?z)\<lparr>lv_value := Some (zeros (unat (lv_length (lv_set_size n ?z))))\<rparr>"
  have lv0: "lv_size lv0 = n" "lv_value lv0 = Some (zeros (unat (ucast n :: u32)))"
    by (simp_all add: lv0_def) (simp add: lv_set_size_def)
  obtain st lv m1 where rd: "SBC_ReadFile v p lv0 m = Done (st, lv) m1" "\<not> EFI_ERROR st"
    "verify_image ssl (case lv_value lv of None \<Rightarrow> [] | Some b \<Rightarrow> b) (lv_length lv) m1 = Done (SBCOK, a) m'"
    using ok n v(1) by (auto simp: verify_file_def Let_def andthen_eq_Done lv0_def split: if_splits)
  have m1: "m1 = m" using readonly_Done [OF ReadFile_world rd(1)] .
  have op: "fs_open m v p = Inr node" using v(2) by (simp add: first_file_def)
  then obtain img where img: "node = RegFile img" using rd
    by (cases node) (auto simp: SBC_ReadFile_def EFI_ERROR_def)
  have "info_ok m v"
  proof (rule ccontr)
    assume "\<not> info_ok m v"
    then have "lv_size lv0 = 0" "lv_value lv0 = Some []" using v(3) lv0 by (simp_all add: zeros_def)
    then have "lv_value lv = Some []" using rd op img
      by (auto simp: SBC_ReadFile_def EFI_ERROR_def Let_def overlay_def split: option.splits if_splits)
    then show False using rd(3) verify_image_empty [of ssl "lv_length lv" m1] by simp
  qed
  then have size: "n = word_of_nat (node_size node)" using v(3) by simp
  have n_len: "unat n = length img" using short [of v img] v(2) size img by (simp add: node_size_def unat_of_nat)
  have n_word: "word_of_nat (length img) = n" by (simp flip: n_len)
  obtain vol where "volumes m ! v = Some vol" "\<not> EFI_ERROR (vol_read vol)"
    using rd op img by (auto simp: SBC_ReadFile_def EFI_ERROR_def split: option.splits if_splits)
  then have fits: "length img \<le> unat (ucast n :: u32)" and lv: "lv = (lv_set_size n lv0)\<lparr>lv_value := Some (overlay 0 img (zeros (unat (ucast n :: u32))))\<rparr>"
    using rd op img n_len by (auto simp: SBC_ReadFile_def Let_def n_word lv0 split: if_splits)
  then have small: "length img < 2 ^ 32" using unat_bound [of "ucast n :: u32"] by simp
  then have "unat (ucast n :: u32) = length img"
    using n_len by (simp add: unsigned_ucast_eq take_bit_nat_eq_self)
  then have "lv_value lv = Some img" "lv_length lv = word_of_nat (length img)"
    using lv small size img by (simp_all add: overlay_def lv_set_size_small node_size_def)
  then show ?thesis using that [of v img] rd(3) m1 v(2) img small by simp
qed

lemma SSBL_Verify_file:
  "readable_file m FSBL_PATH v img \<Longrightarrow> SBC_SSBL_Verify ssl h b m = verify_image ssl img (word_of_nat (length img)) m"
  by (simp only: SBC_SSBL_Verify_def verify_file_whole)

section \<open>Signed files\<close>

definition signed_at :: "openssl \<Rightarrow> machine \<Rightarrow> path \<Rightarrow> bool" where
  "signed_at ssl m p \<longleftrightarrow> (\<exists>v code ans fw cert sg trailer. layout_ok code ans fw cert sg trailer \<and> signature_good ssl code cert sg \<and>
     first_file m p v (RegFile (image_layout code ans fw cert sg trailer)))"

lemma verified_signed_at:
  assumes "verify_file ssl p m = Done (SBCOK, Some ans) m" "\<And>v c. first_file m p v (RegFile c) \<Longrightarrow> length c < 2 ^ 64"
  shows "signed_at ssl m p"
proof -
  obtain v img where img: "first_file m p v (RegFile img)" "length img < 2 ^ 32"
    "verify_image ssl img (word_of_nat (length img)) m = Done (SBCOK, Some ans) m"
    by (rule verify_file_reads [OF assms(1)]) (use assms(2) in blast)+
  obtain code an fw cert sg trailer where lay: "layout_ok code an fw cert sg trailer"
    "img = image_layout code an fw cert sg trailer" "signature_good ssl code cert sg"
    by (rule verify_image_accepts [OF img(3,2)])
  show ?thesis unfolding signed_at_def
    by (intro exI conjI) (rule lay(1), rule lay(3), rule img(1) [unfolded lay(2)])
qed

section \<open>What the identifiers are made of\<close>

lemma hash_tail [simp]:
  "take (64 - min n SBC_AT_HASH_LEN) (sha256 x) = sha256 x"
  by simp

lemma ucast_pos: "(w :: u32) \<noteq> 0 \<Longrightarrow> 0 < (ucast w :: u64)"
proof -
  assume "w \<noteq> 0"
  then have "unat w \<noteq> 0" by (simp add: unat_eq_zero)
  then show ?thesis by (simp add: word_less_nat_alt)
qed

lemma GenFWID_value:
  assumes "SBC_GenFWID h d out n b m = Done (SBCOK, f) m'" "SBC_AT_HASH_LEN \<le> length d"
  shows "f = sha256 (take SBC_AT_HASH_LEN d @ sha256 (zeros SBC_AT_HASH_LEN))"
  using assms by (auto simp: SBC_GenFWID_def andthen_eq_Done Let_def split: if_splits prod.splits)

lemma smbios_serial_bound: "smbios_serial fld r = Inr (Some s) \<Longrightarrow> length s \<le> 64"
  by (simp add: smbios_serial_def Let_def split: if_splits option.splits)

lemma smbios_scan_bound: "smbios_scan ty fld rs sn = Inr s \<Longrightarrow> length sn \<le> 64 \<Longrightarrow> length s \<le> 64"
  by (induction rs arbitrary: sn) (auto split: if_splits sum.splits option.splits dest: smbios_serial_bound)

lemma trim_serial_bound: "length (trim_serial s) \<le> length s"
proof -
  have "length (trim_serial s) \<le> length (rev (dropWhile (\<lambda>b. b = 32) (rev s)))"
    unfolding trim_serial_def by (rule length_takeWhile_le)
  also have "\<dots> \<le> length s" using length_dropWhile_le [of "\<lambda>b. b = 32" "rev s"] by simp
  finally show ?thesis .
qed

lemma nvme_scan_bound: "nvme_serial_scan cs mem = Some sn \<Longrightarrow> length sn \<le> 20"
  by (induction cs mem rule: nvme_serial_scan.induct)
    (auto simp: slice_def split: if_splits intro!: order_trans [OF trim_serial_bound])

lemma serial_bounds:
  "baseboard_sn p m = Done (r, q) m' \<Longrightarrow> length (mbsn p) \<le> 64 \<Longrightarrow> length (mmsn p) \<le> 64 \<Longrightarrow>
     length (mbsn q) \<le> 64 \<and> length (mmsn q) \<le> 64 \<and> nvmesn q = nvmesn p"
  "memorydevice_sn p m = Done (r, q) m' \<Longrightarrow> length (mmsn p) \<le> 64 \<Longrightarrow>
     length (mmsn q) \<le> 64 \<and> mbsn q = mbsn p \<and> nvmesn q = nvmesn p"
  "nvme_get_serial p m = Done (r, q) m' \<Longrightarrow> length (nvmesn p) \<le> 20 \<Longrightarrow>
     length (nvmesn q) \<le> 20 \<and> mbsn q = mbsn p \<and> mmsn q = mmsn p"
  by (auto simp: baseboard_sn_def memorydevice_sn_def nvme_get_serial_def
      split: option.splits sum.splits if_splits dest: smbios_scan_bound nvme_scan_bound)

lemma hw_info_bounds:
  assumes "hw_info m = Done info m'"
  shows "length (mbsn info) \<le> 64" "length (mmsn info) \<le> 64" "length (nvmesn info) \<le> 20"
proof -
  obtain r1 i1 m1 r2 i2 m2 r3 where
    1: "baseboard_sn zero_info m = Done (r1, i1) m1" and 2: "memorydevice_sn i1 m1 = Done (r2, i2) m2"
    and 3: "nvme_get_serial i2 m2 = Done (r3, info) m'"
    using assms by (auto simp: hw_info_def andthen_eq_Done)
  show "length (mbsn info) \<le> 64" "length (mmsn info) \<le> 64" "length (nvmesn info) \<le> 20"
    using serial_bounds(1) [OF 1] serial_bounds(2) [OF 2] serial_bounds(3) [OF 3] by (simp_all add: zero_info_def)
qed

section \<open>Serial numbers of well-formed tables\<close>

text \<open>
  A record as the SMBIOS specification describes it: the formatted area and the
  strings behind it, each ended by a zero byte, with one more zero byte at the end and
  two when there is no string.
\<close>

type_synonym smbios_record = "bytes \<times> bytes list"

definition smbios_strings :: "bytes list \<Rightarrow> bytes" where
  "smbios_strings ss = concat (map (\<lambda>s. s @ [0]) ss) @ (if ss = [] then [0, 0] else [0])"

definition smbios_bytes :: "smbios_record \<Rightarrow> bytes" where
  "smbios_bytes r = fst r @ smbios_strings (snd r)"

definition smbios_field_ok :: "byte \<Rightarrow> nat \<Rightarrow> smbios_record \<Rightarrow> bool" where
  "smbios_field_ok ty fld r \<longleftrightarrow> 2 \<le> length (fst r) \<and> unat (fst r ! 1) = length (fst r) \<and>
     list_all (\<lambda>s. 0 \<notin> set s) (snd r) \<and>
     (hd (fst r) = ty \<longrightarrow> fld < length (fst r) \<and> unat (fst r ! fld) \<le> length (snd r))"

text \<open>The serial numbers the records of a type name, in their order.\<close>

definition smbios_serials :: "byte \<Rightarrow> nat \<Rightarrow> smbios_record list \<Rightarrow> bytes list" where
  "smbios_serials ty fld recs = map (\<lambda>r. snd r ! (unat (fst r ! fld) - 1))
     (filter (\<lambda>r. hd (fst r) = ty \<and> fst r ! fld \<noteq> 0) recs)"

lemma string_behind:
  assumes "0 \<notin> set s"
  shows "c_string (s @ 0 # t) = Some s" "skip_string (s @ 0 # t) = Some t"
  using assms by (induction s) simp_all

lemma skip_numbered:
  assumes "list_all (\<lambda>s. 0 \<notin> set s) ss" "n < length ss"
  shows "\<exists>t. skip_strings n (concat (map (\<lambda>s. s @ [0]) ss) @ [0]) = Some (ss ! n @ 0 # t)"
  using assms
proof (induction n arbitrary: ss)
  case 0
  then show ?case by (cases ss) auto
next
  case (Suc n)
  then obtain s rest where ss: "ss = s # rest" by (cases ss) auto
  then show ?case using Suc.IH [of rest] Suc.prems by (simp add: string_behind)
qed

lemma smbios_serial_record:
  assumes "smbios_field_ok ty fld r" "hd (fst r) = ty"
  shows "smbios_serial fld (smbios_bytes r) = (if fst r ! fld = 0 then Inr None
    else let sn = snd r ! (unat (fst r ! fld) - 1) in if 64 < length sn then Inl OutOfBounds else Inr (Some sn))"
proof (cases "fst r ! fld = 0")
  case True
  then show ?thesis using assms by (auto simp: smbios_serial_def smbios_bytes_def smbios_field_ok_def nth_append Let_def)
next
  case False
  then have nz: "unat (fst r ! fld) \<noteq> 0" by (simp add: unat_eq_0)
  moreover have "unat (fst r ! fld) \<le> length (snd r)" using assms by (simp add: smbios_field_ok_def)
  ultimately have n: "unat (fst r ! fld) - 1 < length (snd r)" "unat (fst r ! fld) \<noteq> 0" by linarith+
  then have "snd r \<noteq> []" by auto
  moreover obtain t where "skip_strings (unat (fst r ! fld) - 1) (concat (map (\<lambda>s. s @ [0]) (snd r)) @ [0]) =
      Some (snd r ! (unat (fst r ! fld) - 1) @ 0 # t)"
    using skip_numbered [OF _ n(1)] assms(1) by (auto simp: smbios_field_ok_def)
  moreover have "0 \<notin> set (snd r ! (unat (fst r ! fld) - 1))"
    using n(1) assms(1) by (auto simp: smbios_field_ok_def list_all_length)
  ultimately show ?thesis using assms False n(2)
    by (auto simp: smbios_serial_def smbios_bytes_def smbios_strings_def smbios_field_ok_def nth_append string_behind Let_def)
qed

lemma smbios_scan_records:
  assumes "list_all (smbios_field_ok ty fld) recs"
  shows "smbios_scan ty fld (map smbios_bytes recs) sn =
    (if list_all (\<lambda>s. length s \<le> 64) (smbios_serials ty fld recs) then Inr (last (sn # smbios_serials ty fld recs))
     else Inl OutOfBounds)"
  using assms
proof (induction recs arbitrary: sn)
  case Nil
  then show ?case by (simp add: smbios_serials_def)
next
  case (Cons r recs)
  have "fst r \<noteq> []" using Cons.prems by (auto simp: smbios_field_ok_def)
  then have "smbios_bytes r \<noteq> []" "hd (smbios_bytes r) = hd (fst r)" by (simp_all add: smbios_bytes_def)
  then show ?case using Cons smbios_serial_record [of ty fld r] by (auto simp: smbios_serials_def Let_def)
qed

text \<open>A controller answers with four bytes and the serial number padded by spaces; those before it do not answer.\<close>

definition nvme_answer :: "bytes \<Rightarrow> bytes \<Rightarrow> bytes option list \<Rightarrow> bool" where
  "nvme_answer sn rest cs \<longleftrightarrow> length sn \<le> 20 \<and> 0 \<notin> set sn \<and> (sn = [] \<or> last sn \<noteq> 32) \<and>
     (\<exists>vid. length vid = 4 \<and> dropWhile (\<lambda>c. c = None) cs \<noteq> [] \<and>
       hd (dropWhile (\<lambda>c. c = None) cs) = Some (vid @ sn @ replicate (20 - length sn) 32 @ rest))"

lemma trim_padded:
  assumes "0 \<notin> set sn" "sn = [] \<or> last sn \<noteq> 32"
  shows "trim_serial (sn @ replicate k 32) = sn"
proof -
  have "dropWhile (\<lambda>b. b = 32) (replicate k 32 @ rev sn) = rev sn"
    using assms(2) by (induction k) (auto simp: dropWhile_eq_self_iff hd_rev)
  then show ?thesis using assms(1) by (simp add: trim_serial_def takeWhile_eq_all_conv) metis
qed

lemma nvme_scan_answer:
  assumes "nvme_answer sn rest cs"
  shows "nvme_serial_scan cs True = Some sn"
  using assms
proof (induction cs "True" rule: nvme_serial_scan.induct)
  case (3 ident cs)
  then show ?case using trim_padded [of "[]" 20] by (auto simp: nvme_answer_def slice_def trim_padded)
qed (simp_all add: nvme_answer_def)

lemma hw_info_tables:
  assumes "smbios m = Some (map smbios_bytes recs)"
    and "list_all (smbios_field_ok SMBIOS_TYPE_BASEBOARD_INFORMATION 7) recs" "list_all (smbios_field_ok SMBIOS_TYPE_MEMORY_DEVICE 24) recs"
    and "nvme_answer sn rest (nvme_identify m)" "pool_ok m 4096"
  shows "hw_info m =
    (let board = smbios_serials SMBIOS_TYPE_BASEBOARD_INFORMATION 7 recs; memory = smbios_serials SMBIOS_TYPE_MEMORY_DEVICE 24 recs in
     if list_all (\<lambda>s. length s \<le> 64) (board @ memory)
     then Done \<lparr>mbsn = last ([] # board), mmsn = last ([] # memory), nvmesn = sn\<rparr> m
     else Faulted OutOfBounds m)"
proof -
  have "nvme_identify m \<noteq> []" using assms(4) by (auto simp: nvme_answer_def)
  then have nv: "nvme_get_serial p m = Done (SBCOK, p\<lparr>nvmesn := sn\<rparr>) m" for p
    using nvme_scan_answer [OF assms(4)] assms(5) by (simp add: nvme_get_serial_def)
  show ?thesis
    using smbios_scan_records [OF assms(2)] smbios_scan_records [OF assms(3)]
    by (simp add: hw_info_def baseboard_sn_def memorydevice_sn_def assms(1) andthen_def nv zero_info_def Let_def)
qed

definition hw_bytes :: "hw_uniqueinfo \<Rightarrow> bytes" where
  "hw_bytes info = mbsn info @ mmsn info @ nvmesn info"

lemma hw_bytes_bound: "hw_info m = Done info m' \<Longrightarrow> length (hw_bytes info) \<le> 148"
  using hw_info_bounds [of m info m'] by (simp add: hw_bytes_def)

lemma GenDeviceID_value:
  assumes "SBC_GenDeviceID out m = Done (SBCOK, d) m'"
  shows "\<exists>info st lv img. hw_info m = Done info m
    \<and> efi_boot_fsbl_load \<lparr>lv_length = 0, lv_pad = 0, lv_value = None\<rparr> m = Done (st, lv) m
    \<and> lv_value lv = Some img \<and> SBC_AT_HASH_LEN \<le> length img
    \<and> d = sha256 (hw_bytes info @ take SBC_AT_HASH_LEN img)"
proof -
  let ?lv0 = "\<lparr>lv_length = 0, lv_pad = 0, lv_value = None\<rparr>"
  obtain info where info: "hw_info m = Done info m"
    using assms readonly_Done [OF ro_hw_info] by (fastforce simp: SBC_GenDeviceID_def andthen_eq_Done)
  obtain st lv where lv: "efi_boot_fsbl_load ?lv0 m = Done (st, lv) m"
    using assms info readonly_Done [OF ro_efi_boot_fsbl_load]
    by (fastforce simp: SBC_GenDeviceID_def andthen_eq_Done andthen_Done)
  define msg where "msg i = hw_bytes info @ take SBC_AT_HASH_LEN i" for i
  obtain img h where img: "lv_value lv = Some img" "SBC_AT_HASH_LEN \<le> length img"
    "SBC_HashCompute (Some (msg img)) (word_of_nat (length (msg img))) (Some out) = (SBCOK, h)"
    "d = (case h of None \<Rightarrow> out | Some x \<Rightarrow> x)"
    using assms info lv
    by (cases "lv_value lv")
      (auto simp: SBC_GenDeviceID_def andthen_Done msg_def hw_bytes_def Let_def not_less split: prod.splits if_splits)
  have "length (msg img) \<le> 180" "0 < length (msg img)" using hw_bytes_bound [OF info] img(2) by (simp_all add: msg_def)
  then have "0 < (word_of_nat (length (msg img)) :: u64)" "unat (word_of_nat (length (msg img)) :: u64) = length (msg img)"
    by (simp_all add: unat_of_nat word_less_nat_alt)
  then show ?thesis using info lv img by (auto simp: msg_def)
qed

section \<open>What the migration key is made of\<close>

text \<open>An image of a bank on the medium: a length word and that many bytes.\<close>

definition bank_image :: "nvme_device \<Rightarrow> nat \<Rightarrow> bytes" where
  "bank_image dev a = dev_bytes dev (a + 4) (unat (rd32 (dev_bytes dev a 4)))"

definition image_fits :: "nvme_device \<Rightarrow> nat \<Rightarrow> nat \<Rightarrow> bool" where
  "image_fits dev a ofs \<longleftrightarrow> bank_image dev (a + ofs) \<noteq> [] \<and> ofs + 4 + length (bank_image dev (a + ofs)) \<le> unat BOOT_FW_IMGMAX"

lemma hash_image_bank:
  assumes "image_fits dev a ofs" "length fwinf = unat BOOT_FW_IMGMAX"
    and same: "\<And>k n. ofs \<le> k \<Longrightarrow> k + n \<le> unat BOOT_FW_IMGMAX \<Longrightarrow> slice k n fwinf = dev_bytes dev (a + k) n"
  shows "hash_image fwinf ofs m = Done (SBCOK, sha256 (bank_image dev (a + ofs))) m"
proof -
  define len where "len = rd32 (dev_bytes dev (a + ofs) 4)"
  have len: "length (bank_image dev (a + ofs)) = unat len" by (simp add: bank_image_def len_def)
  have fit: "ofs + 4 + unat len \<le> unat BOOT_FW_IMGMAX" "unat len \<noteq> 0"
    using assms(1) by (auto simp: image_fits_def simp flip: len)
  have word: "rd32 (slice ofs 4 fwinf) = len" using same [of ofs 4] fit by (simp add: len_def)
  have "take (unat len) (drop (ofs + 4) fwinf) = bank_image dev (a + ofs)"
    using same [of "ofs + 4" "unat len"] fit by (simp add: slice_def bank_image_def len_def add.assoc)
  moreover have "len \<noteq> 0" using fit(2) by auto
  ultimately show ?thesis using fit assms(2) word ucast_pos [of len] by (simp add: hash_image_def Let_def)
qed

definition migration_ok :: "machine \<Rightarrow> nat \<Rightarrow> nvme_device \<Rightarrow> hw_uniqueinfo \<Rightarrow> u32 \<Rightarrow> u32 \<Rightarrow> bool" where
  "migration_ok m i dev info cur prev \<longleftrightarrow> blkdev m i = Some dev \<and> hw_info m = Done info m \<and> hw_bytes info \<noteq> [] \<and>
     pool_ok m (unat BOOT_FW_IMGMAX) \<and> pool_ok m (length (hw_bytes info)) \<and> pool_ok m (6 * SBC_AT_HASH_LEN) \<and>
     servable dev (bank_startlba cur) BOOT_FW_IMGMAX \<and> servable dev (bank_startlba prev) 512 \<and>
     (let a = unat (bank_startlba cur) * 512 in image_fits dev a 0 \<and> image_fits dev a SSBLN_OFS \<and> image_fits dev a OSLN_OFS)"

definition migration_key :: "bytes \<Rightarrow> bytes \<Rightarrow> bytes \<Rightarrow> bytes \<Rightarrow> bytes" where
  "migration_key hw fsbl ssbl os = sha256 (sha256 hw @ sha256 fsbl @ sha256 ssbl @ sha256 os
     @ sha256 ssbl @ sha256 os)"

lemma GenMigrationKey_value:
  assumes ok: "migration_ok m i dev info cur prev"
  shows "SBC_GenMigrationKey (Some i) cur prev out m =
    (let a = unat (bank_startlba cur) * 512 in
     Done (SBCOK, migration_key (hw_bytes info) (bank_image dev a) (bank_image dev (a + SSBLN_OFS)) (bank_image dev (a + OSLN_OFS))) m)"
proof -
  define a where "a = unat (bank_startlba cur) * 512"
  define buf where "buf = dev_bytes dev a (unat BOOT_FW_IMGMAX)"
  define buf2 where "buf2 = overlay 0 (dev_bytes dev (unat (bank_startlba prev) * 512) 512) (overlay 0 (zeros 8) buf)"
  have dev: "blkdev m i = Some dev" "hw_info m = Done info m" "servable dev (bank_startlba cur) BOOT_FW_IMGMAX"
    "servable dev (bank_startlba prev) 512" "image_fits dev a 0" "image_fits dev a SSBLN_OFS" "image_fits dev a OSLN_OFS"
    using ok by (simp_all add: migration_ok_def Let_def a_def)
  have len: "length buf = unat BOOT_FW_IMGMAX" "length buf2 = unat BOOT_FW_IMGMAX"
    by (simp_all add: buf_def buf2_def length_overlay)
  have s1: "slice k n buf = dev_bytes dev (a + k) n" if "k + n \<le> unat BOOT_FW_IMGMAX" for k n
    unfolding buf_def using that by (rule slice_dev_bytes)
  have s2: "slice k n buf2 = dev_bytes dev (a + k) n" if "512 \<le> k" "k + n \<le> unat BOOT_FW_IMGMAX" for k n
    using that s1 [of k n] len unfolding buf2_def by (simp add: slice_overlay_other length_overlay)
  have h: "hash_image buf 0 m = Done (SBCOK, sha256 (bank_image dev a)) m"
    "hash_image buf SSBLN_OFS m = Done (SBCOK, sha256 (bank_image dev (a + SSBLN_OFS))) m"
    "hash_image buf OSLN_OFS m = Done (SBCOK, sha256 (bank_image dev (a + OSLN_OFS))) m"
    "hash_image buf2 SSBLN_OFS m = Done (SBCOK, sha256 (bank_image dev (a + SSBLN_OFS))) m"
    "hash_image buf2 OSLN_OFS m = Done (SBCOK, sha256 (bank_image dev (a + OSLN_OFS))) m"
    using hash_image_bank [OF dev(5) len(1) s1, of m] by simp
      (rule hash_image_bank [OF dev(6) len(1) s1] hash_image_bank [OF dev(7) len(1) s1]
        hash_image_bank [OF dev(6) len(2) s2] hash_image_bank [OF dev(7) len(2) s2]; simp)+
  have r1: "SBC_RawPrtReadBlock (Some i) (Some (stale_bytes m (unat BOOT_FW_IMGMAX))) (Some BOOT_FW_IMGMAX) (bank_startlba cur) m
      = Done (SBCOK, buf) m"
    unfolding buf_def a_def using dev by (intro RawPrtReadBlock_sound) simp_all
  have r2: "SBC_RawPrtReadBlock (Some i) (Some (overlay 0 (zeros 8) buf)) (Some 512) (bank_startlba prev) m = Done (SBCOK, buf2) m"
    unfolding buf2_def using dev len by (subst RawPrtReadBlock_into) (simp_all add: length_overlay)
  have al: "ALIGN_VALUE 8 512 = 512" by code_simp
  have "0 < (word_of_nat (length (hw_bytes info)) :: u64)" "unat (word_of_nat (length (hw_bytes info)) :: u64) = length (hw_bytes info)"
    using hw_bytes_bound [OF dev(2)] ok by (simp_all add: migration_ok_def word_less_nat_alt unat_of_nat)
  then have hw: "SBC_HashCompute (Some (hw_bytes info)) (word_of_nat (length (hw_bytes info))) (Some z)
      = (SBCOK, Some (sha256 (hw_bytes info)))" for z
    by simp
  have "SBC_GenMigrationKey (Some i) cur prev out m =
     Done (SBCOK, migration_key (hw_bytes info) (bank_image dev a) (bank_image dev (a + SSBLN_OFS)) (bank_image dev (a + OSLN_OFS))) m"
    using ok r1 r2 dev(2) hw
    by (simp add: SBC_GenMigrationKey_def migration_ok_def Let_def andthen_Done h al hw_bytes_def [symmetric] migration_key_def)
  then show ?thesis by (simp add: Let_def a_def)
qed

section \<open>Lengths of the identifiers\<close>

lemma GenDeviceID_length: "SBC_GenDeviceID out m = Done (SBCOK, d) m' \<Longrightarrow> length d = 32"
  unfolding SBC_GenDeviceID_def Let_def andthen_eq_Done
  by (elim exE conjE) (auto split: prod.splits if_splits option.splits dest!: HashCompute_length)

lemma GenFWID_length: "SBC_GenFWID h dev out nb md m = Done (SBCOK, d) m' \<Longrightarrow> length d = 32"
  unfolding SBC_GenFWID_def Let_def andthen_eq_Done
  by (elim exE conjE) (auto split: prod.splits if_splits option.splits dest!: HashCompute_length)

lemma GenOSID_length: "SBC_GenOSID fw out m = Done (SBCOK, d) m' \<Longrightarrow> length d = 32"
  unfolding SBC_GenOSID_def Let_def andthen_eq_Done
  by (elim exE conjE) (auto split: prod.splits if_splits option.splits dest!: HashCompute_length)

end
