(* ===== verification/Sbc_SystemControl.thy ===== *)
theory Sbc_SystemControl
  imports Sbc_AntiTampering
begin

text \<open>
  The boot and key mode state machine of \<^verbatim>\<open>SBC_SystemControl.c\<close>.  \<^verbatim>\<open>boot_proc_t\<close> is a
  block of pointers to the locals of the entry point; here it holds the values
  themselves, and each function returns it as it leaves it.  A reset never
  returns, so it ends the run.
\<close>

section \<open>State\<close>

abbreviation SB_PROC_ST_NRMA :: u32 where "SB_PROC_ST_NRMA \<equiv> 0xABCD0000"
abbreviation SB_PROC_ST_ABNRAM :: u32 where "SB_PROC_ST_ABNRAM \<equiv> 0xABCD0001"
abbreviation SB_PROC_ST_UNKNOWN :: u32 where "SB_PROC_ST_UNKNOWN \<equiv> 0xABCD0002"

record boot_proc =
  blkhnd :: blkhandle
  rawprt :: rawprt_hdr
  baseansr :: LV
  keyinfo :: atp_ident
  pvs_sw_bnk :: u64
  curr_sw_bnk :: u64
  bm :: u16
  km :: u16
  bootst :: u32

definition SBC_RebootSystem :: "'a io" where
  "SBC_RebootSystem = halt EfiResetCold"

definition SBC_ShutdownSystem :: "'a io" where
  "SBC_ShutdownSystem = halt EfiResetShutdown"

section \<open>Mode change\<close>

definition check_prev_fw :: "u64 \<Rightarrow> bool" where
  "check_prev_fw prev_bnk_id = (if prev_bnk_id = 0 then False else True)"

text \<open>The header in memory is changed before the handle is looked at.  A null \<open>priv\<close> is not.\<close>

definition SBC_BootKeyModeChange :: "u32 \<Rightarrow> u32 \<Rightarrow> boot_proc option \<Rightarrow> (SBCStatus \<times> boot_proc) io" where
  "SBC_BootKeyModeChange newbm newkey priv = (case priv of None \<Rightarrow> fail NullDeref
     | Some bp \<Rightarrow>
       let bp' = bp\<lparr>rawprt := (rawprt bp)\<lparr>bootmode := ucast newbm, keymode := ucast newkey\<rparr>\<rparr> in
       if blkhnd bp' = None then retn (SBCNULLP, bp')
       else let wrbuf = overlay 0 (hdr_bytes (rawprt bp')) (zeros 512) in
         andthen (SBC_RawPrtBlockWrite (blkhnd bp') (Some wrbuf) 512 0) (\<lambda>ret. retn (ret, bp')))"

definition sbc_abnormal_processing :: "boot_proc \<Rightarrow> boot_proc io" where
  "sbc_abnormal_processing bp =
     (if ucast (km bp) = KEY_MODE_NORMAL then
        (if check_prev_fw (pvs_sw_bnk bp) \<noteq> True
         then andthen (SBC_BootKeyModeChange BOOT_MODE_FACTORY KEY_MODE_UPDATE (Some bp)) (\<lambda>(r, bp'). retn bp')
         else andthen (SBC_BootKeyModeChange BOOT_MODE_RECOVERY KEY_MODE_UPDATE (Some bp)) (\<lambda>(r, bp'). retn bp'))
      else retn bp)"

section \<open>Update and recovery\<close>

definition update_behavior_for_km :: "openssl \<Rightarrow> boot_proc \<Rightarrow> SBCStatus io" where
  "update_behavior_for_km ssl bp =
     (if bootst bp = SB_PROC_ST_ABNRAM then retn SBCOK
      else if bootst bp = SB_PROC_ST_NRMA then
        SBC_BaseAnswerEncryptStore ssl (blkhnd bp) (lv_value (baseansr bp)) (lv_length (baseansr bp)) (migid (keyinfo bp))
      else retn SBCINVPARAM)"

definition SBC_UpdateBootPorcsesing :: "openssl \<Rightarrow> boot_proc \<Rightarrow> SBCStatus io" where
  "SBC_UpdateBootPorcsesing ssl bp =
     (let k = ucast (km bp) in
      if k = KEY_MODE_NORMAL then update_behavior_for_km ssl bp
      else if k = KEY_MODE_BOOT then retn SBCOK
      else if k = KEY_MODE_UPDATE then update_behavior_for_km ssl bp
      else if k = KEY_MODE_NONE then retn SBCOK
      else retn SBCINVPARAM)"

definition SBC_RecoveryBootProcessing :: "openssl \<Rightarrow> boot_proc \<Rightarrow> boot_proc io" where
  "SBC_RecoveryBootProcessing ssl bp =
     (if bootst bp = SB_PROC_ST_ABNRAM then
        andthen (SBC_BootKeyModeChange BOOT_MODE_FACTORY KEY_MODE_BOOT (Some bp)) (\<lambda>(r, bp'). SBC_RebootSystem)
      else if check_prev_fw (pvs_sw_bnk bp) \<noteq> True then SBC_ShutdownSystem
      else andthen (SBC_BaseAnswerEncryptStore ssl (blkhnd bp) (lv_value (baseansr bp)) (lv_length (baseansr bp))
                      (osid (keyinfo bp))) (\<lambda>ret.
        if ret \<noteq> SBCOK then SBC_ShutdownSystem
        else if bootst bp = SB_PROC_ST_NRMA then
          (let k = ucast (km bp) in
           if k = KEY_MODE_BOOT \<or> k = KEY_MODE_UPDATE \<or> k = KEY_MODE_NORMAL then
             andthen (SBC_BootKeyModeChange BOOT_MODE_NORMAL KEY_MODE_NORMAL (Some bp)) (\<lambda>(ret, bp').
               if ret \<noteq> SBCOK then SBC_ShutdownSystem else SBC_RebootSystem)
           else SBC_ShutdownSystem)
        else SBC_ShutdownSystem))"

section \<open>Reset scenario and the check\<close>

definition update_reset_check_and_behavior :: "boot_proc \<Rightarrow> boot_proc io" where
  "update_reset_check_and_behavior bp =
     (if ucast (km bp) = KEY_MODE_NORMAL then
        andthen
          (if bootst bp = SB_PROC_ST_NRMA then
             andthen (SBC_BootKeyModeChange BOOT_MODE_RECOVERY KEY_MODE_NORMAL (Some bp)) (\<lambda>(r, bp'). retn bp')
           else if bootst bp = SB_PROC_ST_ABNRAM then
             (if pvs_sw_bnk bp \<noteq> 0 then
                andthen (SBC_BootKeyModeChange BOOT_MODE_RECOVERY KEY_MODE_UPDATE (Some bp)) (\<lambda>(r, bp'). retn bp')
              else
                andthen (SBC_BootKeyModeChange BOOT_MODE_FACTORY KEY_MODE_UPDATE (Some bp)) (\<lambda>(r, bp'). retn bp'))
           else retn bp)
          (\<lambda>bp'. SBC_RebootSystem)
      else retn bp)"

definition SBC_ResetScenario :: "boot_proc \<Rightarrow> boot_proc io" where
  "SBC_ResetScenario bp =
     (if ucast (bm bp) = BOOT_MODE_UPDATE then update_reset_check_and_behavior bp else retn bp)"

definition SBC_SecureBootCheck :: "openssl \<Rightarrow> boot_proc \<Rightarrow> (SBCStatus \<times> boot_proc) io" where
  "SBC_SecureBootCheck ssl bp =
     andthen
       (let b = ucast (bm bp) in
        if b = BOOT_MODE_NORMAL then
          (if bootst bp = SB_PROC_ST_ABNRAM
           then andthen (sbc_abnormal_processing bp) (\<lambda>bp'. SBC_RebootSystem)
           else retn (SBCOK, bp))
        else if b = BOOT_MODE_RECOVERY then
          andthen (SBC_RecoveryBootProcessing ssl bp) (\<lambda>bp'. retn (SBCOK, bp'))
        else if b = BOOT_MODE_UPDATE then
          andthen (SBC_UpdateBootPorcsesing ssl bp) (\<lambda>ret. retn (ret, bp))
        else retn (SBCOK, bp))
       (\<lambda>(ret, bp'). andthen (SBC_ResetScenario bp') (\<lambda>bp''. retn (ret, bp'')))"

section \<open>A mode change on a sound device\<close>

text \<open>The header sector as a mode change writes it: the header, then zeros to the end of the block.\<close>

definition hdr_sector :: "rawprt_hdr \<Rightarrow> bytes" where
  "hdr_sector h = hdr_bytes h @ zeros 384"

definition with_modes :: "u32 \<Rightarrow> u32 \<Rightarrow> rawprt_hdr \<Rightarrow> rawprt_hdr" where
  "with_modes b k h = h\<lparr>bootmode := ucast b, keymode := ucast k\<rparr>"

lemma with_modes_wf [simp]: "hdr_wf (with_modes b k h) = hdr_wf h"
  by (simp add: with_modes_def hdr_wf_def)

lemma with_modes_fields [simp]:
  "bootmode (with_modes b k h) = ucast b" "keymode (with_modes b k h) = ucast k"
  "magicid (with_modes b k h) = magicid h" "bootpres (with_modes b k h) = bootpres h"
  "prtinfo (with_modes b k h) = prtinfo h" "reserv (with_modes b k h) = reserv h" "rcvmode (with_modes b k h) = rcvmode h"
  by (simp_all add: with_modes_def)

text \<open>The header sector of this device can be read and written.\<close>

definition header_ok :: "machine \<Rightarrow> nat \<Rightarrow> nvme_device \<Rightarrow> bool" where
  "header_ok m i dev \<longleftrightarrow> blkdev m i = Some dev \<and> servable dev 0 512"

lemma header_ok_put [simp]:
  "header_ok m i dev \<Longrightarrow> header_ok (put_blkdev i (dev_put dev a bs) m) i (dev_put dev a bs)"
  by (simp add: header_ok_def)

lemma header_ok_ans [simp]: "header_ok (ans_machine m) i dev = header_ok m i dev"
  by (simp add: header_ok_def ans_machine_def blkdev_def)

lemma ModeChange_sound [exec_simps]:
  assumes "header_ok m i dev" "blkhnd bp = Some i" "hdr_wf (rawprt bp)"
  shows "SBC_BootKeyModeChange b k (Some bp) m =
    Done (SBCOK, bp\<lparr>rawprt := with_modes b k (rawprt bp)\<rparr>)
      (put_blkdev i (dev_put dev 0 (hdr_sector (with_modes b k (rawprt bp)))) m)"
proof -
  let ?h = "with_modes b k (rawprt bp)"
  have len: "length (hdr_bytes ?h) = 128" using assms(3) by (simp add: length_hdr_bytes)
  have buf: "overlay 0 (hdr_bytes ?h) (zeros 512) = hdr_sector ?h"
    by (simp add: overlay_def hdr_sector_def len zeros_def)
  moreover have "length (hdr_sector ?h) = 512" by (simp add: hdr_sector_def len)
  ultimately show ?thesis
    using RawPrtBlockWrite_sound [where m = m and i = i and dev = dev and lba = 0 and len = 512 and buf = "hdr_sector ?h"] assms
    by (simp add: SBC_BootKeyModeChange_def with_modes_def header_ok_def andthen_Done)
qed

lemma dev_hdr_put_sector [simp]: "hdr_wf h \<Longrightarrow> dev_hdr (dev_put dev 0 (hdr_sector h)) = h"
  using nvme.load_part [of 0 128 "hdr_sector h" dev 0]
  by (simp add: dev_hdr_def hdr_sector_def length_hdr_bytes slice_def hdr_roundtrip [where rest = "[]", simplified])

lemma dev_hdr_put_away: "128 \<le> a \<Longrightarrow> dev_hdr (dev_put dev a bs) = dev_hdr dev"
  by (simp add: dev_hdr_def dev_bytes_put_other)

section \<open>Specification of the mode machine\<close>

text \<open>
  What the check decides from boot mode, key mode, boot status and whether there
  is a previous bank: go on with a status, restart with new modes in the header or
  with the header as it is, or power off.
\<close>

datatype verdict = Proceed SBCStatus | Restart "(u32 \<times> u32) option" | PowerOff

definition mode_spec :: "u32 \<Rightarrow> u32 \<Rightarrow> u32 \<Rightarrow> bool \<Rightarrow> verdict" where
  "mode_spec b k st prev =
     (let fallback = (if prev then BOOT_MODE_RECOVERY else BOOT_MODE_FACTORY) in
      if b = BOOT_MODE_NORMAL then
        (if st = SB_PROC_ST_ABNRAM then Restart (if k = KEY_MODE_NORMAL then Some (fallback, KEY_MODE_UPDATE) else None)
         else Proceed SBCOK)
      else if b = BOOT_MODE_RECOVERY then
        (if st = SB_PROC_ST_ABNRAM then Restart (Some (BOOT_MODE_FACTORY, KEY_MODE_BOOT))
         else if \<not> prev then PowerOff
         else if st = SB_PROC_ST_NRMA \<and> k \<in> {KEY_MODE_NORMAL, KEY_MODE_BOOT, KEY_MODE_UPDATE}
         then Restart (Some (BOOT_MODE_NORMAL, KEY_MODE_NORMAL))
         else PowerOff)
      else if b = BOOT_MODE_UPDATE then
        (if k = KEY_MODE_NORMAL then
           Restart (if st = SB_PROC_ST_NRMA then Some (BOOT_MODE_RECOVERY, KEY_MODE_NORMAL)
                    else if st = SB_PROC_ST_ABNRAM then Some (fallback, KEY_MODE_UPDATE) else None)
         else if k = KEY_MODE_UPDATE then
           Proceed (if st = SB_PROC_ST_ABNRAM \<or> st = SB_PROC_ST_NRMA then SBCOK else SBCINVPARAM)
         else if k = KEY_MODE_BOOT \<or> k = KEY_MODE_NONE then Proceed SBCOK
         else Proceed SBCINVPARAM)
      else Proceed SBCOK)"

text \<open>An outcome of the code that shows a verdict: the ending, and the header found on the device.\<close>

definition shows_verdict :: "nat \<Rightarrow> rawprt_hdr \<Rightarrow> rawprt_hdr \<Rightarrow> verdict \<Rightarrow> (machine, SBCStatus \<times> boot_proc) exec \<Rightarrow> bool" where
  "shows_verdict i ram disk v r = (case v of
       Proceed s \<Rightarrow> (\<exists>bp m'. r = Done (s, bp) m' \<and> map_option dev_hdr (blkdev m' i) = Some disk)
     | Restart None \<Rightarrow> (\<exists>m'. r = Halted EfiResetCold m' \<and> map_option dev_hdr (blkdev m' i) = Some disk)
     | Restart (Some (b, k)) \<Rightarrow> (\<exists>m'. r = Halted EfiResetCold m' \<and> map_option dev_hdr (blkdev m' i) = Some (with_modes b k ram))
     | PowerOff \<Rightarrow> (\<exists>m'. r = Halted EfiResetShutdown m' \<and> map_option dev_hdr (blkdev m' i) = Some disk))"

text \<open>The base answer can be sealed again on this machine: the store keeps the header and the device's shape.\<close>

lemma reseal_sound:
  assumes "settings_ok m i dev" "header_ok m i dev" "gcm_correct ssl" "length key = 32"
    "lv_value ans = Some d" "length d = unat (lv_length ans)" "unat (lv_length ans) \<le> BASE_ANS_MAX_LEN"
    "\<forall>b. rng m (rng_calls m) 12 = Some b \<longrightarrow> length b = 12"
  shows "\<exists>dev' m'. SBC_BaseAnswerEncryptStore ssl (Some i) (lv_value ans) (lv_length ans) key m = Done SBCOK m'
    \<and> header_ok m' i dev' \<and> dev_hdr dev' = dev_hdr dev"
proof -
  obtain bs where bs: "SBC_BaseAnswerEncryptStore ssl (Some i) (Some d) (lv_length ans) key m
      = Done SBCOK (put_blkdev i (dev_put dev ANS_SLOT bs) (ans_machine m))"
    using EncryptStore_seals [OF assms(1,3,4,6-8)] by blast
  moreover have "header_ok (put_blkdev i (dev_put dev ANS_SLOT bs) (ans_machine m)) i (dev_put dev ANS_SLOT bs)"
    using assms(2) by (intro header_ok_put) simp
  moreover have "dev_hdr (dev_put dev ANS_SLOT bs) = dev_hdr dev" by (rule dev_hdr_put_away) simp
  ultimately show ?thesis using assms(5) by auto
qed

lemma SecureBootCheck_implements:
  assumes dev: "settings_ok m i dev" "header_ok m i dev" "blkhnd bp = Some i" "hdr_wf (rawprt bp)"
    and ssl: "gcm_correct ssl" "length (osid (keyinfo bp)) = 32" "length (migid (keyinfo bp)) = 32"
    and ans: "lv_value (baseansr bp) = Some d" "length d = unat (lv_length (baseansr bp))"
      "unat (lv_length (baseansr bp)) \<le> BASE_ANS_MAX_LEN"
    and rng: "\<forall>b. rng m (rng_calls m) 12 = Some b \<longrightarrow> length b = 12"
  shows "shows_verdict i (rawprt bp) (dev_hdr dev)
    (mode_spec (ucast (bm bp)) (ucast (km bp)) (bootst bp) (pvs_sw_bnk bp \<noteq> 0)) (SBC_SecureBootCheck ssl bp m)"
proof -
  obtain m1 dev1 where os: "SBC_BaseAnswerEncryptStore ssl (Some i) (lv_value (baseansr bp)) (lv_length (baseansr bp)) (osid (keyinfo bp)) m = Done SBCOK m1"
    "header_ok m1 i dev1" "dev_hdr dev1 = dev_hdr dev"
    using reseal_sound [OF dev(1,2) ssl(1,2) ans rng] by blast
  obtain m2 dev2 where mig: "SBC_BaseAnswerEncryptStore ssl (Some i) (lv_value (baseansr bp)) (lv_length (baseansr bp)) (migid (keyinfo bp)) m = Done SBCOK m2"
    "header_ok m2 i dev2" "dev_hdr dev2 = dev_hdr dev"
    using reseal_sound [OF dev(1,2) ssl(1,3) ans rng] by blast
  have blk: "blkdev m i = Some dev" "blkdev m1 i = Some dev1" "blkdev m2 i = Some dev2"
    using dev(2) os(2) mig(2) by (auto simp: header_ok_def)
  note mc = ModeChange_sound [OF dev(2-4)] ModeChange_sound [OF os(2) dev(3,4)] ModeChange_sound [OF mig(2) dev(3,4)]
  show ?thesis
    using blk os mig dev(3,4)
    by (auto simp: SBC_SecureBootCheck_def mode_spec_def shows_verdict_def sbc_abnormal_processing_def
        SBC_RecoveryBootProcessing_def SBC_UpdateBootPorcsesing_def update_behavior_for_km_def SBC_ResetScenario_def
        update_reset_check_and_behavior_def SBC_RebootSystem_def SBC_ShutdownSystem_def check_prev_fw_def
        andthen_def mc Let_def)
qed

end
