(* ===== verification/Sbc_Util.thy ===== *)
theory Sbc_Util
  imports Sbc_Prelude
begin

text \<open>
  \<^verbatim>\<open>SBC_Util.h\<close>: the byte order macros and the conversion of a hexadecimal string to
  bytes.
\<close>

unbundle bit_operations_syntax

section \<open>Byte order\<close>

definition SBC_SWAP_ENDIAN_16 :: "u16 \<Rightarrow> u16" where
  "SBC_SWAP_ENDIAN_16 v = drop_bit 8 (v AND 0xFF00) OR push_bit 8 (v AND 0x00FF)"

definition SBC_SWAP_ENDIAN_32 :: "u32 \<Rightarrow> u32" where
  "SBC_SWAP_ENDIAN_32 v = drop_bit 24 (v AND 0xFF000000) OR drop_bit 8 (v AND 0x00FF0000)
     OR push_bit 8 (v AND 0x0000FF00) OR push_bit 24 (v AND 0x000000FF)"

definition SBC_SWAP_ENDIAN_64 :: "u64 \<Rightarrow> u64" where
  "SBC_SWAP_ENDIAN_64 v = drop_bit 56 (v AND 0xFF00000000000000) OR drop_bit 40 (v AND 0x00FF000000000000)
     OR drop_bit 24 (v AND 0x0000FF0000000000) OR drop_bit 8 (v AND 0x000000FF00000000)
     OR push_bit 8 (v AND 0x00000000FF000000) OR push_bit 24 (v AND 0x0000000000FF0000)
     OR push_bit 40 (v AND 0x000000000000FF00) OR push_bit 56 (v AND 0x00000000000000FF)"

section \<open>Hexadecimal strings\<close>

definition calculate_hex_posval :: "byte \<Rightarrow> u32" where
  "calculate_hex_posval val =
     (if 48 \<le> val \<and> val \<le> 57 then ucast val - 48
      else if 97 \<le> val \<and> val \<le> 102 then ucast val - 87
      else if 65 \<le> val \<and> val \<le> 70 then ucast val - 55
      else 0)"

text \<open>The loop over the characters, two at a time: the first sets the upper half, the second adds the lower.\<close>

fun convert_str_to_hex :: "bytes \<Rightarrow> bytes" where
  "convert_str_to_hex [] = []"
| "convert_str_to_hex [a] = [ucast (push_bit 4 (calculate_hex_posval a) AND 0xF0)]"
| "convert_str_to_hex (a # b # s) =
     (ucast (push_bit 4 (calculate_hex_posval a) AND 0xF0) OR ucast (calculate_hex_posval b AND 0xF)) # convert_str_to_hex s"

text \<open>Hexadecimal text as the test vectors of the package write it.\<close>

definition hex_digit :: "nat \<Rightarrow> byte" where
  "hex_digit n = (if n < 10 then word_of_nat (48 + n) else word_of_nat (87 + n))"

fun hex_text :: "bytes \<Rightarrow> bytes" where
  "hex_text [] = []"
| "hex_text (b # bs) = hex_digit (unat b div 16) # hex_digit (unat b mod 16) # hex_text bs"

lemma all_below: "list_all P [0..<n] \<Longrightarrow> i < n \<Longrightarrow> P i"
  by (simp add: list_all_iff)

lemma hex_digits: "list_all (\<lambda>n. calculate_hex_posval (hex_digit n) = word_of_nat n) [0..<16]"
  by code_simp

lemma hex_digit_value: "n < 16 \<Longrightarrow> calculate_hex_posval (hex_digit n) = word_of_nat n"
  using hex_digits by (rule all_below)

lemma hex_bytes: "list_all (\<lambda>h. list_all (\<lambda>l. (ucast (push_bit 4 (word_of_nat h :: u32) AND 0xF0) :: byte)
    OR ucast ((word_of_nat l :: u32) AND 0xF) = word_of_nat (16 * h + l)) [0..<16]) [0..<16]"
  by code_simp

lemma hex_byte:
  assumes "h < 16" "l < 16"
  shows "(ucast (push_bit 4 (word_of_nat h :: u32) AND 0xF0) :: byte) OR ucast ((word_of_nat l :: u32) AND 0xF)
    = word_of_nat (16 * h + l)"
  using all_below [OF all_below [OF hex_bytes assms(1)] assms(2)] .

lemma byte_nibbles: "unat (b :: byte) div 16 < 16" "unat b mod 16 < 16"
  "word_of_nat (16 * (unat b div 16) + unat b mod 16) = b"
proof -
  have "unat b < 16 * 16" using unat_bound [of b] by simp
  then show "unat b div 16 < 16" by (rule less_mult_imp_div_less)
  show "unat b mod 16 < 16" by simp
  have "(word_of_nat (unat b) :: byte) = b" by simp
  then show "word_of_nat (16 * (unat b div 16) + unat b mod 16) = b" by (simp only: mult_div_mod_eq)
qed

text \<open>Bit \<open>n\<close> of a swapped word is the bit at the same place in the mirrored byte.\<close>

lemma byte_masks:
  "(0xFF00 :: u16) = push_bit 8 (mask 8)" "(0x00FF :: u16) = push_bit 0 (mask 8)"
  "(0xFF000000 :: u32) = push_bit 24 (mask 8)" "(0x00FF0000 :: u32) = push_bit 16 (mask 8)"
  "(0x0000FF00 :: u32) = push_bit 8 (mask 8)" "(0x000000FF :: u32) = push_bit 0 (mask 8)"
  "(0xFF00000000000000 :: u64) = push_bit 56 (mask 8)" "(0x00FF000000000000 :: u64) = push_bit 48 (mask 8)"
  "(0x0000FF0000000000 :: u64) = push_bit 40 (mask 8)" "(0x000000FF00000000 :: u64) = push_bit 32 (mask 8)"
  "(0x00000000FF000000 :: u64) = push_bit 24 (mask 8)" "(0x0000000000FF0000 :: u64) = push_bit 16 (mask 8)"
  "(0x000000000000FF00 :: u64) = push_bit 8 (mask 8)" "(0x00000000000000FF :: u64) = push_bit 0 (mask 8)"
  by (simp_all add: mask_eq_exp_minus_1)

lemma bit_byte_down:
  "bit (drop_bit k (v AND push_bit j (mask 8)) :: 'a::len word) n \<longleftrightarrow> j \<le> k + n \<and> k + n < j + 8 \<and> bit v (k + n)"
  by (auto simp: bit_simps dest: bit_imp_le_length)

lemma bit_byte_up:
  "bit (push_bit k (v AND push_bit j (mask 8)) :: 'a::len word) n \<longleftrightarrow>
     k \<le> n \<and> n < LENGTH('a) \<and> j \<le> n - k \<and> n - k < j + 8 \<and> bit v (n - k)"
  by (auto simp: bit_simps dest: bit_imp_le_length)

lemmas swap_bits = byte_masks bit_or_iff bit_byte_down bit_byte_up

lemma swap16_bit: "n < 16 \<Longrightarrow> bit (SBC_SWAP_ENDIAN_16 v) n = (if n < 8 then bit v (n + 8) else bit v (n - 8))"
  unfolding SBC_SWAP_ENDIAN_16_def swap_bits by (auto simp: add.commute)

lemma swap32_bit: "n < 32 \<Longrightarrow> bit (SBC_SWAP_ENDIAN_32 v) n =
    (if n < 8 then bit v (n + 24) else if n < 16 then bit v (n + 8) else if n < 24 then bit v (n - 8) else bit v (n - 24))"
  unfolding SBC_SWAP_ENDIAN_32_def swap_bits by (auto simp: add.commute)

lemma swap64_bit: "n < 64 \<Longrightarrow> bit (SBC_SWAP_ENDIAN_64 v) n =
    (if n < 8 then bit v (n + 56) else if n < 16 then bit v (n + 40) else if n < 24 then bit v (n + 24)
     else if n < 32 then bit v (n + 8) else if n < 40 then bit v (n - 8) else if n < 48 then bit v (n - 24)
     else if n < 56 then bit v (n - 40) else bit v (n - 56))"
  unfolding SBC_SWAP_ENDIAN_64_def swap_bits by (auto simp: add.commute)

lemma swap_twice:
  "SBC_SWAP_ENDIAN_16 (SBC_SWAP_ENDIAN_16 w) = w"
  "SBC_SWAP_ENDIAN_32 (SBC_SWAP_ENDIAN_32 v) = v"
  "SBC_SWAP_ENDIAN_64 (SBC_SWAP_ENDIAN_64 u) = u"
  by (rule bit_word_eqI; auto simp: swap16_bit swap32_bit swap64_bit)+

text \<open>A little endian number of bytes, bit by bit.\<close>

lemma bit_of_le: "bit (of_le bs) n \<longleftrightarrow> n < 8 * length bs \<and> bit (bs ! (n div 8)) (n mod 8)"
proof (induction bs arbitrary: n)
  case (Cons b bs)
  have b: "unat b < 2 ^ 8" using unat_bound [of b] by simp
  then have lo: "take_bit 8 (unat b + 256 * of_le bs) = unat b" by (simp add: take_bit_eq_mod)
  have hi: "drop_bit 8 (unat b + 256 * of_le bs) = of_le bs" using b by (simp add: drop_bit_eq_div)
  show ?case
  proof (cases "n < 8")
    case True
    then have "bit (unat b + 256 * of_le bs) n = bit (take_bit 8 (unat b + 256 * of_le bs)) n"
      by (simp add: bit_take_bit_iff)
    then show ?thesis using True by (simp add: lo bit_unsigned_iff)
  next
    case False
    then have "bit (unat b + 256 * of_le bs) n = bit (drop_bit 8 (unat b + 256 * of_le bs)) (n - 8)"
      by (simp add: bit_drop_bit_eq)
    then show ?thesis using False Cons.IH [of "n - 8"] by (auto simp: hi le_div_geq le_mod_geq)
  qed
qed simp

lemma bit_rd32: "length bs = 4 \<Longrightarrow> n < 32 \<Longrightarrow> bit (rd32 bs) n = bit (bs ! (n div 8)) (n mod 8)"
  by (simp add: rd32_def bit_simps bit_of_le)

lemma swap32_rd32: "SBC_SWAP_ENDIAN_32 (rd32 [b0, b1, b2, b3]) = rd32 [b3, b2, b1, b0]"
proof (rule bit_word_eqI)
  fix n assume "n < LENGTH(32)"
  then have n: "n < 32" by simp
  consider "n < 8" | "8 \<le> n" "n < 16" | "16 \<le> n" "n < 24" | "24 \<le> n" by linarith
  then show "bit (SBC_SWAP_ENDIAN_32 (rd32 [b0, b1, b2, b3])) n = bit (rd32 [b3, b2, b1, b0]) n"
    using n by cases (auto simp: swap32_bit bit_rd32 le_div_geq le_mod_geq)
qed

section \<open>Properties\<close>

text \<open>
  the conversion of a hexadecimal string gives back the bytes the string was
  written from, for every list of bytes.
\<close>

theorem hex_roundtrip: "convert_str_to_hex (hex_text bs) = bs"
proof (induction bs)
  case (Cons b bs)
  then show ?case
    using hex_byte [OF byte_nibbles(1,2) [of b]] byte_nibbles(3) [of b]
    by (simp only: hex_text.simps convert_str_to_hex.simps hex_digit_value byte_nibbles(1,2))
qed simp

text \<open>
  the byte order macros turn a 32-bit value read in little endian into the
  same bytes read in big endian, and applied twice they are the identity on 16, 32 and
  64 bits.
\<close>

theorem swap_endian:
  "SBC_SWAP_ENDIAN_32 (rd32 [b0, b1, b2, b3]) = rd32 [b3, b2, b1, b0]
   \<and> SBC_SWAP_ENDIAN_16 (SBC_SWAP_ENDIAN_16 w) = w
   \<and> SBC_SWAP_ENDIAN_32 (SBC_SWAP_ENDIAN_32 v) = v
   \<and> SBC_SWAP_ENDIAN_64 (SBC_SWAP_ENDIAN_64 u) = u"
  by (simp add: swap32_rd32 swap_twice)

end
