(* ===== verification/Sbc_Ssbl.thy ===== *)
theory Sbc_Ssbl
  imports Sbc_SystemControl Sbc_Util
begin

text \<open>
  The second stage boot loader, \<^verbatim>\<open>SSBL.c\<close>, built as \<^verbatim>\<open>SSBL.inf\<close> says, with
  \<^verbatim>\<open>_FILE_RD_BM_\<close>: the choice of the firmware bank, the DICE identifiers, the switch
  over the boot mode, and the start of GRUB (\<^verbatim>\<open>SBC_LoadKernelImage.c\<close>).  The run ends
  in a return to the firmware, a reset, a shutdown or a fault; GRUB leaves its
  path in the list of started images.
\<close>

unbundle bit_operations_syntax

section \<open>Banks\<close>

definition FindPreviouslyBank :: "u32 \<Rightarrow> u32" where
  "FindPreviouslyBank bankid = (if bankid = 1 then 2 else if bankid = 2 then 1 else 0)"

text \<open>\<open>67\<close> is the letter C, the mark of the bank in use.\<close>

definition current_bank :: "rawprt_hdr \<Rightarrow> u32" where
  "current_bank hdr =
     (let pres_low = SBC_SWAP_ENDIAN_32 (rd32 (slice 0 4 (bootpres hdr)));
          pres_hi = SBC_SWAP_ENDIAN_32 (rd32 (slice 4 4 (bootpres hdr))) in
      if (ucast (pres_low AND 0x0000FFFF) :: byte) = 67 then drop_bit 16 (pres_low AND 0xFFFF0000)
      else if (ucast (pres_hi AND 0x0000FFFF) :: byte) = 67 then drop_bit 16 (pres_hi AND 0xFFFF0000)
      else 0)"

section \<open>Identifiers\<close>

definition SBC_DiceKeysGen :: "blkhandle \<Rightarrow> atp_ident \<Rightarrow> u64 \<Rightarrow> u64 \<Rightarrow> (SBCStatus \<times> atp_ident) io" where
  "SBC_DiceKeysGen h_blkio p normbank bmode =
     andthen (SBC_GenDeviceID (devid p)) (\<lambda>(ret, d). let p1 = p\<lparr>devid := d\<rparr> in
       if ret \<noteq> SBCOK then retn (ret, p1)
       else andthen (SBC_GenFWID h_blkio (devid p1) (fwid p1) normbank bmode) (\<lambda>(ret, f). let p2 = p1\<lparr>fwid := f\<rparr> in
         if ret \<noteq> SBCOK then retn (ret, p2)
         else andthen (SBC_GenOSID (fwid p2) (osid p2)) (\<lambda>(ret, os). retn (ret, p2\<lparr>osid := os\<rparr>))))"

section \<open>GRUB\<close>

abbreviation GRUB_PATH :: path where "GRUB_PATH \<equiv> [''EFI'', ''rocky'', ''grubx64.efi'']"

text \<open>The first volume whose file loads is started.  The status is always good.\<close>

fun grub_loop :: "nat \<Rightarrow> nat \<Rightarrow> machine \<Rightarrow> machine" where
  "grub_loop i 0 m = m"
| "grub_loop i (Suc k) m = (if can_load m GRUB_PATH i then m\<lparr>started := started m @ [GRUB_PATH]\<rparr> else grub_loop (Suc i) k m)"

definition SBC_GRUB_LoadAndStart :: "SBCStatus io" where
  "SBC_GRUB_LoadAndStart m = Done SBCOK (grub_loop 0 (length (volumes m)) m)"

section \<open>Entry point\<close>

definition stale_ident :: "machine \<Rightarrow> atp_ident" where
  "stale_ident m = \<lparr>devid = stale_bytes m 32, fwid = stale_bytes m 32, osid = stale_bytes m 32, migid = stale_bytes m 32\<rparr>"

text \<open>The switch over the boot mode; its result is the status the code goes on with.\<close>

definition boot_mode_switch :: "openssl \<Rightarrow> u32 \<Rightarrow> u32 \<Rightarrow> u32 \<Rightarrow> boot_proc \<Rightarrow> SBCStatus io" where
  "boot_mode_switch ssl bootmd currbank_id prevbank_id btproc =
     (if bootmd = BOOT_MODE_NORMAL then
        (let bp = btproc\<lparr>rawprt := (rawprt btproc)\<lparr>keymode := ucast KEY_MODE_NORMAL\<rparr>\<rparr> in
         andthen (SBC_BootKeyModeChange BOOT_MODE_NORMAL KEY_MODE_NORMAL (Some bp)) (\<lambda>(_, bp1).
         andthen (SBC_SecureBootCheck ssl bp1) (\<lambda>(ret, bp2). retn ret)))
      else if bootmd = BOOT_MODE_FACTORY then
        andthen (SBC_BootKeyModeChange BOOT_MODE_FACTORY KEY_MODE_NORMAL None) (\<lambda>(ret, _).
          let bp = (if ret \<noteq> SBCOK then btproc\<lparr>bootst := SB_PROC_ST_NRMA\<rparr> else btproc) in
          if bootst bp \<noteq> SB_PROC_ST_NRMA then retn SBCFAIL else retn ret)
      else if bootmd = BOOT_MODE_UPDATE then
        (let bp = btproc\<lparr>bm := ucast BOOT_MODE_UPDATE, km := ucast KEY_MODE_NORMAL\<rparr> in
         andthen (SBC_GenMigrationKey (blkhnd bp) currbank_id prevbank_id (migid (keyinfo bp))) (\<lambda>(ret, mig).
           if ret \<noteq> SBCOK then retn ret
           else andthen (SBC_SecureBootCheck ssl (bp\<lparr>keyinfo := (keyinfo bp)\<lparr>migid := mig\<rparr>\<rparr>)) (\<lambda>(ret, bp2). retn ret)))
      else if bootmd = BOOT_MODE_RECOVERY then
        andthen (SBC_SecureBootCheck ssl btproc) (\<lambda>(ret, bp2). retn ret)
      else retn SBCOK)"

definition UefiMain :: "openssl \<Rightarrow> efi_status io" where
  "UefiMain ssl =
     andthen (SBC_BlkIoHandleInit zero_hdr) (\<lambda>(ret, h_blkio, hdr).
       if ret \<noteq> SBCOK then SBC_ShutdownSystem
       else let currbank_id = current_bank hdr; prevbank_id = FindPreviouslyBank currbank_id in
       andthen (SBC_SSBL_Verify ssl h_blkio (ucast currbank_id)) (\<lambda>(ret, ansr).
         if ret \<noteq> SBCOK then SBC_ShutdownSystem
         else (\<lambda>m. andthen (SBC_DiceKeysGen h_blkio (stale_ident m) (ucast BOOT_MODE_NORMAL) (ucast currbank_id)) (\<lambda>(ret, diceid).
           if ret \<noteq> SBCOK then SBC_ShutdownSystem
           else let btproc = \<lparr>blkhnd = h_blkio, rawprt = hdr, baseansr = the ansr, keyinfo = diceid,
                      pvs_sw_bnk = ucast prevbank_id, curr_sw_bnk = ucast currbank_id,
                      bm = bootmode hdr, km = keymode hdr, bootst = SB_PROC_ST_NRMA\<rparr> in
           andthen SBC_ReadBootMode (\<lambda>filemd.
           let bootmd = (if bootmode hdr \<noteq> 0 then ucast (bootmode hdr) else filemd) in
           andthen (boot_mode_switch ssl bootmd currbank_id prevbank_id btproc) (\<lambda>ret.
             if ret \<noteq> SBCOK then SBC_ShutdownSystem
             else andthen SBC_GRUB_LoadAndStart (\<lambda>ret.
               if ret \<noteq> SBCOK then SBC_ShutdownSystem else retn EFI_SUCCESS)))) m)))"

section \<open>What changes nothing\<close>

lemma ro_DiceKeysGen [ro]: "readonly (SBC_DiceKeysGen h p n b)"
  by (rule keepsI; auto simp: SBC_DiceKeysGen_def Let_def final_readonly_andthen ro split: prod.splits exec.splits)

section \<open>No image is started on the way\<close>

definition same_started :: "machine \<Rightarrow> machine \<Rightarrow> bool" where
  "same_started m m' \<longleftrightarrow> started m' = started m"

lemma same_started_po [simp]: "reflp same_started" "transp same_started"
  by (auto simp: same_started_def intro: reflpI transpI)

lemma quiet_ro: "readonly p \<Longrightarrow> keeps same_started p"
  by (rule readonly_keeps) simp

lemma quiet_andthen: "keeps same_started p \<Longrightarrow> (\<And>a. keeps same_started (k a)) \<Longrightarrow> keeps same_started (andthen p k)"
  by (rule keeps_andthen) simp_all

lemma quiet_BlockWrite: "keeps same_started (SBC_RawPrtBlockWrite h buf len lba)"
  by (rule keepsI) (auto simp: SBC_RawPrtBlockWrite_def same_started_def split: option.splits)

lemma quiet_store: "keeps same_started (baseanswer_store h p)"
proof (rule keepsI)
  fix m
  have wr: "started (final_world (SBC_RawPrtBlockWrite h' buf len lba m)) = started m" for h' buf len lba
    using keepsD [OF quiet_BlockWrite, of m] by (simp add: same_started_def)
  show "same_started m (final_world (baseanswer_store h p m))"
    by (auto simp: baseanswer_store_def same_started_def Let_def final_readonly_andthen ro wr
        split: option.splits exec.splits prod.splits)
qed

lemma quiet_RandomBytes: "keeps same_started (RandomBytes n)"
  by (rule keepsI) (simp add: RandomBytes_def same_started_def)

lemma quiet_EncryptStore: "keeps same_started (SBC_BaseAnswerEncryptStore ssl h msg l key)"
  unfolding SBC_BaseAnswerEncryptStore_def Let_def
  by (auto intro!: quiet_andthen quiet_RandomBytes quiet_store split: option.splits prod.splits)

lemma quiet_ModeChange: "keeps same_started (SBC_BootKeyModeChange b k p)"
  unfolding SBC_BootKeyModeChange_def Let_def by (auto intro!: quiet_andthen quiet_BlockWrite split: option.splits)

lemma quiet_SystemControl:
  "keeps same_started (sbc_abnormal_processing bp)" "keeps same_started (update_behavior_for_km ssl bp)"
  "keeps same_started (SBC_RecoveryBootProcessing ssl bp)" "keeps same_started (update_reset_check_and_behavior bp)"
  unfolding sbc_abnormal_processing_def update_behavior_for_km_def SBC_RecoveryBootProcessing_def
    update_reset_check_and_behavior_def SBC_RebootSystem_def SBC_ShutdownSystem_def Let_def
  by (auto intro!: quiet_andthen quiet_ModeChange quiet_EncryptStore split: prod.splits)

lemma quiet_SecureBootCheck: "keeps same_started (SBC_SecureBootCheck ssl bp)"
  unfolding SBC_SecureBootCheck_def SBC_ResetScenario_def SBC_UpdateBootPorcsesing_def
    SBC_RebootSystem_def Let_def
  by (auto intro!: quiet_andthen quiet_SystemControl split: prod.splits)

lemma quiet_switch: "keeps same_started (boot_mode_switch ssl md c p bp)"
  unfolding boot_mode_switch_def Let_def
  by (auto intro!: quiet_andthen quiet_ModeChange quiet_SecureBootCheck quiet_ro [OF ro_GenMigrationKey] split: prod.splits)

section \<open>Runs of the entry point\<close>

text \<open>The raw partition is found, the first stage image verifies and the identifiers can be made.\<close>

definition checks_pass :: "openssl \<Rightarrow> machine \<Rightarrow> nat \<Rightarrow> rawprt_hdr \<Rightarrow> LV \<Rightarrow> atp_ident \<Rightarrow> bool" where
  "checks_pass ssl m i hdr ans ident \<longleftrightarrow>
     SBC_BlkIoHandleInit zero_hdr m = Done (SBCOK, Some i, hdr) m \<and>
     SBC_SSBL_Verify ssl (Some i) (ucast (current_bank hdr)) m = Done (SBCOK, Some ans) m \<and>
     SBC_DiceKeysGen (Some i) (stale_ident m) 1 (ucast (current_bank hdr)) m = Done (SBCOK, ident) m"

definition boot_context :: "nat \<Rightarrow> rawprt_hdr \<Rightarrow> LV \<Rightarrow> atp_ident \<Rightarrow> boot_proc" where
  "boot_context i hdr ans ident = \<lparr>blkhnd = Some i, rawprt = hdr, baseansr = ans, keyinfo = ident,
     pvs_sw_bnk = ucast (FindPreviouslyBank (current_bank hdr)), curr_sw_bnk = ucast (current_bank hdr),
     bm = bootmode hdr, km = keymode hdr, bootst = SB_PROC_ST_NRMA\<rparr>"

lemma UefiMain_checked:
  assumes "checks_pass ssl m i hdr ans ident" "SBC_ReadBootMode m = Done filemd m"
  shows "UefiMain ssl m =
    andthen (boot_mode_switch ssl (if bootmode hdr \<noteq> 0 then ucast (bootmode hdr) else filemd) (current_bank hdr)
        (FindPreviouslyBank (current_bank hdr)) (boot_context i hdr ans ident))
      (\<lambda>ret. if ret \<noteq> SBCOK then SBC_ShutdownSystem
        else andthen SBC_GRUB_LoadAndStart (\<lambda>ret. if ret \<noteq> SBCOK then SBC_ShutdownSystem else retn EFI_SUCCESS)) m"
  using assms by (simp add: UefiMain_def checks_pass_def andthen_Done boot_context_def Let_def)

lemma verify_image_answer: "verify_image ssl img len m = Done (SBCOK, a) m' \<Longrightarrow> a \<noteq> None"
  by (auto simp: verify_image_def Let_def split: option.splits prod.splits if_splits)

lemma verify_file_answer:
  assumes "verify_file ssl p m = Done (SBCOK, a) m'"
  shows "a \<noteq> None"
proof -
  obtain len where size: "SBC_GetFileSize m p 0 = (SBCOK, len)"
    using assms by (cases "SBC_GetFileSize m p 0") (auto simp: verify_file_def Let_def split: if_splits)
  then show ?thesis using assms
    by (auto simp: verify_file_def Let_def andthen_eq_Done split: if_splits prod.splits dest: verify_image_answer)
qed

lemma Verify_answer: "SBC_SSBL_Verify ssl h n m = Done (SBCOK, a) m' \<Longrightarrow> a \<noteq> None"
  unfolding SBC_SSBL_Verify_def by (rule verify_file_answer)

lemma BlkIoHandleInit_handle:
  "SBC_BlkIoHandleInit hdr0 m = Done (SBCOK, h, hdr) m' \<Longrightarrow> \<exists>i. h = Some i"
  unfolding SBC_BlkIoHandleInit_def by (drule BlkIo_scan_result) auto

lemma UefiMain_unchecked:
  assumes "\<nexists>i hdr ans ident. checks_pass ssl m i hdr ans ident"
  shows "final_world (UefiMain ssl m) = m"
proof (cases "SBC_BlkIoHandleInit zero_hdr m")
  case (Done r m1)
  then have m1: "m1 = m" by (rule readonly_Done [OF ro_BlkIoHandleInit])
  obtain ret h hdr where r: "r = (ret, h, hdr)" by (cases r)
  show ?thesis
  proof (cases "ret = SBCOK")
    case True
    then obtain i where h: "h = Some i" using Done r BlkIoHandleInit_handle by blast
    have "final_world (SBC_SSBL_Verify ssl (Some i) b m) = m" for b
      using keepsD [OF ro_SSBL_Verify, of m] by simp
    moreover have "a \<noteq> None" if "SBC_SSBL_Verify ssl (Some i) b m = Done (SBCOK, a) m'" for a b m'
      using that by (rule Verify_answer)
    moreover have "m' = m" if "SBC_SSBL_Verify ssl (Some i) b m = Done x m'" for x b m'
      using readonly_Done [OF ro_SSBL_Verify that] .
    moreover have "m' = m" if "SBC_DiceKeysGen (Some i) p n b m = Done x m'" for x p n b m'
      using readonly_Done [OF ro_DiceKeysGen that] .
    ultimately show ?thesis
      using assms Done r h True m1
      by (auto simp: UefiMain_def final_readonly_andthen ro Let_def SBC_ShutdownSystem_def checks_pass_def
          split: exec.splits prod.splits) blast+
  qed (use Done r m1 in \<open>auto simp: UefiMain_def andthen_Done SBC_ShutdownSystem_def\<close>)
qed (use keepsD [OF ro_BlkIoHandleInit, of m zero_hdr] in \<open>auto simp: UefiMain_def andthen_def\<close>)

section \<open>The chain of identifiers\<close>

text \<open>What the three identifiers need: hardware serial numbers, the first stage file, the image of bank one and the kernel file.\<close>

definition fsbl_ok :: "machine \<Rightarrow> hw_uniqueinfo \<Rightarrow> bytes \<Rightarrow> bool" where
  "fsbl_ok m info img \<longleftrightarrow> (\<exists>v vol. first_volume (volumes m) 0 = Some v \<and> volumes m ! v = Some vol \<and> \<not> EFI_ERROR (vol_read vol) \<and>
     \<not> EFI_ERROR (vol_info vol) \<and> fs_open m v [''EFI''] = Inr Directory \<and> fs_open m v [''EFI'', ''BOOT''] = Inr Directory \<and>
     fs_open m v [''EFI'', ''BOOT'', ''FSBL.efi''] = Inr (RegFile img)) \<and>
     SBC_AT_HASH_LEN \<le> length img \<and> length img < 2 ^ 32 \<and>
     pool_ok m (file_info_size FSBL_PATH) \<and> pool_ok m (length img) \<and> pool_ok m (length (hw_bytes info) + SBC_AT_HASH_LEN)"

lemma GenDeviceID_sound:
  assumes "hw_info m = Done info m" "fsbl_ok m info img"
  shows "SBC_GenDeviceID out m = Done (SBCOK, sha256 (hw_bytes info @ take SBC_AT_HASH_LEN img)) m"
proof -
  let ?z = "\<lparr>lv_length = 0, lv_pad = 0, lv_value = None\<rparr>" and ?len = "word_of_nat (length img) :: u32"
  obtain v vol where v: "first_volume (volumes m) 0 = Some v" "volumes m ! v = Some vol" "\<not> EFI_ERROR (vol_read vol)" "\<not> EFI_ERROR (vol_info vol)"
     "fs_open m v [''EFI''] = Inr Directory" "fs_open m v [''EFI'', ''BOOT''] = Inr Directory"
     "fs_open m v [''EFI'', ''BOOT'', ''FSBL.efi''] = Inr (RegFile img)"
    and img: "SBC_AT_HASH_LEN \<le> length img" "length img < 2 ^ 32" "pool_ok m (file_info_size FSBL_PATH)" "pool_ok m (length img)"
      "pool_ok m (length (hw_bytes info) + SBC_AT_HASH_LEN)"
    using assms(2) by (auto simp: fsbl_ok_def)
  have u: "unat ?len = length img" using img(2) by (simp add: unat_of_nat)
  have "volumes m \<noteq> []" using v(1) by auto
  then have ld: "efi_boot_fsbl_load ?z m = Done (EFI_SUCCESS, ?z\<lparr>lv_length := ?len, lv_value := Some img\<rparr>) m"
    using v img u by (simp add: efi_boot_fsbl_load_def file_info_def node_size_def Let_def ReadFile_whole)
  have pos: "0 < (ucast ?len :: u64)" using u img(1) by (intro ucast_pos) auto
  have whole: "SBC_HashCompute (Some img) (ucast ?len) (Some z) = (SBCOK, Some (sha256 img))" for z
    using HashCompute_ok [OF pos, of img] by (simp only: unat_ucast_u64 u order.refl take_all)
  let ?msg = "hw_bytes info @ take SBC_AT_HASH_LEN img"
  have ml: "length ?msg \<le> 180" "0 < length ?msg" using hw_bytes_bound [OF assms(1)] img(1) by simp_all
  have ul: "unat (word_of_nat (length ?msg) :: u64) = length ?msg" using ml(1) by (simp only: unat_of_nat) simp
  then have "0 < (word_of_nat (length ?msg) :: u64)" "unat (word_of_nat (length ?msg) :: u64) \<le> length ?msg"
    using ml(2) by (simp_all only: word_less_nat_alt unat_0 order.refl)
  then have "SBC_HashCompute (Some ?msg) (word_of_nat (length ?msg)) (Some out) = (SBCOK, Some (sha256 ?msg))"
    by (simp only: HashCompute_ok ul take_all order.refl)
  then show ?thesis
    using assms(1) ld whole img by (simp add: SBC_GenDeviceID_def andthen_Done hw_bytes_def Let_def add.assoc)
qed

definition ssbl_image_len :: "nvme_device \<Rightarrow> u64 \<Rightarrow> u32" where
  "ssbl_image_len dev lba = ALIGN_VALUE (rd32 (dev_bytes dev (unat lba * 512) 4)) 512"

definition ssbl_ok :: "machine \<Rightarrow> nat \<Rightarrow> nvme_device \<Rightarrow> u64 \<Rightarrow> bool" where
  "ssbl_ok m i dev lba \<longleftrightarrow> blkdev m i = Some dev \<and> servable dev lba 512 \<and> servable dev lba (ssbl_image_len dev lba) \<and>
     pool_ok m (unat (ssbl_image_len dev lba)) \<and> pool_ok m (2 * SBC_AT_HASH_LEN)"

lemma GenFWID_sound:
  assumes "ssbl_ok m i dev (ssbl_startlba b)" "SBC_AT_HASH_LEN \<le> length d"
  shows "SBC_GenFWID (Some i) d out b md m =
    Done (SBCOK, sha256 (take SBC_AT_HASH_LEN d @ sha256 (zeros SBC_AT_HASH_LEN))) m"
proof -
  let ?lba = "ssbl_startlba b" and ?z = "\<lparr>lv_length = 0, lv_pad = 0, lv_value = None\<rparr>"
  define len where "len = ssbl_image_len dev ?lba"
  have ok: "blkdev m i = Some dev" "servable dev ?lba 512" "servable dev ?lba len" "pool_ok m (unat len)" "pool_ok m 64"
    using assms(1) by (simp_all add: ssbl_ok_def len_def)
  have rd: "SBC_RawPrtReadBlock (Some i) (Some (zeros 512)) (Some 512) ?lba m = Done (SBCOK, dev_bytes dev (unat ?lba * 512) 512) m"
    "SBC_RawPrtReadBlock (Some i) (Some (stale_bytes m (unat len))) (Some len) ?lba m = Done (SBCOK, dev_bytes dev (unat ?lba * 512) (unat len)) m"
    using ok RawPrtReadBlock_sound [OF ok(1,2), of "zeros 512"] RawPrtReadBlock_sound [OF ok(1,3), of "stale_bytes m (unat len)"] by simp_all
  have word: "ALIGN_VALUE (rd32 (take 4 (dev_bytes dev (unat ?lba * 512) 512))) 512 = len"
    by (simp add: len_def ssbl_image_len_def take_dev_bytes)
  have ld: "ssbl_image_load (Some i) ?z b md m =
      Done (SBCOK, ?z\<lparr>lv_length := len - 8, lv_value := Some (drop 4 (dev_bytes dev (unat ?lba * 512) (unat len)))\<rparr>) m"
    using rd ok(4) word by (simp add: ssbl_image_load_def Let_def andthen_Done)
  have "0 < unat len" "unat len mod 512 = 0" using ok(3) by (simp_all add: servable_def)
  then have "len \<noteq> 8" by auto
  then have "0 < len - 8" by (simp add: word_gt_0)
  then show ?thesis using ld ok(5) assms(2) by (simp add: SBC_GenFWID_def andthen_Done Let_def)
qed

lemma GenOSID_sound:
  assumes "readable_file m OSID_KERNEL_PATH v kimg" "kimg \<noteq> []" "pool_ok m (2 * SBC_AT_HASH_LEN)" "SBC_AT_HASH_LEN \<le> length f"
  shows "SBC_GenOSID f out m = Done (SBCOK, sha256 (take SBC_AT_HASH_LEN f @ sha256 kimg)) m"
proof -
  let ?z = "\<lparr>lv_length = 0, lv_pad = rd32 (stale_bytes m 4), lv_value = None\<rparr>" and ?len = "word_of_nat (length kimg) :: u32"
  have ff: "first_file m OSID_KERNEL_PATH v (RegFile kimg)" and len: "length kimg < 2 ^ 32" and info: "info_ok m v"
    and pools: "pool_ok m (file_info_size OSID_KERNEL_PATH)" "pool_ok m (length kimg)"
    using assms(1) by (auto simp: readable_file_def)
  obtain vol where vol: "volumes m ! v = Some vol" "\<not> EFI_ERROR (vol_read vol)"
    using assms(1) by (auto simp: readable_file_def)
  have u: "unat (word_of_nat (length kimg) :: u64) = length kimg" "(ucast (word_of_nat (length kimg) :: u64) :: u32) = ?len"
    "unat ?len = length kimg"
    using len by (simp_all add: unat_of_nat unsigned_of_nat take_bit_nat_eq_self)
  have ld: "kernel_image_load ?z m = Done (SBCOK, \<lparr>lv_length = ?len, lv_pad = 0, lv_value = Some kimg\<rparr>) m"
    using first_file_found [OF ff] pools info vol ff len u
    by (simp add: kernel_image_load_def SBC_FindEfiFileSystemProtocol_def node_size_def Let_def andthen_Done EFI_ERROR_def
        ReadFile_whole first_file_def)
  have "0 < (ucast ?len :: u64)" using u assms(2) by (intro ucast_pos) auto
  then show ?thesis using ld assms(3,4) u by (simp add: SBC_GenOSID_def andthen_Done)
qed

definition dice_ok :: "machine \<Rightarrow> nat \<Rightarrow> hw_uniqueinfo \<Rightarrow> bytes \<Rightarrow> bytes \<Rightarrow> bool" where
  "dice_ok m i info img kimg \<longleftrightarrow> hw_info m = Done info m \<and> fsbl_ok m info img \<and>
     (\<exists>dev. ssbl_ok m i dev (ssbl_startlba 1)) \<and> (\<exists>v. readable_file m OSID_KERNEL_PATH v kimg) \<and> kimg \<noteq> []"

definition dice_chain :: "hw_uniqueinfo \<Rightarrow> bytes \<Rightarrow> bytes \<Rightarrow> bytes \<Rightarrow> atp_ident" where
  "dice_chain info img kimg mig =
     (let d = sha256 (hw_bytes info @ take SBC_AT_HASH_LEN img);
          f = sha256 (d @ sha256 (zeros SBC_AT_HASH_LEN));
          os = sha256 (f @ sha256 kimg) in
      \<lparr>devid = d, fwid = f, osid = os, migid = mig\<rparr>)"

lemma DiceKeysGen_sound:
  assumes "dice_ok m i info img kimg"
  shows "SBC_DiceKeysGen (Some i) p 1 b m = Done (SBCOK, dice_chain info img kimg (migid p)) m"
proof -
  obtain dev v where ok: "hw_info m = Done info m" "fsbl_ok m info img" "ssbl_ok m i dev (ssbl_startlba 1)"
    "readable_file m OSID_KERNEL_PATH v kimg" "kimg \<noteq> []"
    using assms(1) by (auto simp: dice_ok_def)
  have pool: "pool_ok m (2 * SBC_AT_HASH_LEN)" using ok(3) by (simp add: ssbl_ok_def)
  show ?thesis
    using GenDeviceID_sound [OF ok(1,2)] GenFWID_sound [OF ok(3)] GenOSID_sound [OF ok(4,5) pool]
    by (simp add: SBC_DiceKeysGen_def andthen_Done dice_chain_def Let_def)
qed

lemma DiceKeysGen_lengths:
  assumes "SBC_DiceKeysGen h p nb md m = Done (SBCOK, q) m'"
  shows "length (devid q) = 32 \<and> length (fwid q) = 32 \<and> length (osid q) = 32 \<and> migid q = migid p"
proof -
  obtain d m1 where d: "SBC_GenDeviceID (devid p) m = Done (SBCOK, d) m1"
    using assms by (auto simp: SBC_DiceKeysGen_def andthen_eq_Done Let_def split: if_splits)
  obtain f m2 where f: "SBC_GenFWID h d (fwid p) nb md m1 = Done (SBCOK, f) m2"
    using assms d by (auto simp: SBC_DiceKeysGen_def andthen_eq_Done andthen_Done Let_def split: if_splits)
  obtain os m3 where os: "SBC_GenOSID f (osid p) m2 = Done (SBCOK, os) m3"
    using assms d f by (auto simp: SBC_DiceKeysGen_def andthen_eq_Done andthen_Done Let_def)
  show ?thesis
    using assms d f os GenDeviceID_length [OF d] GenFWID_length [OF f] GenOSID_length [OF os]
    by (auto simp: SBC_DiceKeysGen_def andthen_Done Let_def)
qed

end
