(* ===== verification/Sbc_Runs.thy ===== *)
theory Sbc_Runs
  imports Sbc_Ssbl
begin

text \<open>
  Runs of the second stage on machines whose checks pass: what one run does in
  each boot mode, and an update carried through its restarts.
\<close>

section \<open>Machines that boot\<close>

text \<open>Device \<open>i\<close> is the first raw partition, and those before it can be read.\<close>

definition raw_prt_at :: "machine \<Rightarrow> nat \<Rightarrow> nvme_device \<Rightarrow> bool" where
  "raw_prt_at m i dev \<longleftrightarrow> blkdev m i = Some dev \<and> servable dev 0 512 \<and> is_raw_prt dev \<and> pool_ok m 512 \<and>
     (\<forall>j < i. \<exists>x. blkdev m j = Some x \<and> servable x 0 512 \<and> \<not> is_raw_prt x)"

lemma raw_prt_found:
  assumes "raw_prt_at m i dev"
  shows "SBC_BlkIoHandleInit hdr m = Done (SBCOK, Some i, dev_hdr dev) m"
proof -
  have i: "i < length (blkdevs m)" "blkdevs m ! i = Some dev"
    using assms by (auto simp: raw_prt_at_def blkdev_def split: if_splits)
  have "list_all (\<lambda>d. \<exists>x. d = Some x \<and> servable x 0 512 \<and> \<not> is_raw_prt x) (take i (blkdevs m))"
    using assms i(1) by (auto simp: list_all_length raw_prt_at_def blkdev_def split: if_splits)
  moreover have "blkdevs m = take i (blkdevs m) @ Some dev # drop (Suc i) (blkdevs m)"
    using i by (metis id_take_nth_drop)
  ultimately show ?thesis
    using BlkIoHandleInit_first [of m "take i (blkdevs m)" dev "drop (Suc i) (blkdevs m)" hdr] assms i(1)
    by (simp add: raw_prt_at_def)
qed

text \<open>A boot mode file, where there is one, fits the buffer it is read into.\<close>

definition bm_file_ok :: "machine \<Rightarrow> bool" where
  "bm_file_ok m \<longleftrightarrow> (\<forall>c. fs_open m 0 BOOT_MODE_FNAME = Inr (RegFile c) \<longrightarrow> length c \<le> 16)"

lemma ReadBootMode_returns:
  assumes "bm_file_ok m"
  obtains md where "SBC_ReadBootMode m = Done md m"
proof -
  have "\<exists>r. SBC_ReadFile 0 BOOT_MODE_FNAME lv m = Done r m" if "lv_value lv = Some (zeros 16)" for lv
    using assms that by (auto simp: bm_file_ok_def SBC_ReadFile_def Let_def split: sum.splits node.splits option.splits)
  then obtain st lv where "volumes m = [] \<or> SBC_ReadFile 0 BOOT_MODE_FNAME
      \<lparr>lv_length = 16, lv_pad = rd32 (stale_bytes m 4), lv_value = Some (zeros 16)\<rparr> m = Done (st, lv) m"
    by (metis LV.select_convs(3) surj_pair)
  then have "\<exists>md. SBC_ReadBootMode m = Done md m"
    by (cases "volumes m = []"; cases "st = EFI_SUCCESS")
      (simp_all add: SBC_ReadBootMode_def SBC_FileSysFindHndl_def lv_set_data_def andthen_Done Let_def)
  then show ?thesis using that by blast
qed

text \<open>
  A machine on which the checks of the entry point pass: \<open>ans\<close> is the base answer
  of its signed first stage image, \<open>img\<close> that image as the device identifier sees
  it, \<open>kimg\<close> its kernel.
\<close>

definition signed_file :: "openssl \<Rightarrow> machine \<Rightarrow> path \<Rightarrow> bytes \<Rightarrow> bool" where
  "signed_file ssl m p ans \<longleftrightarrow> (\<exists>v code fw cert sg trailer. layout_ok code ans fw cert sg trailer \<and>
     signature_good ssl code cert sg \<and> readable_file m p v (image_layout code ans fw cert sg trailer)) \<and> pool_ok m (length ans)"

abbreviation signed_fsbl :: "openssl \<Rightarrow> machine \<Rightarrow> bytes \<Rightarrow> bool" where
  "signed_fsbl ssl m ans \<equiv> signed_file ssl m FSBL_PATH ans"

definition bootable :: "openssl \<Rightarrow> machine \<Rightarrow> nat \<Rightarrow> nvme_device \<Rightarrow> hw_uniqueinfo \<Rightarrow> bytes \<Rightarrow> bytes \<Rightarrow> bytes \<Rightarrow> bool" where
  "bootable ssl m i dev info ans img kimg \<longleftrightarrow> raw_prt_at m i dev \<and> settings_ok m i dev \<and> signed_fsbl ssl m ans \<and>
     dice_ok m i info img kimg \<and> bm_file_ok m \<and> gcm_correct ssl \<and>
     (\<forall>k b. rng m k 12 = Some b \<longrightarrow> length b = 12)"

abbreviation ans_lv :: "bytes \<Rightarrow> LV" where
  "ans_lv ans \<equiv> \<lparr>lv_length = word_of_nat (length ans), lv_pad = 0, lv_value = Some ans\<rparr>"

lemma signed_file_verifies:
  assumes "signed_file ssl m p ans"
  shows "verify_file ssl p m = Done (SBCOK, Some (ans_lv ans)) m"
  using assms by (auto simp: signed_file_def verify_file_whole verify_image_layout)

lemma signed_fsbl_verifies: "signed_fsbl ssl m ans \<Longrightarrow> SBC_SSBL_Verify ssl h b m = Done (SBCOK, Some (ans_lv ans)) m"
  unfolding SBC_SSBL_Verify_def by (rule signed_file_verifies)

lemma signed_fsbl_short:
  assumes "signed_fsbl ssl m ans"
  shows "length ans < 256"
proof -
  obtain code fw cert sg trailer where "layout_ok code ans fw cert sg trailer"
    using assms by (auto simp: signed_file_def)
  then show ?thesis using small_lengths(4) [of trailer] by (simp add: layout_ok_def trailer_lengths_def Let_def)
qed

lemma bootable_checks:
  assumes "bootable ssl m i dev info ans img kimg"
  shows "checks_pass ssl m i (dev_hdr dev) (ans_lv ans) (dice_chain info img kimg (stale_bytes m 32))"
  using assms raw_prt_found [of m i dev zero_hdr] DiceKeysGen_sound [of m i info img kimg "stale_ident m"]
  by (simp add: checks_pass_def bootable_def signed_fsbl_verifies) (simp add: stale_ident_def)

section \<open>One run\<close>

lemma dice_lengths [simp]: "length (osid (dice_chain info img kimg mig)) = 32"
  "migid (dice_chain info img kimg mig) = mig"
  "osid (dice_chain info img kimg mig\<lparr>migid := x\<rparr>) = osid (dice_chain info img kimg mig)"
  by (simp_all add: dice_chain_def Let_def)

lemma bootable_facts:
  assumes "bootable ssl m i dev info ans img kimg"
  shows "settings_ok m i dev" "header_ok m i dev" "gcm_correct ssl"
    "length ans = unat (lv_length (ans_lv ans))" "unat (lv_length (ans_lv ans)) \<le> 256" 
    "\<forall>b. rng m (rng_calls m) 12 = Some b \<longrightarrow> length b = 12"
  using assms signed_fsbl_short [of ssl m ans]
  by (auto simp: bootable_def raw_prt_at_def header_ok_def unat_of_nat)

lemma UefiMain_bootable:
  assumes "bootable ssl m i dev info ans img kimg" "bootmode (dev_hdr dev) \<noteq> 0"
  defines "hdr \<equiv> dev_hdr dev"
  shows "UefiMain ssl m =
    andthen (boot_mode_switch ssl (ucast (bootmode hdr)) (current_bank hdr) (FindPreviouslyBank (current_bank hdr))
        (boot_context i hdr (ans_lv ans) (dice_chain info img kimg (stale_bytes m 32))))
      (\<lambda>ret. if ret \<noteq> SBCOK then SBC_ShutdownSystem
        else andthen SBC_GRUB_LoadAndStart (\<lambda>ret. if ret \<noteq> SBCOK then SBC_ShutdownSystem else retn EFI_SUCCESS)) m"
proof -
  obtain md where "SBC_ReadBootMode m = Done md m" using assms(1) ReadBootMode_returns [of m] by (auto simp: bootable_def)
  then show ?thesis using UefiMain_checked [OF bootable_checks [OF assms(1)]] assms(2) by (simp add: hdr_def)
qed

lemma keymode_forgotten [simp]:
  "with_modes b k (h\<lparr>keymode := x\<rparr>) = with_modes b k h" "hdr_wf (h\<lparr>keymode := x\<rparr>) = hdr_wf h"
  by (simp_all add: with_modes_def hdr_wf_def)

lemma normal_run:
  assumes "bootable ssl m i dev info ans img kimg" "bootmode (dev_hdr dev) = 1"
  shows "UefiMain ssl m = Done EFI_SUCCESS (let m1 = put_blkdev i (dev_put dev 0 (hdr_sector (with_modes 1 1 (dev_hdr dev)))) m
     in grub_loop 0 (length (volumes m1)) m1)"
  using UefiMain_bootable [OF assms(1)] assms(2) ModeChange_sound [OF bootable_facts(2) [OF assms(1)]]
  by (simp add: boot_mode_switch_def andthen_Done SBC_SecureBootCheck_def boot_context_def SBC_ResetScenario_def
      SBC_GRUB_LoadAndStart_def Let_def)

text \<open>Where a run leaves the machine when it seals the base answer and restarts with new modes.\<close>

definition restarted :: "nat \<Rightarrow> nvme_device \<Rightarrow> bytes \<Rightarrow> u32 \<Rightarrow> u32 \<Rightarrow> machine \<Rightarrow> machine" where
  "restarted i dev bs b k m = put_blkdev i (dev_put (dev_put dev ANS_SLOT bs) 0 (hdr_sector (with_modes b k (dev_hdr dev)))) (ans_machine m)"

lemma reseal_restart:
  assumes "bootable ssl m i dev info ans img kimg" "length key = 32"
  obtains bs where "length bs = 48 + length ans" "sealed ssl key ans (dev_put dev ANS_SLOT bs)"
    "SBC_BaseAnswerEncryptStore ssl (Some i) (Some ans) (word_of_nat (length ans)) key m =
      Done SBCOK (put_blkdev i (dev_put dev ANS_SLOT bs) (ans_machine m))"
    "\<And>b k bp. blkhnd bp = Some i \<Longrightarrow> rawprt bp = dev_hdr dev \<Longrightarrow>
      SBC_BootKeyModeChange b k (Some bp) (put_blkdev i (dev_put dev ANS_SLOT bs) (ans_machine m)) =
      Done (SBCOK, bp\<lparr>rawprt := with_modes b k (dev_hdr dev)\<rparr>) (restarted i dev bs b k m)"
proof -
  note f = bootable_facts [OF assms(1)]
  obtain bs where bs: "length bs = 48 + length ans" "sealed ssl key ans (dev_put dev ANS_SLOT bs)"
    "SBC_BaseAnswerEncryptStore ssl (Some i) (Some ans) (word_of_nat (length ans)) key m =
      Done SBCOK (put_blkdev i (dev_put dev ANS_SLOT bs) (ans_machine m))"
    using EncryptStore_seals [OF f(1,3) assms(2) f(4-6)] by auto
  have "header_ok (put_blkdev i (dev_put dev ANS_SLOT bs) (ans_machine m)) i (dev_put dev ANS_SLOT bs)"
    using f(2) by (intro header_ok_put) simp
  from ModeChange_sound [OF this] show ?thesis
    by (intro that [OF bs]) (simp add: restarted_def)
qed

lemma update_run:
  assumes boot: "bootable ssl m i dev info ans img kimg" and bm: "bootmode (dev_hdr dev) = 2"
    and mig: "SBC_GenMigrationKey (Some i) (current_bank (dev_hdr dev)) (FindPreviouslyBank (current_bank (dev_hdr dev)))
        (stale_bytes m 32) m = Done (SBCOK, key) m" "length key = 32"
  obtains bs where "length bs = 48 + length ans" "sealed ssl key ans (dev_put dev ANS_SLOT bs)"
    "UefiMain ssl m = Halted EfiResetCold (restarted i dev bs 3 1 m)"
proof -
  obtain bs where bs: "length bs = 48 + length ans" "sealed ssl key ans (dev_put dev ANS_SLOT bs)"
    "SBC_BaseAnswerEncryptStore ssl (Some i) (Some ans) (word_of_nat (length ans)) key m =
      Done SBCOK (put_blkdev i (dev_put dev ANS_SLOT bs) (ans_machine m))"
    "\<And>b k bp. blkhnd bp = Some i \<Longrightarrow> rawprt bp = dev_hdr dev \<Longrightarrow>
      SBC_BootKeyModeChange b k (Some bp) (put_blkdev i (dev_put dev ANS_SLOT bs) (ans_machine m)) =
      Done (SBCOK, bp\<lparr>rawprt := with_modes b k (dev_hdr dev)\<rparr>) (restarted i dev bs b k m)"
    using reseal_restart [OF boot mig(2)] by blast
  have "UefiMain ssl m = Halted EfiResetCold (restarted i dev bs 3 1 m)"
    using UefiMain_bootable [OF boot] bm mig(1) bs(3,4)
    by (simp add: boot_mode_switch_def andthen_def SBC_SecureBootCheck_def boot_context_def SBC_ResetScenario_def
        SBC_UpdateBootPorcsesing_def update_behavior_for_km_def update_reset_check_and_behavior_def SBC_RebootSystem_def Let_def)
  then show ?thesis using bs that by blast
qed

lemma recovery_run:
  assumes boot: "bootable ssl m i dev info ans img kimg" and bm: "bootmode (dev_hdr dev) = 3"
    and km: "keymode (dev_hdr dev) \<in> {1, 2, 3}" and bank: "current_bank (dev_hdr dev) \<in> {1, 2}"
  obtains bs where "length bs = 48 + length ans"
    "sealed ssl (osid (dice_chain info img kimg [])) ans (dev_put dev ANS_SLOT bs)"
    "UefiMain ssl m = Halted EfiResetCold (restarted i dev bs 1 1 m)"
proof -
  let ?key = "osid (dice_chain info img kimg (stale_bytes m 32))"
  have eq: "?key = osid (dice_chain info img kimg [])" by (simp add: dice_chain_def Let_def)
  have len: "length ?key = 32" by simp
  obtain bs where bs: "length bs = 48 + length ans" "sealed ssl ?key ans (dev_put dev ANS_SLOT bs)"
    "SBC_BaseAnswerEncryptStore ssl (Some i) (Some ans) (word_of_nat (length ans)) ?key m =
      Done SBCOK (put_blkdev i (dev_put dev ANS_SLOT bs) (ans_machine m))"
    "\<And>b k bp. blkhnd bp = Some i \<Longrightarrow> rawprt bp = dev_hdr dev \<Longrightarrow>
      SBC_BootKeyModeChange b k (Some bp) (put_blkdev i (dev_put dev ANS_SLOT bs) (ans_machine m)) =
      Done (SBCOK, bp\<lparr>rawprt := with_modes b k (dev_hdr dev)\<rparr>) (restarted i dev bs b k m)"
    using reseal_restart [OF boot len] by blast
  have prev: "(ucast (FindPreviouslyBank (current_bank (dev_hdr dev))) :: u64) \<noteq> 0"
    using bank by (auto simp: FindPreviouslyBank_def)
  have "UefiMain ssl m = Halted EfiResetCold (restarted i dev bs 1 1 m)"
    using UefiMain_bootable [OF boot] bm km prev bs(3,4)
    by (auto simp: boot_mode_switch_def andthen_def SBC_SecureBootCheck_def boot_context_def
        SBC_RecoveryBootProcessing_def check_prev_fw_def SBC_RebootSystem_def Let_def)
  then show ?thesis using bs that eq by simp
qed

section \<open>Runs across restarts\<close>

text \<open>What a restart leaves alone: everything but the media, the random numbers drawn and the contents of memory.\<close>

definition same_platform :: "machine \<Rightarrow> machine \<Rightarrow> bool" where
  "same_platform m m' \<longleftrightarrow> volumes m' = volumes m \<and> smbios m' = smbios m \<and> nvme_identify m' = nvme_identify m \<and>
     pool_ok m' = pool_ok m \<and> rng m' = rng m \<and> loadable m' = loadable m"

lemma platform_files:
  assumes "same_platform m m'"
  shows "fs_open m' = fs_open m" "readable_file m' = readable_file m" "fsbl_ok m' = fsbl_ok m"
    "bm_file_ok m' = bm_file_ok m" "signed_fsbl ssl m' = signed_fsbl ssl m"
proof -
  show op: "fs_open m' = fs_open m" using assms by (simp add: fun_eq_iff fs_open_def same_platform_def)
  have acc: "SBC_IsFlieAccess m' = SBC_IsFlieAccess m" by (simp add: fun_eq_iff SBC_IsFlieAccess_def op)
  show rd: "readable_file m' = readable_file m"
    using assms by (simp add: fun_eq_iff readable_file_def first_file_def info_ok_def file_info_def op acc same_platform_def)
  show "fsbl_ok m' = fsbl_ok m" "bm_file_ok m' = bm_file_ok m" "signed_fsbl ssl m' = signed_fsbl ssl m"
    using assms by (simp_all add: fun_eq_iff fsbl_ok_def bm_file_ok_def signed_file_def op rd same_platform_def)
qed

text \<open>The serial numbers come from the tables of the board and from the controllers.\<close>

definition same_board :: "machine \<Rightarrow> machine \<Rightarrow> bool" where
  "same_board m m' \<longleftrightarrow> smbios m' = smbios m \<and> nvme_identify m' = nvme_identify m \<and> pool_ok m' = pool_ok m"

lemma platform_board: "same_platform m m' \<Longrightarrow> same_board m m'"
  by (simp add: same_platform_def same_board_def)

lemma board_serials:
  assumes "same_board m m'"
  shows "baseboard_sn p m = Done x m \<Longrightarrow> baseboard_sn p m' = Done x m'"
    "memorydevice_sn p m = Done x m \<Longrightarrow> memorydevice_sn p m' = Done x m'"
    "nvme_get_serial p m = Done x m \<Longrightarrow> nvme_get_serial p m' = Done x m'"
  using assms
  by (auto simp: same_board_def baseboard_sn_def memorydevice_sn_def nvme_get_serial_def split: option.splits sum.splits if_splits)

lemma board_hw_info:
  assumes "same_board m m'" "hw_info m = Done info m"
  shows "hw_info m' = Done info m'"
proof -
  obtain r1 i1 r2 i2 r3 where 1: "baseboard_sn zero_info m = Done (r1, i1) m"
    and 2: "memorydevice_sn i1 m = Done (r2, i2) m" and 3: "nvme_get_serial i2 m = Done (r3, info) m"
    using assms(2) readonly_Done [OF ro_serials(1)] readonly_Done [OF ro_serials(2)] readonly_Done [OF ro_serials(3)]
    by (fastforce simp: hw_info_def andthen_eq_Done)
  then show ?thesis using board_serials [OF assms(1)] by (simp add: hw_info_def andthen_Done)
qed

text \<open>The medium as a run leaves it that seals the base answer again and changes the modes.\<close>

abbreviation resealed :: "nvme_device \<Rightarrow> bytes \<Rightarrow> u32 \<Rightarrow> u32 \<Rightarrow> nvme_device" where
  "resealed dev bs b k \<equiv> dev_put (dev_put dev ANS_SLOT bs) 0 (hdr_sector (with_modes b k (dev_hdr dev)))"

lemma length_hdr_sector [simp]: "hdr_wf h \<Longrightarrow> length (hdr_sector h) = 512"
  by (simp add: hdr_sector_def length_hdr_bytes)

lemma with_modes_twice [simp]: "with_modes b k (with_modes b' k' h) = with_modes b k h"
  by (simp add: with_modes_def)

lemma resealed_hdr [simp]: "dev_hdr (resealed dev bs b k) = with_modes b k (dev_hdr dev)"
  by simp

lemma ssbl_startlba_1: "ssbl_startlba 1 = 0x2001"
  by code_simp

lemma resealed_ssbl: "ssbl_image_len (resealed dev bs b k) (ssbl_startlba 1) = ssbl_image_len dev (ssbl_startlba 1)"
  by (simp add: ssbl_image_len_def ssbl_startlba_1 dev_bytes_put_other)

text \<open>A restart with whatever is in memory then.\<close>

definition power_cycle :: "(nat \<Rightarrow> byte) \<Rightarrow> machine \<Rightarrow> machine" where
  "power_cycle s m = m\<lparr>stale := s\<rparr>"

lemma power_cycle_fields [simp]:
  "blkdev (power_cycle s m) = blkdev m" "started (power_cycle s m) = started m" "pool_ok (power_cycle s m) = pool_ok m"
  "rng (power_cycle s m) = rng m" "volumes (power_cycle s m) = volumes m" "loadable (power_cycle s m) = loadable m"
  by (simp_all add: power_cycle_def blkdev_def fun_eq_iff)

lemma restarted_fields [simp]:
  "started (restarted i dev bs b k m) = started m" "pool_ok (restarted i dev bs b k m) = pool_ok m"
  "rng (restarted i dev bs b k m) = rng m" "volumes (restarted i dev bs b k m) = volumes m"
  "loadable (restarted i dev bs b k m) = loadable m"
  "blkdev m i = Some d \<Longrightarrow> blkdev (restarted i dev bs b k m) i = Some (resealed dev bs b k)"
  "j \<noteq> i \<Longrightarrow> blkdev (restarted i dev bs b k m) j = blkdev m j"
  by (simp_all add: restarted_def ans_machine_def) (simp_all add: blkdev_def put_blkdev_def split: if_splits)

text \<open>A machine stays bootable when only the partition changes, outside its magic number and the length of its image.\<close>

lemma bootable_moved:
  assumes boot: "bootable ssl m i dev info ans img kimg" and plat: "same_platform m m'"
    and dev': "blkdev m' i = Some dev'" "\<And>j. j \<noteq> i \<Longrightarrow> blkdev m' j = blkdev m j" "is_raw_prt dev'"
      "\<And>lba len. servable dev' lba len = servable dev lba len"
      "ssbl_image_len dev' (ssbl_startlba 1) = ssbl_image_len dev (ssbl_startlba 1)"
  shows "bootable ssl m' i dev' info ans img kimg"
proof -
  have raw: "raw_prt_at m i dev" and set: "settings_ok m i dev" and dice: "dice_ok m i info img kimg"
    using boot by (simp_all add: bootable_def)
  have pool: "pool_ok m' = pool_ok m" "rng m' = rng m" using plat by (simp_all add: same_platform_def)
  have dev: "blkdev m i = Some dev" using raw by (simp add: raw_prt_at_def)
  have "raw_prt_at m' i dev'" using raw dev' pool by (auto simp: raw_prt_at_def)
  moreover have "settings_ok m' i dev'" using set dev' pool by (simp add: settings_ok_def)
  moreover have "dice_ok m' i info img kimg"
  proof -
    obtain d where "ssbl_ok m i d (ssbl_startlba 1)" using dice by (auto simp: dice_ok_def)
    then have "ssbl_ok m' i dev' (ssbl_startlba 1)" using dev dev' pool by (simp add: ssbl_ok_def)
    then show ?thesis using dice board_hw_info [OF platform_board [OF plat]] by (auto simp: dice_ok_def platform_files [OF plat])
  qed
  ultimately show ?thesis using boot pool by (simp add: bootable_def platform_files [OF plat])
qed

lemma bootable_restarted:
  assumes "bootable ssl m i dev info ans img kimg"
  shows "bootable ssl (power_cycle s (restarted i dev bs b k m)) i (resealed dev bs b k) info ans img kimg"
proof (rule bootable_moved [OF assms])
  have raw: "raw_prt_at m i dev" using assms by (simp add: bootable_def)
  then show "blkdev (power_cycle s (restarted i dev bs b k m)) i = Some (resealed dev bs b k)"
    "is_raw_prt (resealed dev bs b k)" by (simp_all add: raw_prt_at_def is_raw_prt_def)
  show "same_platform m (power_cycle s (restarted i dev bs b k m))"
    by (simp add: same_platform_def) (simp add: power_cycle_def restarted_def ans_machine_def)
  show "ssbl_image_len (resealed dev bs b k) (ssbl_startlba 1) = ssbl_image_len dev (ssbl_startlba 1)"
    by (rule resealed_ssbl)
qed simp_all

lemma grub_loop_result:
  "started (grub_loop i k m) = started m @ (if \<exists>v. i \<le> v \<and> v < i + k \<and> can_load m GRUB_PATH v then [GRUB_PATH] else [])
   \<and> blkdev (grub_loop i k m) = blkdev m \<and> pool_ok (grub_loop i k m) = pool_ok m"
proof (induction i k m rule: grub_loop.induct)
  case (2 i k m)
  show ?case
  proof (cases "can_load m GRUB_PATH i")
    case False
    then have "(i \<le> v \<and> v < i + Suc k \<and> can_load m GRUB_PATH v) = (Suc i \<le> v \<and> v < Suc i + k \<and> can_load m GRUB_PATH v)" for v
      by (cases "v = i") auto
    then show ?thesis using 2 False by simp
  next
    case True
    then have "\<exists>v. i \<le> v \<and> v < i + Suc k \<and> can_load m GRUB_PATH v" by (intro exI [of _ i]) simp
    then show ?thesis using True by (simp add: blkdev_def fun_eq_iff)
  qed
qed simp

text \<open>
  An update, run after run: the first seals the base answer under the migration
  key, the second under the OS identifier, the third starts the boot loader of
  the system, if a volume has it.
\<close>

lemma update_cycle:
  assumes boot: "bootable ssl m i dev info ans img kimg" and bm: "bootmode (dev_hdr dev) = 2"
    and bank: "current_bank (dev_hdr dev) \<in> {1, 2}"
    and mig: "migration_ok m i dev info (current_bank (dev_hdr dev)) (FindPreviouslyBank (current_bank (dev_hdr dev)))"
  shows "\<exists>m1 m2 m3 dev3. UefiMain ssl m = Halted EfiResetCold m1 \<and>
    UefiMain ssl (power_cycle s1 m1) = Halted EfiResetCold m2 \<and>
    UefiMain ssl (power_cycle s2 m2) = Done EFI_SUCCESS m3 \<and>
    settings_ok m3 i dev3 \<and> dev_hdr dev3 = with_modes 1 1 (dev_hdr dev) \<and>
    sealed ssl (osid (dice_chain info img kimg [])) ans dev3 \<and>
    (started m3 = started m @ [GRUB_PATH] \<or> started m3 = started m \<and> (\<forall>v < length (volumes m). \<not> can_load m GRUB_PATH v))"
proof -
  define key where "key = snd (case SBC_GenMigrationKey (Some i) (current_bank (dev_hdr dev))
    (FindPreviouslyBank (current_bank (dev_hdr dev))) (stale_bytes m 32) m of Done r _ \<Rightarrow> r)"
  have key: "SBC_GenMigrationKey (Some i) (current_bank (dev_hdr dev)) (FindPreviouslyBank (current_bank (dev_hdr dev)))
      (stale_bytes m 32) m = Done (SBCOK, key) m" "length key = 32"
    using GenMigrationKey_value [OF mig] by (simp_all add: key_def Let_def migration_key_def)
  obtain b1 where r1: "UefiMain ssl m = Halted EfiResetCold (restarted i dev b1 3 1 m)"
    using update_run [OF boot bm key] by blast
  let ?m1 = "power_cycle s1 (restarted i dev b1 3 1 m)" and ?d1 = "resealed dev b1 3 1"
  note boot1 = bootable_restarted [OF boot, of s1 b1 3 1]
  have h1: "bootmode (dev_hdr ?d1) = 3" "keymode (dev_hdr ?d1) \<in> {1, 2, 3}" "current_bank (dev_hdr ?d1) \<in> {1, 2}"
    using bank by (simp_all add: current_bank_def)
  obtain b2 where b2: "length b2 = 48 + length ans" "sealed ssl (osid (dice_chain info img kimg [])) ans (dev_put ?d1 ANS_SLOT b2)"
    and r2: "UefiMain ssl ?m1 = Halted EfiResetCold (restarted i ?d1 b2 1 1 ?m1)"
    using recovery_run [OF boot1 h1] by blast
  let ?m2 = "power_cycle s2 (restarted i ?d1 b2 1 1 ?m1)" and ?d2 = "resealed ?d1 b2 1 1"
  note boot2 = bootable_restarted [OF boot1, of s2 b2 1 1]
  let ?d3 = "dev_put ?d2 0 (hdr_sector (with_modes 1 1 (dev_hdr ?d2)))"
  define m3 where "m3 = put_blkdev i ?d3 ?m2"
  have r3: "UefiMain ssl ?m2 = Done EFI_SUCCESS (grub_loop 0 (length (volumes m3)) m3)"
    using normal_run [OF boot2] by (simp add: Let_def m3_def)
  have "sealed ssl (osid (dice_chain info img kimg [])) ans ?d3" using b2(2) by (simp add: sealed_put_below)
  moreover have "settings_ok (grub_loop 0 (length (volumes m3)) m3) i ?d3"
    using bootable_facts(1) [OF boot2] grub_loop_result [of 0 "length (volumes m3)" m3]
    by (simp add: m3_def settings_ok_def)
  moreover have "dev_hdr ?d3 = with_modes 1 1 (dev_hdr dev)" by simp
  moreover have "started m3 = started m" "volumes m3 = volumes m" by (simp_all add: m3_def)
  moreover have "can_load m3 p v = can_load m p v" for p v
    by (rule can_load_cong) (simp_all add: m3_def)
  ultimately show ?thesis
    using r1 r2 r3 grub_loop_result [of 0 "length (volumes m3)" m3] by (auto split: if_splits)
qed

end
