(* ===== verification/Sbc_FileWrite.thy ===== *)
theory Sbc_FileWrite
  imports Sbc_FileCtrl
begin

text \<open>
  Writing files: opening for writing and the write itself as the FAT driver does
  them (\<^verbatim>\<open>FatPkg/EnhancedFatDxe\<close>), and the functions of \<^verbatim>\<open>SBC_FileCtrl.c\<close> that
  create, write and append.  The interface \<open>file_store\<close> says what a write leaves
  in the files; it is interpreted on \<open>SBC_WriteFile\<close>.
\<close>

section \<open>The FAT driver\<close>

text \<open>Change an entry of a volume.\<close>

definition put_node :: "nat \<Rightarrow> path \<Rightarrow> node \<Rightarrow> machine \<Rightarrow> machine" where
  "put_node h k n m = (if length (volumes m) \<le> h then m
     else case volumes m ! h of None \<Rightarrow> m
     | Some v \<Rightarrow> m\<lparr>volumes := (volumes m)[h := Some (set_node k n v)]\<rparr>)"

text \<open>
  Open for reading and writing.  With \<open>new\<close> the mode has the create bit: what is
  not there is made, in a directory that has to be there.  A path that exists is
  opened as it is, with its contents, unless it is a file that is read only.
  \<open>vol_wopen\<close> is the answer of the checks in front, on a volume that is write
  protected or a handle in error, and \<open>vol_create\<close> that of making an entry with its
  dot entries.  The open instance always gets its memory and the flush at the end
  succeeds.  The result is the entry and what it holds.
\<close>

definition FatOFileOpen :: "volume \<Rightarrow> path \<Rightarrow> node option \<Rightarrow> efi_status + path \<times> node" where
  "FatOFileOpen v p new =
     (if EFI_ERROR (vol_wopen v) then Inl (vol_wopen v)
      else case FatLocateOFile v p of Inl e \<Rightarrow> Inl e
      | Inr (k, found) \<Rightarrow> (case (if found then node_at v k else None) of
            Some n \<Rightarrow> if vol_readonly v k \<and> n \<noteq> Directory then Inl EFI_ACCESS_DENIED else Inr (k, n)
          | None \<Rightarrow> (case new of None \<Rightarrow> Inl EFI_NOT_FOUND
              | Some n \<Rightarrow> if EFI_ERROR (vol_create v) then Inl (vol_create v) else Inr (k, n))))"

text \<open>
  The write of \<open>n\<close> bytes at a position.  Growing beyond four gigabytes is refused,
  a refusal sets the size to zero, and what lies behind the written range stays.
  The last result is \<open>None\<close> when the driver would read behind the buffer.
\<close>

definition FatIFileAccess :: "volume \<Rightarrow> bytes \<Rightarrow> u64 \<Rightarrow> u64 \<Rightarrow> bytes \<Rightarrow> (efi_status \<times> u64 \<times> bytes) option" where
  "FatIFileAccess v content pos n buf =
     (let EndPosition = pos + n;
          grown = (if length content < unat EndPosition
                   then content @ map (vol_slack v) [length content..<unat EndPosition] else content) in
      if length content < unat EndPosition \<and> 0xFFFFFFFF < EndPosition then Some (EFI_UNSUPPORTED, 0, content)
      else if length content < unat EndPosition \<and> EFI_ERROR (vol_grow v (unat EndPosition))
      then Some (vol_grow v (unat EndPosition), 0, content)
      else if n = 0 then Some (EFI_SUCCESS, 0, grown)
      else case vol_write v (unat n) of (st, k) \<Rightarrow>
        let done = (if EFI_ERROR st then min k (unat n) else unat n) in
        if length buf < done \<or> length grown < unat pos + done then None
        else Some (st, word_of_nat done, overlay (unat pos) (take done buf) grown))"

section \<open>Create, write, append\<close>

definition lv_bytes :: "LV \<Rightarrow> bytes" where
  "lv_bytes lv = (case lv_value lv of None \<Rightarrow> [] | Some b \<Rightarrow> b)"

definition SBC_WriteFile :: "nat \<Rightarrow> path \<Rightarrow> LV \<Rightarrow> (efi_status \<times> LV) io" where
  "SBC_WriteFile h p out m =
     (if length (volumes m) \<le> h then Done (EFI_INVALID_PARAMETER, out) m
      else case volumes m ! h of None \<Rightarrow> Done (EFI_UNSUPPORTED, out) m
      | Some v \<Rightarrow>
        if EFI_ERROR (vol_open v) then Done (vol_open v, out) m
        else case FatOFileOpen v p (Some (RegFile [])) of Inl e \<Rightarrow> Done (e, out) m
        | Inr (k, Directory) \<Rightarrow> Done (EFI_UNSUPPORTED, out) m
        | Inr (k, RegFile content) \<Rightarrow>
          (case FatIFileAccess v content 0 (lv_size out) (lv_bytes out) of
             None \<Rightarrow> Faulted OutOfBounds (put_node h k (RegFile content) m)
           | Some (st, n, content') \<Rightarrow> Done (st, lv_set_size n out) (put_node h k (RegFile content') m)))"

text \<open>Appending: the file has to be there, and the position is set to its end.\<close>

definition SBC_LogWriteFile :: "nat \<Rightarrow> path \<Rightarrow> LV \<Rightarrow> (efi_status \<times> LV) io" where
  "SBC_LogWriteFile h p out m =
     (if length (volumes m) \<le> h then Done (EFI_INVALID_PARAMETER, out) m
      else case volumes m ! h of None \<Rightarrow> Done (EFI_UNSUPPORTED, out) m
      | Some v \<Rightarrow>
        if EFI_ERROR (vol_open v) then Done (vol_open v, out) m
        else case FatOFileOpen v p None of Inl e \<Rightarrow> Done (e, out) m
        | Inr (k, Directory) \<Rightarrow> Done (EFI_UNSUPPORTED, out) m
        | Inr (k, RegFile content) \<Rightarrow>
          (case FatIFileAccess v content (word_of_nat (length content)) (lv_size out) (lv_bytes out) of
             None \<Rightarrow> Faulted OutOfBounds m
           | Some (st, n, content') \<Rightarrow> Done (st, lv_set_size n out) (put_node h k (RegFile content') m)))"

definition create_node :: "node \<Rightarrow> nat \<Rightarrow> path \<Rightarrow> SBCStatus io" where
  "create_node new h p m =
     (if length (volumes m) \<le> h then Done SBCPROTO m
      else case volumes m ! h of None \<Rightarrow> Done SBCPROTO m
      | Some v \<Rightarrow>
        if EFI_ERROR (vol_open v) then Done SBCBADFMT m
        else case FatOFileOpen v p (Some new) of Inl e \<Rightarrow> Done SBCBADFMT m
        | Inr (k, n) \<Rightarrow> Done SBCOK (put_node h k n m))"

definition SBC_CreateFile :: "nat \<Rightarrow> path \<Rightarrow> SBCStatus io" where
  "SBC_CreateFile = create_node (RegFile [])"

definition SBC_CreateDirectory :: "nat \<Rightarrow> path \<Rightarrow> SBCStatus io" where
  "SBC_CreateDirectory = create_node Directory"

definition SBC_IsDirExist :: "machine \<Rightarrow> nat \<Rightarrow> path \<Rightarrow> bool" where
  "SBC_IsDirExist m h p = (case fs_open m h p of Inl e \<Rightarrow> False
     | Inr n \<Rightarrow> pool_ok m (file_info_size p) \<and> info_ok m h \<and> n = Directory)"

section \<open>What a write leaves\<close>

definition lv_of :: "bytes \<Rightarrow> LV" where
  "lv_of bs = \<lparr>lv_length = word_of_nat (length bs), lv_pad = 0, lv_value = Some bs\<rparr>"

definition file_of :: "machine \<Rightarrow> nat \<times> path \<Rightarrow> bytes option" where
  "file_of m f = (case fs_open m (fst f) (snd f) of Inr (RegFile c) \<Rightarrow> Some c | _ \<Rightarrow> None)"

text \<open>The entry a path names on its volume, whether it is there or would be made.\<close>

definition file_entry :: "machine \<Rightarrow> nat \<times> path \<Rightarrow> (nat \<times> path) option" where
  "file_entry m f = (if length (volumes m) \<le> fst f then None else case volumes m ! fst f of None \<Rightarrow> None
     | Some v \<Rightarrow> (case FatLocateOFile v (snd f) of Inl e \<Rightarrow> None | Inr (k, found) \<Rightarrow> Some (fst f, k)))"

text \<open>The file can be opened for writing, and \<open>n\<close> bytes can be written to it.\<close>

definition writable :: "machine \<Rightarrow> nat \<times> path \<Rightarrow> nat \<Rightarrow> bool" where
  "writable m f n \<longleftrightarrow> n < 2 ^ 32 \<and> fst f < length (volumes m) \<and> (case volumes m ! fst f of None \<Rightarrow> False
     | Some v \<Rightarrow> \<not> EFI_ERROR (vol_open v) \<and> \<not> EFI_ERROR (vol_wopen v) \<and> \<not> EFI_ERROR (vol_grow v n) \<and>
         vol_write v n = (EFI_SUCCESS, n) \<and>
         (case FatLocateOFile v (snd f) of Inl e \<Rightarrow> False
          | Inr (k, found) \<Rightarrow> node_at v k \<noteq> Some Directory \<and> \<not> vol_readonly v k \<and> \<not> EFI_ERROR (vol_create v)))"

lemma lv_set_size_same [simp]: "lv_set_size (lv_size lv) lv = lv"
proof -
  have "(ucast (lv_size lv) :: u32) = lv_length lv" "(ucast (drop_bit 32 (lv_size lv)) :: u32) = lv_pad lv"
    by (rule bit_word_eqI; auto simp: lv_size_def bit_simps dest: bit_imp_le_length)+
  then show ?thesis by (simp add: lv_set_size_def)
qed

lemma lv_of_size: "length bs < 2 ^ 32 \<Longrightarrow> unat (lv_size (lv_of bs)) = length bs"
  by (simp add: lv_of_def unat_of_nat)

lemma file_entryE:
  assumes "file_entry m (h, p) = Some e"
  obtains v k found where "h < length (volumes m)" "volumes m ! h = Some v" "FatLocateOFile v p = Inr (k, found)" "e = (h, k)"
  using assms by (auto simp: file_entry_def split: if_splits option.splits sum.splits)

lemma fs_open_put_node:
  assumes "h < length (volumes m)" "volumes m ! h = Some v" "\<not> EFI_ERROR (vol_open v)"
    and "node_at v k \<noteq> Some Directory" "n \<noteq> Directory"
  shows "file_entry m (h', p') = Some e \<Longrightarrow> fs_open (put_node h k n m) h' p' = (if e = (h, k) then Inr n else fs_open m h' p')"
    and "plain_path p' \<Longrightarrow> name_key p' \<noteq> k \<Longrightarrow> fs_open (put_node h k n m) h' p' = fs_open m h' p'"
    and "file_entry m g = Some e \<Longrightarrow> file_entry (put_node h k n m) g = Some e"
proof -
  show "fs_open (put_node h k n m) h' p' = (if e = (h, k) then Inr n else fs_open m h' p')" if "file_entry m (h', p') = Some e"
    using that
  proof (rule file_entryE)
    fix v' k' found assume v': "h' < length (volumes m)" "volumes m ! h' = Some v'" "FatLocateOFile v' p' = Inr (k', found)" "e = (h', k')"
    show ?thesis
    proof (cases "h' = h")
      case True
      then show ?thesis using assms(1-3) v' found_same [OF assms(4,5), of p' k' found] by (auto simp: put_node_def fs_open_def)
    qed (use assms(1,2) v' in \<open>simp add: put_node_def fs_open_def\<close>)
  qed
  show "plain_path p' \<Longrightarrow> name_key p' \<noteq> k \<Longrightarrow> fs_open (put_node h k n m) h' p' = fs_open m h' p'"
    using assms(1-3) LocateOFile_other [OF assms(4,5)] by (cases "h' = h") (auto simp: put_node_def fs_open_def)
  assume "file_entry m g = Some e"
  then have "file_entry m (fst g, snd g) = Some e" by simp
  then show "file_entry (put_node h k n m) g = Some e"
  proof (rule file_entryE)
    fix v' k' found assume v': "fst g < length (volumes m)" "volumes m ! fst g = Some v'" "FatLocateOFile v' (snd g) = Inr (k', found)" "e = (fst g, k')"
    show ?thesis
    proof (cases "fst g = h")
      case True
      then show ?thesis using assms(1-3) v' LocateOFile_set [OF assms(4,5), of "snd g" k' found] by (simp add: put_node_def file_entry_def)
    qed (use assms(1,2) v' in \<open>simp add: put_node_def file_entry_def\<close>)
  qed
qed

lemma put_node_fields [simp]:
  "blkdevs (put_node h p n m) = blkdevs m" "started (put_node h p n m) = started m"
  "pool_ok (put_node h p n m) = pool_ok m" "stale (put_node h p n m) = stale m" "loadable (put_node h p n m) = loadable m"
  "length (volumes (put_node h p n m)) = length (volumes m)"
  by (auto simp: put_node_def split: option.splits)

lemma put_node_volume:
  "h < length (volumes m) \<Longrightarrow> volumes m ! h = Some v \<Longrightarrow>
   volumes (put_node h p n m) ! h = Some (set_node p n v)"
  by (simp add: put_node_def)

lemma FatIFileAccess_ok:
  assumes "unat n < 2 ^ 32" "\<not> EFI_ERROR (vol_grow v (unat n))" "vol_write v (unat n) = (EFI_SUCCESS, unat n)" "unat n \<le> length buf"
  shows "FatIFileAccess v content 0 n buf = Some (EFI_SUCCESS, n, take (unat n) buf @ drop (unat n) content)"
proof -
  have n: "\<not> 0xFFFFFFFF < n" using assms(1) by (simp add: word_less_nat_alt)
  show ?thesis
  proof (cases "n = 0")
    case False
    then show ?thesis using assms n
      by (cases "length content < unat n") (simp_all add: FatIFileAccess_def Let_def overlay_def EFI_ERROR_def)
  qed (simp add: FatIFileAccess_def Let_def)
qed

lemma OFileOpen_file:
  assumes "FatOFileOpen v p new = Inr (k, RegFile c)"
  obtains found where "FatLocateOFile v p = Inr (k, found)" "node_at v k \<noteq> Some Directory"
  using assms LocateOFile_missing [of v p k]
  by (auto simp: FatOFileOpen_def split: if_splits sum.splits option.splits)

lemma WriteFile_ok:
  assumes "writable m (h, p) (unat (lv_size lv))" "unat (lv_size lv) \<le> length (lv_bytes lv)" "file_entry m (h, p) = Some (h, k)"
  shows "SBC_WriteFile h p lv m = Done (EFI_SUCCESS, lv)
    (put_node h k (RegFile (take (unat (lv_size lv)) (lv_bytes lv)
       @ drop (unat (lv_size lv)) (case file_of m (h, p) of None \<Rightarrow> [] | Some old \<Rightarrow> old))) m)"
proof -
  obtain v found where v: "h < length (volumes m)" "volumes m ! h = Some v" "\<not> EFI_ERROR (vol_open v)" "\<not> EFI_ERROR (vol_wopen v)"
    "unat (lv_size lv) < 2 ^ 32" "\<not> EFI_ERROR (vol_grow v (unat (lv_size lv)))"
    "vol_write v (unat (lv_size lv)) = (EFI_SUCCESS, unat (lv_size lv))"
    and k: "FatLocateOFile v p = Inr (k, found)" "node_at v k \<noteq> Some Directory" "\<not> vol_readonly v k" "\<not> EFI_ERROR (vol_create v)"
    using assms(1,3) by (auto simp: writable_def file_entry_def split: option.splits sum.splits)
  note acc = FatIFileAccess_ok [OF v(5-7) assms(2)]
  define old where "old = (case file_of m (h, p) of None \<Rightarrow> [] | Some old \<Rightarrow> old)"
  have "FatOFileOpen v p (Some (RegFile [])) = Inr (k, RegFile old)"
    using v(1-4) k by (auto simp: FatOFileOpen_def old_def file_of_def fs_open_def found_node_def split: option.splits node.splits)
  then show ?thesis using v acc by (simp add: SBC_WriteFile_def old_def)
qed

text \<open>A write leaves what a plain path to another entry finds.\<close>

lemma WriteFile_put:
  assumes "P m" "\<And>v k c. h < length (volumes m) \<Longrightarrow> volumes m ! h = Some v \<Longrightarrow> \<not> EFI_ERROR (vol_open v) \<Longrightarrow>
     file_entry m (h, p) = Some (h, k) \<Longrightarrow> node_at v k \<noteq> Some Directory \<Longrightarrow> P (put_node h k (RegFile c) m)"
  shows "P (final_world (SBC_WriteFile h p lv m))"
  using assms
  by (auto simp: SBC_WriteFile_def file_entry_def split: option.split sum.split node.split elim!: OFileOpen_file)

lemma WriteFile_others:
  assumes "plain_path p" "other_file p q"
  shows "fs_open (final_world (SBC_WriteFile h p lv m)) h' q = fs_open m h' q"
proof (rule WriteFile_put)
  fix v k c
  assume v: "h < length (volumes m)" "volumes m ! h = Some v" "\<not> EFI_ERROR (vol_open v)" "node_at v k \<noteq> Some Directory"
    and "file_entry m (h, p) = Some (h, k)"
  then have "k = name_key p" using LocateOFile_plain [OF assms(1)] by (auto simp: file_entry_def split: sum.splits)
  then show "fs_open (put_node h k (RegFile c) m) h' q = fs_open m h' q"
    using fs_open_put_node(2) [OF v, of "RegFile c"] assms(2) by (auto simp: other_file_def)
qed simp

lemma WriteFile_entries:
  "file_entry m g = Some e \<Longrightarrow> file_entry (final_world (SBC_WriteFile h p lv m)) g = Some e"
  "file_entry m (h', q) = Some e \<Longrightarrow> file_entry m (h, p) \<noteq> Some e \<Longrightarrow>
     fs_open (final_world (SBC_WriteFile h p lv m)) h' q = fs_open m h' q"
  by (rule WriteFile_put; auto simp: fs_open_put_node)+

lemma WriteFile_devices:
  "blkdevs (final_world (SBC_WriteFile h p lv m)) = blkdevs m" "started (final_world (SBC_WriteFile h p lv m)) = started m"
  "pool_ok (final_world (SBC_WriteFile h p lv m)) = pool_ok m" "stale (final_world (SBC_WriteFile h p lv m)) = stale m"
  "loadable (final_world (SBC_WriteFile h p lv m)) = loadable m"
  "length (volumes (final_world (SBC_WriteFile h p lv m))) = length (volumes m)"
  by (rule WriteFile_put; simp)+

section \<open>The interface\<close>

text \<open>
  Files are named, and different names can stand for one entry.  A write shows
  under every name of its entry and under no name of another.
\<close>

locale file_store =
  fixes content :: "'m \<Rightarrow> 'f \<Rightarrow> bytes option"
    and wr :: "'f \<Rightarrow> bytes \<Rightarrow> 'm \<Rightarrow> 'm"
    and can_write :: "'m \<Rightarrow> 'f \<Rightarrow> nat \<Rightarrow> bool"
    and entry :: "'m \<Rightarrow> 'f \<Rightarrow> 'e option"
  assumes written: "can_write m f (length bs) \<Longrightarrow>
      content (wr f bs m) f = Some (bs @ drop (length bs) (case content m f of None \<Rightarrow> [] | Some old \<Rightarrow> old))"
    and named: "can_write m f (length bs) \<Longrightarrow> entry m f \<noteq> None"
    and aliases: "can_write m f (length bs) \<Longrightarrow> entry m g = entry m f \<Longrightarrow> content (wr f bs m) g = content (wr f bs m) f"
    and others: "entry m g = Some e \<Longrightarrow> entry m f \<noteq> Some e \<Longrightarrow> content (wr f bs m) g = content m g"
    and entry_stays: "entry m g = Some e \<Longrightarrow> entry (wr f bs m) g = Some e"
    and still: "can_write m f (length bs) \<Longrightarrow> can_write m f k \<Longrightarrow> can_write (wr f bs m) f k"
begin

lemma fresh: "can_write m f (length bs) \<Longrightarrow> content m f = None \<Longrightarrow> content (wr f bs m) f = Some bs"
  by (simp add: written)

lemma covers: "can_write m f (length bs) \<Longrightarrow> content m f = Some old \<Longrightarrow> length old \<le> length bs \<Longrightarrow> content (wr f bs m) f = Some bs"
  by (simp add: written)

lemma tail_stays:
  "can_write m f (length bs) \<Longrightarrow> content m f = Some old \<Longrightarrow> length bs + k \<le> length old \<Longrightarrow>
   \<exists>c. content (wr f bs m) f = Some c \<and> length c = length old \<and> drop (length c - k) c = drop (length old - k) old"
  by (simp add: written)

lemma last_write_wins:
  assumes "can_write m f (length a)" "can_write m f (length b)" "length a \<le> length b"
  shows "content (wr f b (wr f a m)) f = content (wr f b m) f"
  using written [OF still [OF assms(1,2)]] written [OF assms(1)] written [OF assms(2)] assms(3)
  by simp

lemma untouched:
  "entry m g = Some e \<Longrightarrow> (\<And>f bs. (f, bs) \<in> set ws \<Longrightarrow> \<exists>e'. entry m f = Some e' \<and> e' \<noteq> e) \<Longrightarrow>
   content (fold (\<lambda>(f, bs). wr f bs) ws m) g = content m g"
proof (induction ws arbitrary: m)
  case (Cons w ws)
  obtain f bs where w: "w = (f, bs)" by fastforce
  have "content (fold (\<lambda>(f, bs). wr f bs) ws (wr f bs m)) g = content (wr f bs m) g"
    using Cons.prems entry_stays by (intro Cons.IH) (fastforce+)
  moreover have "entry m f \<noteq> Some e" using Cons.prems(2) [of f bs] w by auto
  ultimately show ?case using w Cons.prems(1) by (simp add: others)
qed simp

end

definition write_file :: "nat \<times> path \<Rightarrow> bytes \<Rightarrow> machine \<Rightarrow> machine" where
  "write_file f bs m = final_world (SBC_WriteFile (fst f) (snd f) (lv_of bs) m)"

lemma writable_size: "writable m f n \<Longrightarrow> n < 2 ^ 32"
  by (simp add: writable_def)

lemma writable_volume:
  assumes "writable m (h, p) n"
  obtains v k where "h < length (volumes m)" "volumes m ! h = Some v" "\<not> EFI_ERROR (vol_open v)"
    "file_entry m (h, p) = Some (h, k)" "node_at v k \<noteq> Some Directory"
  using assms by (auto simp: writable_def file_entry_def split: option.splits sum.splits)

lemma lv_of_bytes [simp]: "lv_bytes (lv_of bs) = bs"
  by (simp add: lv_of_def lv_bytes_def)

lemma WriteFile_lv_of:
  assumes "writable m (h, p) (length bs)" "file_entry m (h, p) = Some (h, k)"
  shows "SBC_WriteFile h p (lv_of bs) m = Done (EFI_SUCCESS, lv_of bs)
    (put_node h k (RegFile (bs @ drop (length bs) (case file_of m (h, p) of None \<Rightarrow> [] | Some old \<Rightarrow> old))) m)"
  using WriteFile_ok [of m h p "lv_of bs"] assms lv_of_size [OF writable_size [OF assms(1)]] by simp

lemma write_file_ok:
  assumes "writable m (h, p) (length bs)" "file_entry m (h, p) = Some (h, k)"
  shows "write_file (h, p) bs m = put_node h k
    (RegFile (bs @ drop (length bs) (case file_of m (h, p) of None \<Rightarrow> [] | Some old \<Rightarrow> old))) m"
  using WriteFile_lv_of [OF assms] by (simp add: write_file_def)

lemma file_of_put_node:
  assumes "writable m (h, p) n" "file_entry m (h, p) = Some (h, k)" "file_entry m g = Some (h, k)"
  shows "file_of (put_node h k (RegFile c) m) g = Some c"
  using assms(1)
proof (rule writable_volume)
  fix v k' assume "h < length (volumes m)" "volumes m ! h = Some v" "\<not> EFI_ERROR (vol_open v)"
    "file_entry m (h, p) = Some (h, k')" "node_at v k' \<noteq> Some Directory"
  then show ?thesis using fs_open_put_node(1) [of h m v k "RegFile c" "fst g" "snd g"] assms(2,3) by (simp add: file_of_def)
qed

lemma writable_put_node:
  assumes "writable m (h, p) j" "file_entry m (h, p) = Some (h, k)"
  shows "writable (put_node h k (RegFile c) m) (h, p) j"
proof -
  obtain v found where v: "h < length (volumes m)" "volumes m ! h = Some v" "FatLocateOFile v p = Inr (k, found)"
    "node_at v k \<noteq> Some Directory" using assms by (auto simp: writable_def file_entry_def split: option.splits sum.splits)
  then show ?thesis
    using assms(1) LocateOFile_set [OF v(4), of "RegFile c" p k found] node_at_set [OF v(4), of "RegFile c" k]
    by (simp add: writable_def put_node_volume)
qed

interpretation files: file_store file_of write_file writable file_entry
proof
  fix m :: machine and f k and bs :: bytes
  assume w: "writable m f (length bs)"
  obtain h p where f: "f = (h, p)" by fastforce
  from w obtain e where e: "file_entry m f = Some (h, e)" unfolding f by (rule writable_volume)
  then show "file_entry m f \<noteq> None" by simp
  have wr: "write_file f bs m = put_node h e (RegFile (bs @ drop (length bs) (case file_of m f of None \<Rightarrow> [] | Some old \<Rightarrow> old))) m"
    using write_file_ok w e unfolding f by blast
  have all: "file_of (write_file f bs m) g = Some (bs @ drop (length bs) (case file_of m f of None \<Rightarrow> [] | Some old \<Rightarrow> old))"
    if "file_entry m g = file_entry m f" for g
    unfolding wr using file_of_put_node [OF w [unfolded f] e [unfolded f]] that e by simp
  from all [OF refl] show "file_of (write_file f bs m) f = Some (bs @ drop (length bs) (case file_of m f of None \<Rightarrow> [] | Some old \<Rightarrow> old))" .
  show "file_of (write_file f bs m) g = file_of (write_file f bs m) f" if "file_entry m g = file_entry m f" for g
    using all [OF that] all [OF refl] by simp
  assume "writable m f k"
  then show "writable (write_file f bs m) f k"
    unfolding wr using writable_put_node [OF _ e [unfolded f]] by (simp add: f)
next
  fix m :: machine and f g :: "nat \<times> path" and bs :: bytes and e
  assume e: "file_entry m g = Some e"
  then show "file_entry (write_file f bs m) g = Some e" by (simp add: write_file_def WriteFile_entries)
  assume "file_entry m f \<noteq> Some e"
  then show "file_of (write_file f bs m) g = file_of m g"
    using e WriteFile_entries(2) [of m "fst g" "snd g" e "fst f" "snd f"] by (simp add: write_file_def file_of_def)
qed

end
