(* ===== verification/Sbc_Fsbl.thy ===== *)
theory Sbc_Fsbl
  imports Sbc_Runs Sbc_FileWrite
begin

text \<open>
  The first stage boot loader, \<^verbatim>\<open>FSBL/FSBL.c\<close>, built as \<^verbatim>\<open>FSBL.inf\<close> says, without
  \<^verbatim>\<open>_SBC_DEVID_VERIFY_\<close>: it checks its own file, makes the device identifier,
  copies the second stage from its bank to a file and starts the second stage.
  The image that is started is a parameter, a program of its own; the chain of
  both stages puts the second stage's entry point there.
\<close>

unbundle bit_operations_syntax

section \<open>Starting the second stage\<close>

abbreviation FSBL_SELF_PATH :: path where "FSBL_SELF_PATH \<equiv> [''EFI'', ''rocky'', ''FSBL.efi'']"
abbreviation SSBL_PATH :: path where "SSBL_PATH \<equiv> [''EFI'', ''rocky'', ''SSBL.efi'']"
abbreviation SSBL_BOOT_PATH :: path where "SSBL_BOOT_PATH \<equiv> [''EFI'', ''boot'', ''SSBL.efi'']"

text \<open>The first volume whose file loads is started; its status is dropped.\<close>

fun ssbl_loop :: "efi_status io \<Rightarrow> nat \<Rightarrow> nat \<Rightarrow> SBCStatus io" where
  "ssbl_loop ssbl i 0 m = Done SBCFAIL m"
| "ssbl_loop ssbl i (Suc k) m =
     (if can_load m SSBL_PATH i
      then andthen ssbl (\<lambda>_. retn SBCOK) (m\<lparr>started := started m @ [SSBL_PATH]\<rparr>)
      else ssbl_loop ssbl (Suc i) k m)"

definition SBC_SSBL_LoadAndStart :: "efi_status io \<Rightarrow> SBCStatus io" where
  "SBC_SSBL_LoadAndStart ssbl m = ssbl_loop ssbl 0 (length (volumes m)) m"

section \<open>From the bank to the file\<close>

text \<open>
  The loop over the volumes.  Every try hands over the same length and value,
  with the length the try before has left there.
\<close>

fun write_loop :: "nat \<Rightarrow> nat \<Rightarrow> path \<Rightarrow> efi_status \<Rightarrow> LV \<Rightarrow> (efi_status \<times> LV) io" where
  "write_loop idx 0 fname retval wrlv = retn (retval, wrlv)"
| "write_loop idx (Suc k) fname retval wrlv =
     andthen (SBC_WriteFile idx fname wrlv) (\<lambda>(retval', wrlv').
       if EFI_ERROR retval' then write_loop (Suc idx) k fname retval' wrlv' else retn (retval', wrlv'))"

text \<open>Read the image at a block and hand it to the file; \<open>wrlv\<close> is never cleared, so its padding is what the stack held.\<close>

definition copy_image :: "blkhandle \<Rightarrow> u64 \<Rightarrow> path \<Rightarrow> SBCStatus \<Rightarrow> SBCStatus io" where
  "copy_image blkio startlba fname failed =
     andthen (SBC_RawPrtReadBlock blkio (Some (zeros 512)) (Some SBC_RAWPRT_DFLT_BLK_SZ) startlba) (\<lambda>(ret, imghdr).
       if ret \<noteq> SBCOK then retn ret
       else let imglen = ALIGN_VALUE (rd32 (take 4 imghdr)) SBC_RAWPRT_DFLT_BLK_SZ in
         (\<lambda>m. if \<not> pool_ok m (unat imglen) then Done SBCNULLP m
          else andthen (SBC_RawPrtReadBlock blkio (Some (stale_bytes m (unat imglen))) (Some imglen) startlba) (\<lambda>(ret, loadimg).
            if ret \<noteq> SBCOK then retn ret
            else (\<lambda>m. let hndlcnt = SBC_FindEfiFileSystemProtocol m;
                wrlv = lv_set_data \<lparr>lv_length = 0, lv_pad = rd32 (stale_bytes m 4), lv_value = None\<rparr>
                         (Some (drop 4 loadimg)) (imglen - 4) in
              if hndlcnt = 0 then Done SBCIO m
              else andthen (write_loop 0 hndlcnt fname EFI_SUCCESS wrlv) (\<lambda>(retval, _).
                retn (if EFI_ERROR retval then failed else SBCOK)) m)) m))"

definition SBC_BootModeNormalAndpUdate :: "efi_status io \<Rightarrow> blkhandle \<Rightarrow> u64 \<Rightarrow> SBCStatus io" where
  "SBC_BootModeNormalAndpUdate ssbl blkio nrombank =
     (if \<not> (0 < nrombank \<and> nrombank < 3) then retn SBCINVPARAM
      else if blkio = None then retn SBCNULLP
      else andthen (copy_image blkio (ssbl_startlba nrombank) SSBL_BOOT_PATH SBCNOTFND) (\<lambda>ret.
        if ret \<noteq> SBCOK then retn ret else SBC_SSBL_LoadAndStart ssbl))"

text \<open>The write of the header with the normal key mode, as long as the structure is.\<close>

definition normal_key_mode :: "blkhandle \<Rightarrow> rawprt_hdr \<Rightarrow> SBCStatus io" where
  "normal_key_mode h_blkio tmp_prtheader =
     (if ucast (keymode tmp_prtheader) \<noteq> KEY_MODE_NORMAL
      then SBC_RawPrtBlockWrite h_blkio (Some (hdr_bytes (tmp_prtheader\<lparr>keymode := ucast KEY_MODE_NORMAL\<rparr>))) 128 0
      else retn SBCOK)"

text \<open>The global header is never filled: the entry point has a local one of the same name.\<close>

definition SBC_BootModeFactory :: "efi_status io \<Rightarrow> blkhandle \<Rightarrow> blkhandle \<Rightarrow> rawprt_hdr \<Rightarrow> SBCStatus io" where
  "SBC_BootModeFactory ssbl blkio h_blkio tmp_prtheader =
     (if blkio = None then retn SBCNULLP
      else andthen (copy_image blkio (drop_bit SBC_RAWPRT_DFLT_SHIFT (BOOT_SECTOR3_OFS OR BOOT_SSBL_OFS)) SSBL_PATH SBCIO) (\<lambda>ret.
        if ret \<noteq> SBCOK then retn ret
        else andthen (normal_key_mode h_blkio tmp_prtheader) (\<lambda>ret.
          if ret \<noteq> SBCOK then retn ret else SBC_SSBL_LoadAndStart ssbl)))"

section \<open>Entry point\<close>

definition SBC_FSBL_Verify :: "openssl \<Rightarrow> blkhandle \<Rightarrow> u64 \<Rightarrow> u64 \<Rightarrow> (SBCStatus \<times> LV option) io" where
  "SBC_FSBL_Verify ssl blkio normbank bmode = verify_file ssl FSBL_SELF_PATH"

definition FSBL_DiceKeysGen :: "atp_ident \<Rightarrow> (SBCStatus \<times> atp_ident) io" where
  "FSBL_DiceKeysGen p =
     andthen (SBC_GenDeviceID (devid p)) (\<lambda>(ret, d). retn (ret, p\<lparr>devid := d\<rparr>))"

definition FSBL_FindPreviouslyBank :: "u32 \<Rightarrow> u32" where
  "FSBL_FindPreviouslyBank bankid = (if bankid = 1 then 2 else if bankid = 2 then 1 else 0xFFFFFFFF)"

text \<open>The switch over the boot mode; the result is the status to return and whether the boot counts as good.\<close>

definition fsbl_boot_switch :: "efi_status io \<Rightarrow> blkhandle \<Rightarrow> rawprt_hdr \<Rightarrow> u32 \<Rightarrow> u32 \<Rightarrow> (efi_status \<times> bool) io" where
  "fsbl_boot_switch ssbl h_blkio hdr currbank_id prevbank_id =
     (let md = ucast (bootmode hdr);
          boot = (\<lambda>bank. andthen (SBC_BootModeNormalAndpUdate ssbl h_blkio (ucast bank)) (\<lambda>ret.
            retn (if ret \<noteq> SBCOK then (EFI_INVALID_PARAMETER, False) else (EFI_SUCCESS, True)))) in
      if md = BOOT_MODE_NORMAL then boot currbank_id
      else if md = BOOT_MODE_FACTORY then
        andthen (normal_key_mode h_blkio hdr) (\<lambda>_.
        andthen (SBC_SSBL_LoadAndStart ssbl) (\<lambda>ret. retn (EFI_SUCCESS, True)))
      else if md = BOOT_MODE_UPDATE then boot currbank_id
      else if md = BOOT_MODE_RECOVERY then boot prevbank_id
      else retn (EFI_SUCCESS, False))"

text \<open>The end of the entry point: a failed boot in factory mode powers off, every other one returns.\<close>

definition fsbl_errdone :: "blkhandle \<Rightarrow> rawprt_hdr \<Rightarrow> efi_status \<times> bool \<Rightarrow> efi_status io" where
  "fsbl_errdone h_blkio hdr r =
     (if ucast (bootmode hdr) = BOOT_MODE_FACTORY \<and> \<not> snd r
      then andthen (normal_key_mode h_blkio hdr) (\<lambda>_. SBC_ShutdownSystem)
      else retn (fst r))"

text \<open>The assertion after a failed search for the partition is true exactly then, so the run goes on without a handle.\<close>

definition FSBL_UefiMain :: "openssl \<Rightarrow> efi_status io \<Rightarrow> efi_status io" where
  "FSBL_UefiMain ssl ssbl =
     andthen (SBC_BlkIoHandleInit zero_hdr) (\<lambda>(ret, h_blkio, hdr).
       let currbank_id = current_bank hdr; prevbank_id = FSBL_FindPreviouslyBank currbank_id in
       if prevbank_id < 1 then fsbl_errdone h_blkio hdr (EFI_INVALID_PARAMETER, True)
       else andthen (SBC_FSBL_Verify ssl h_blkio (ucast currbank_id) (ucast (bootmode hdr))) (\<lambda>(ret, baseansr).
         if ret \<noteq> SBCOK then fsbl_errdone h_blkio hdr (EFI_INVALID_PARAMETER, False)
         else (\<lambda>m. andthen (FSBL_DiceKeysGen (stale_ident m)) (\<lambda>(ret, diceid).
           if ret \<noteq> SBCOK then fsbl_errdone h_blkio hdr (EFI_INVALID_PARAMETER, False)
           else andthen (fsbl_boot_switch ssbl h_blkio hdr currbank_id prevbank_id) (fsbl_errdone h_blkio hdr)) m)))"

text \<open>Both stages, one started by the other.\<close>

definition boot_chain :: "openssl \<Rightarrow> efi_status io" where
  "boot_chain ssl = FSBL_UefiMain ssl (UefiMain ssl)"

section \<open>What changes nothing\<close>

lemma ro_FSBL_checks [ro]: "readonly (SBC_FSBL_Verify ssl h n b)" "readonly (FSBL_DiceKeysGen p)"
  unfolding SBC_FSBL_Verify_def FSBL_DiceKeysGen_def by (auto intro!: readonly_andthen ro split: prod.splits)

text \<open>A structure of 128 bytes is no whole block: the driver refuses the write.\<close>

lemma normal_key_mode_refused:
  assumes "blkdev m i = Some dev" "BlockSize dev = 512" "hdr_wf hdr"
  shows "normal_key_mode (Some i) hdr m = Done (if ucast (keymode hdr) \<noteq> KEY_MODE_NORMAL then SBCIO else SBCOK) m"
proof -
  have "hdr_wf (hdr\<lparr>keymode := x\<rparr>)" for x using assms(3) by (simp add: hdr_wf_def)
  then have "length (hdr_bytes (hdr\<lparr>keymode := x\<rparr>)) = 128" for x by (rule length_hdr_bytes)
  then show ?thesis
    using assms by (simp add: normal_key_mode_def SBC_RawPrtBlockWrite_def NvmeBlockIoWriteBlocks_def EFI_ERROR_def put_blkdev_self)
qed

section \<open>The loops over the volumes\<close>

text \<open>The file the first stage writes is none of the files that are read or started.\<close>

lemma loader_paths [simp]:
  "plain_path SSBL_BOOT_PATH" "other_file SSBL_BOOT_PATH SSBL_PATH" "other_file SSBL_BOOT_PATH FSBL_SELF_PATH"
  "other_file SSBL_BOOT_PATH FSBL_PATH" "other_file SSBL_BOOT_PATH GRUB_PATH" "other_file SSBL_BOOT_PATH OSID_KERNEL_PATH"
  "other_file SSBL_BOOT_PATH BOOT_MODE_FNAME" "other_file SSBL_BOOT_PATH [''EFI'']" "other_file SSBL_BOOT_PATH [''EFI'', ''BOOT'']"
  "other_file SSBL_BOOT_PATH [''EFI'', ''BOOT'', ''FSBL.efi'']"
  by code_simp+

text \<open>Only the files at one path change, under whatever spelling.\<close>

definition only_file :: "path \<Rightarrow> machine \<Rightarrow> machine \<Rightarrow> bool" where
  "only_file p m m' \<longleftrightarrow> started m' = started m \<and> length (volumes m') = length (volumes m) \<and>
     (\<forall>h q. other_file p q \<longrightarrow> fs_open m' h q = fs_open m h q)"

lemma only_file_po [simp]: "reflp (only_file p)" "transp (only_file p)"
  by (auto simp: only_file_def intro!: reflpI transpI)

lemma only_file_WriteFile: "plain_path p \<Longrightarrow> keeps (only_file p) (SBC_WriteFile h p lv)"
  by (rule keepsI) (auto simp: only_file_def WriteFile_devices intro!: WriteFile_others)

lemma only_file_write_loop: "plain_path p \<Longrightarrow> keeps (only_file p) (write_loop idx k p st lv)"
proof (induction idx k p st lv rule: write_loop.induct)
  case (2 idx k fname retval wrlv)
  show ?case
    unfolding write_loop.simps
    by (rule keeps_andthen) (auto intro!: 2 only_file_WriteFile split: prod.splits)
qed simp

lemma only_file_copy_image:
  assumes "plain_path p"
  shows "keeps (only_file p) (copy_image h lba p f)"
proof -
  have fin: "only_file p m (final_world (andthen (write_loop 0 k p st lv) (\<lambda>(r, _). retn (g r)) m))" for m k st lv and g :: "efi_status \<Rightarrow> SBCStatus"
    by (rule keepsD [where m = "andthen (write_loop 0 k p st lv) (\<lambda>(r, _). retn (g r))"])
      (rule keeps_andthen; auto intro!: only_file_write_loop assms split: prod.splits)
  have refl: "only_file p m m" for m by (simp add: only_file_def)
  show ?thesis
    unfolding copy_image_def
    by (rule keepsI) (auto simp: Let_def final_readonly_andthen ro fin refl split: exec.splits prod.splits)
qed

lemma ssbl_loop_result:
  "ssbl_loop ssbl i k m = (if \<exists>v. i \<le> v \<and> v < i + k \<and> can_load m SSBL_PATH v
     then andthen ssbl (\<lambda>_. retn SBCOK) (m\<lparr>started := started m @ [SSBL_PATH]\<rparr>) else Done SBCFAIL m)"
proof (induction ssbl i k m rule: ssbl_loop.induct)
  case (2 ssbl i k m)
  show ?case
  proof (cases "can_load m SSBL_PATH i")
    case False
    then have "(i \<le> v \<and> v < i + Suc k \<and> can_load m SSBL_PATH v) = (Suc i \<le> v \<and> v < Suc i + k \<and> can_load m SSBL_PATH v)" for v
      by (cases "v = i") auto
    then show ?thesis using 2 False by simp
  next
    case True
    then have "\<exists>v. i \<le> v \<and> v < i + Suc k \<and> can_load m SSBL_PATH v" by (intro exI [of _ i]) simp
    then show ?thesis using True by simp
  qed
qed auto

lemma LoadAndStart_result:
  "SBC_SSBL_LoadAndStart ssbl m = (if \<exists>v < length (volumes m). can_load m SSBL_PATH v
     then andthen ssbl (\<lambda>_. retn SBCOK) (m\<lparr>started := started m @ [SSBL_PATH]\<rparr>) else Done SBCFAIL m)"
  unfolding SBC_SSBL_LoadAndStart_def by (subst ssbl_loop_result) auto

section \<open>Handing over\<close>

text \<open>The second stage runs on the machine as it was, but for one file, the devices and the list of started images.\<close>

definition handed_over :: "machine \<Rightarrow> machine \<Rightarrow> bool" where
  "handed_over m m2 \<longleftrightarrow> (\<exists>m1. only_file SSBL_BOOT_PATH m m1 \<and> m2 = m1\<lparr>started := started m1 @ [SSBL_PATH]\<rparr>)"

text \<open>A call that starts nothing itself and ends where the second stage ends, once it starts it.\<close>

definition hands_over :: "efi_status io \<Rightarrow> machine \<Rightarrow> machine \<Rightarrow> bool" where
  "hands_over ssbl m m' \<longleftrightarrow> started m' = started m \<or> (\<exists>m2. handed_over m m2 \<and> m' = final_world (ssbl m2))"

lemma final_andthen_retn [simp]: "final_world (andthen p (\<lambda>a. retn (f a)) m) = final_world (p m)"
  by (cases "p m") (simp_all add: andthen_def)

lemma hands_over_start:
  assumes "only_file SSBL_BOOT_PATH m m1"
  shows "hands_over ssbl m (final_world (SBC_SSBL_LoadAndStart ssbl m1))"
proof -
  have "handed_over m (m1\<lparr>started := started m1 @ [SSBL_PATH]\<rparr>)" using assms by (auto simp: handed_over_def)
  moreover have "started m1 = started m" using assms by (simp add: only_file_def)
  ultimately show ?thesis unfolding hands_over_def by (subst (1 2) LoadAndStart_result) auto
qed

lemma hands_over_boot: "hands_over ssbl m (final_world (SBC_BootModeNormalAndpUdate ssbl h b m))"
proof (cases "copy_image h (ssbl_startlba b) SSBL_BOOT_PATH SBCNOTFND m")
  case (Done ret m1)
  then have "only_file SSBL_BOOT_PATH m m1"
    using keepsD [OF only_file_copy_image [OF loader_paths(1)], of m h "ssbl_startlba b" SBCNOTFND] by simp
  then show ?thesis using Done hands_over_start [of m m1 ssbl]
    by (auto simp: SBC_BootModeNormalAndpUdate_def andthen_def hands_over_def only_file_def)
qed (use keepsD [OF only_file_copy_image [OF loader_paths(1)], of m h "ssbl_startlba b" SBCNOTFND] in
      \<open>auto simp: SBC_BootModeNormalAndpUdate_def andthen_def hands_over_def only_file_def\<close>)

lemma only_file_key_mode: "keeps (only_file p) (normal_key_mode h hdr)"
  by (rule keepsI) (auto simp: normal_key_mode_def SBC_RawPrtBlockWrite_def only_file_def fs_open_def split: option.splits)

lemma hands_over_switch: "hands_over ssbl m (final_world (fsbl_boot_switch ssbl h hdr c p m))"
proof -
  have "hands_over ssbl m (final_world (andthen (normal_key_mode h hdr) (\<lambda>_. andthen (SBC_SSBL_LoadAndStart ssbl) (\<lambda>ret. retn (EFI_SUCCESS, True))) m))"
    using keepsD [OF only_file_key_mode, of SSBL_BOOT_PATH m h hdr] hands_over_start [of m _ ssbl]
    by (cases "normal_key_mode h hdr m") (auto simp: andthen_Done andthen_Halted andthen_Faulted hands_over_def only_file_def)
  moreover have "hands_over ssbl m m" by (simp add: hands_over_def)
  ultimately show ?thesis using hands_over_boot [of ssbl m h] by (simp add: fsbl_boot_switch_def Let_def)
qed

text \<open>After the switch the end of the entry point only returns.\<close>

lemma switch_then_return:
  "andthen (fsbl_boot_switch ssbl h hdr c p) (fsbl_errdone h hdr) m = andthen (fsbl_boot_switch ssbl h hdr c p) (\<lambda>r. retn (fst r)) m"
proof (cases "ucast (bootmode hdr) = BOOT_MODE_FACTORY")
  case True
  then show ?thesis
    by (simp add: fsbl_boot_switch_def Let_def andthen_assoc) (simp add: andthen_def fsbl_errdone_def split: exec.splits)
next
  case False
  then have "fsbl_errdone h hdr = (\<lambda>r. retn (fst r))" by (simp add: fsbl_errdone_def fun_eq_iff)
  then show ?thesis by simp
qed

lemma errdone_quiet: "started (final_world (fsbl_errdone h hdr r m)) = started m"
  using keepsD [OF only_file_key_mode, of "[]" m h hdr]
  by (cases "normal_key_mode h hdr m")
    (auto simp: fsbl_errdone_def andthen_Done andthen_Halted andthen_Faulted SBC_ShutdownSystem_def only_file_def)

text \<open>Whatever the run does: it starts nothing, or its own file has passed the check and the second stage has the machine.\<close>

lemma FSBL_hands_over:
  assumes "started (final_world (FSBL_UefiMain ssl ssbl m)) \<noteq> started m"
  obtains ans m2 where "verify_file ssl FSBL_SELF_PATH m = Done (SBCOK, Some ans) m" "handed_over m m2"
    "final_world (FSBL_UefiMain ssl ssbl m) = final_world (ssbl m2)"
proof -
  obtain ret0 h hdr where init: "SBC_BlkIoHandleInit zero_hdr m = Done (ret0, h, hdr) m"
    using assms keepsD [OF ro_BlkIoHandleInit, of m zero_hdr]
    by (cases "SBC_BlkIoHandleInit zero_hdr m") (auto simp: FSBL_UefiMain_def andthen_def)
  have guard: "\<not> FSBL_FindPreviouslyBank (current_bank hdr) < 1"
    by (simp add: FSBL_FindPreviouslyBank_def)
  obtain ret a where ver: "verify_file ssl FSBL_SELF_PATH m = Done (ret, a) m"
    using assms init guard keepsD [OF ro_verify_file, of m ssl FSBL_SELF_PATH]
    by (cases "verify_file ssl FSBL_SELF_PATH m") (auto simp: FSBL_UefiMain_def SBC_FSBL_Verify_def andthen_Done andthen_Halted andthen_Faulted Let_def)
  have ok: "ret = SBCOK"
    using assms init guard ver by (auto simp: FSBL_UefiMain_def SBC_FSBL_Verify_def andthen_Done errdone_quiet Let_def split: if_splits)
  then obtain ans where ans: "a = Some ans" using ver verify_file_answer by blast
  obtain ret2 d where dice: "FSBL_DiceKeysGen (stale_ident m) m = Done (ret2, d) m"
    using assms init guard ver ok keepsD [OF ro_FSBL_checks(2), of m "stale_ident m"]
    by (cases "FSBL_DiceKeysGen (stale_ident m) m") (auto simp: FSBL_UefiMain_def SBC_FSBL_Verify_def andthen_Done andthen_Halted andthen_Faulted Let_def)
  have "ret2 = SBCOK"
    using assms init guard ver ok dice by (auto simp: FSBL_UefiMain_def SBC_FSBL_Verify_def andthen_Done errdone_quiet Let_def split: if_splits)
  then have run: "final_world (FSBL_UefiMain ssl ssbl m)
      = final_world (fsbl_boot_switch ssbl h hdr (current_bank hdr) (FSBL_FindPreviouslyBank (current_bank hdr)) m)"
    using init guard ver ok dice
    by (simp add: FSBL_UefiMain_def SBC_FSBL_Verify_def andthen_Done Let_def switch_then_return)
  then show ?thesis
    using that ver ok ans assms hands_over_switch [of ssbl m h hdr "current_bank hdr" "FSBL_FindPreviouslyBank (current_bank hdr)"]
    by (auto simp: hands_over_def)
qed

section \<open>Runs on a sound machine\<close>

lemma ucast_u16_eq: "(ucast (x :: u16) :: u32) = ucast y \<longleftrightarrow> x = y"
proof -
  have "unat (ucast z :: u32) = unat z" for z :: u16
    using unat_bound [of z] by (simp add: unsigned_ucast_eq take_bit_nat_eq_self)
  then show ?thesis by (metis word_eq_iff_unsigned)
qed

text \<open>The partition is there, the loader's own file is signed and the device identifier can be made.\<close>

definition fsbl_checks :: "openssl \<Rightarrow> machine \<Rightarrow> nat \<Rightarrow> nvme_device \<Rightarrow> bool" where
  "fsbl_checks ssl m i dev \<longleftrightarrow> raw_prt_at m i dev \<and> (\<exists>ans. signed_file ssl m FSBL_SELF_PATH ans) \<and>
     (\<exists>info img. hw_info m = Done info m \<and> fsbl_ok m info img)"

lemma FSBL_checked:
  assumes "fsbl_checks ssl m i dev"
  shows "FSBL_UefiMain ssl ssbl m = andthen (fsbl_boot_switch ssbl (Some i) (dev_hdr dev) (current_bank (dev_hdr dev))
      (FSBL_FindPreviouslyBank (current_bank (dev_hdr dev)))) (\<lambda>r. retn (fst r)) m"
proof -
  obtain ans info img where ok: "raw_prt_at m i dev" "signed_file ssl m FSBL_SELF_PATH ans" "hw_info m = Done info m" "fsbl_ok m info img"
    using assms by (auto simp: fsbl_checks_def)
  have "\<exists>d. FSBL_DiceKeysGen p m = Done (SBCOK, d) m" for p
    using GenDeviceID_sound [OF ok(3,4)] by (simp add: FSBL_DiceKeysGen_def andthen_Done)
  then obtain d where "FSBL_DiceKeysGen (stale_ident m) m = Done (SBCOK, d) m" by blast
  moreover have "\<not> FSBL_FindPreviouslyBank b < 1" for b by (simp add: FSBL_FindPreviouslyBank_def)
  ultimately show ?thesis
    using raw_prt_found [OF ok(1)] signed_file_verifies [OF ok(2)]
    by (simp add: FSBL_UefiMain_def SBC_FSBL_Verify_def andthen_Done Let_def switch_then_return)
qed

text \<open>The image of a bank as it goes into the file: the blocks behind the length word.\<close>

definition ssbl_image :: "nvme_device \<Rightarrow> u64 \<Rightarrow> bytes" where
  "ssbl_image dev lba = drop 4 (dev_bytes dev (unat lba * 512) (unat (ssbl_image_len dev lba)))"

lemma copy_image_sound:
  assumes "ssbl_ok m i dev lba" "writable m (0, fname) (length (ssbl_image dev lba))" "rd32 (stale_bytes m 4) = 0"
  shows "copy_image (Some i) lba fname f m = Done SBCOK (write_file (0, fname) (ssbl_image dev lba) m)"
proof -
  define len where "len = ssbl_image_len dev lba"
  have ok: "blkdev m i = Some dev" "servable dev lba 512" "servable dev lba len" "pool_ok m (unat len)"
    using assms(1) by (simp_all add: ssbl_ok_def len_def)
  have rd: "SBC_RawPrtReadBlock (Some i) (Some (zeros 512)) (Some 512) lba m = Done (SBCOK, dev_bytes dev (unat lba * 512) 512) m"
    "SBC_RawPrtReadBlock (Some i) (Some (stale_bytes m (unat len))) (Some len) lba m = Done (SBCOK, dev_bytes dev (unat lba * 512) (unat len)) m"
    using ok RawPrtReadBlock_sound [OF ok(1,2), of "zeros 512"] RawPrtReadBlock_sound [OF ok(1,3), of "stale_bytes m (unat len)"] by simp_all
  have word: "ALIGN_VALUE (rd32 (take 4 (dev_bytes dev (unat lba * 512) 512))) 512 = len"
    by (simp add: len_def ssbl_image_len_def take_dev_bytes)
  have "0 < unat len" "unat len mod 512 = 0" using ok(3) by (simp_all add: servable_def)
  then have l4: "4 \<le> unat len" by (metis dvd_imp_le le_trans mod_eq_0_iff_dvd numeral_le_iff semiring_norm(68,71,72,76,78))
  then have il: "unat (len - 4) = unat len - 4" by (simp add: unat_sub word_le_nat_alt)
  have "length (ssbl_image dev lba) = unat len - 4" by (simp add: ssbl_image_def len_def)
  then have n: "len - 4 = word_of_nat (length (ssbl_image dev lba))" by (simp flip: il)
  then have lv: "lv_set_data \<lparr>lv_length = 0, lv_pad = 0, lv_value = None\<rparr> (Some (drop 4 (dev_bytes dev (unat lba * 512) (unat len)))) (len - 4)
      = lv_of (ssbl_image dev lba)"
    by (simp add: lv_set_data_def lv_of_def ssbl_image_def len_def)
  obtain e where v: "0 < length (volumes m)" and e: "file_entry m (0, fname) = Some (0, e)"
    using writable_volume [OF assms(2)] by blast
  then obtain k where k: "length (volumes m) = Suc k" "volumes m \<noteq> []" by (metis gr0_implies_Suc length_greater_0_conv)
  have wl: "write_loop 0 (Suc k) fname EFI_SUCCESS (lv_of (ssbl_image dev lba)) m
      = Done (EFI_SUCCESS, lv_of (ssbl_image dev lba)) (write_file (0, fname) (ssbl_image dev lba) m)"
    using WriteFile_lv_of [OF assms(2) e] by (simp add: andthen_Done EFI_ERROR_def write_file_def)
  show ?thesis
    using rd ok(4) word v k lv wl assms(3)
    by (simp add: copy_image_def andthen_Done Let_def SBC_FindEfiFileSystemProtocol_def EFI_ERROR_def del: write_loop.simps)
qed

lemma only_file_write_file: "plain_path p \<Longrightarrow> only_file p m (write_file (h, p) bs m)"
  using keepsD [OF only_file_WriteFile] by (simp add: write_file_def)

lemma can_load_only_file:
  assumes "only_file p m (write_file (h, p) bs m)" "other_file p q"
  shows "can_load (write_file (h, p) bs m) q v = can_load m q v"
proof -
  let ?m = "write_file (h, p) bs m"
  have "(case volumes ?m ! v of None \<Rightarrow> None | Some x \<Rightarrow> Some (vol_read x)) = (case volumes m ! v of None \<Rightarrow> None | Some x \<Rightarrow> Some (vol_read x))"
    by (cases "v = h")
      (auto simp: write_file_def SBC_WriteFile_def put_node_def split: option.splits sum.splits node.splits)
  then show ?thesis
    using assms by (auto simp: can_load_def only_file_def write_file_def WriteFile_devices split: sum.splits node.splits option.splits)
qed

text \<open>
  A run in normal or update mode with a good bank: the image of the bank is in the
  file, and the second stage runs from the other path.
\<close>

lemma FSBL_bank_run:
  assumes "fsbl_checks ssl m i dev" "bootmode (dev_hdr dev) \<in> {1, 2}" "current_bank (dev_hdr dev) \<in> {1, 2}"
    and "ssbl_ok m i dev lba" "lba = ssbl_startlba (ucast (current_bank (dev_hdr dev)))"
    and "writable m (0, SSBL_BOOT_PATH) (length (ssbl_image dev lba))" "rd32 (stale_bytes m 4) = 0"
    and "v < length (volumes m)" "can_load m SSBL_PATH v"
  shows "FSBL_UefiMain ssl ssbl m = andthen ssbl (\<lambda>_. retn EFI_SUCCESS)
    ((write_file (0, SSBL_BOOT_PATH) (ssbl_image dev lba) m)\<lparr>started := started m @ [SSBL_PATH]\<rparr>)"
proof -
  let ?c = "current_bank (dev_hdr dev)"
  define m1 where "m1 = write_file (0, SSBL_BOOT_PATH) (ssbl_image dev lba) m"
  define m2 where "m2 = m1\<lparr>started := started m @ [SSBL_PATH]\<rparr>"
  have bank: "\<not> \<not> (0 < (ucast ?c :: u64) \<and> (ucast ?c :: u64) < 3)" using assms(3) by auto
  have m1: "can_load m1 SSBL_PATH v" "v < length (volumes m1)" "started m1 = started m"
    using can_load_only_file [OF only_file_write_file, of SSBL_BOOT_PATH SSBL_PATH 0 "ssbl_image dev lba" m v] assms(8,9)
      only_file_write_file [of SSBL_BOOT_PATH m 0 "ssbl_image dev lba"]
    by (simp_all add: only_file_def m1_def)
  have cp: "copy_image (Some i) (ssbl_startlba (ucast ?c)) SSBL_BOOT_PATH SBCNOTFND m = Done SBCOK m1"
    using copy_image_sound [OF assms(4,6,7), of SBCNOTFND] unfolding assms(5) m1_def .
  have start: "SBC_SSBL_LoadAndStart ssbl m1 = andthen ssbl (\<lambda>_. retn SBCOK) m2"
    using m1 unfolding m2_def by (subst LoadAndStart_result) auto
  have boot: "SBC_BootModeNormalAndpUdate ssbl (Some i) (ucast ?c) m = andthen ssbl (\<lambda>_. retn SBCOK) m2"
    unfolding SBC_BootModeNormalAndpUdate_def if_not_P [OF bank] by (simp add: andthen_Done cp start)
  have "fsbl_boot_switch ssbl (Some i) (dev_hdr dev) ?c b m = andthen ssbl (\<lambda>_. retn (EFI_SUCCESS, True)) m2" for b
    using assms(2) boot by (cases "ssbl m2") (auto simp: fsbl_boot_switch_def Let_def andthen_def)
  then show ?thesis
    unfolding FSBL_checked [OF assms(1)] m2_def [unfolded m1_def, symmetric]
    by (cases "ssbl m2") (simp_all add: andthen_def)
qed

text \<open>Factory mode: the key mode is not changed, and the second stage runs from its file.\<close>

lemma FSBL_factory_run:
  assumes "fsbl_checks ssl m i dev" "bootmode (dev_hdr dev) = 4"
  shows "FSBL_UefiMain ssl ssbl m = andthen (SBC_SSBL_LoadAndStart ssbl) (\<lambda>_. retn EFI_SUCCESS) m"
proof -
  have "blkdev m i = Some dev" "BlockSize dev = 512"
    using assms(1) by (auto simp: fsbl_checks_def raw_prt_at_def servable_def)
  then obtain r where "normal_key_mode (Some i) (dev_hdr dev) m = Done r m"
    using normal_key_mode_refused [of m i dev "dev_hdr dev"] by simp
  then show ?thesis
    using FSBL_checked [OF assms(1), of ssbl] assms(2)
    by (simp add: fsbl_boot_switch_def Let_def andthen_Done andthen_assoc) (simp add: andthen_def split: exec.split)
qed

lemma FSBL_rejected:
  assumes "raw_prt_at m i dev" "verify_file ssl FSBL_SELF_PATH m = Done (ret, a) m" "ret \<noteq> SBCOK"
  shows "FSBL_UefiMain ssl ssbl m =
    (if bootmode (dev_hdr dev) = 4 then Halted EfiResetShutdown m else Done EFI_INVALID_PARAMETER m)"
proof -
  have "blkdev m i = Some dev" "BlockSize dev = 512"
    using assms(1) by (auto simp: raw_prt_at_def servable_def)
  then obtain r where "normal_key_mode (Some i) (dev_hdr dev) m = Done r m"
    using normal_key_mode_refused [of m i dev "dev_hdr dev"] by simp
  moreover have "\<not> FSBL_FindPreviouslyBank b < 1" for b by (simp add: FSBL_FindPreviouslyBank_def)
  moreover have "ucast (bootmode (dev_hdr dev)) = BOOT_MODE_FACTORY \<longleftrightarrow> bootmode (dev_hdr dev) = 4"
    using ucast_u16_eq [of "bootmode (dev_hdr dev)" 4] by simp
  ultimately show ?thesis
    using raw_prt_found [OF assms(1)] assms(2,3)
    by (simp add: FSBL_UefiMain_def SBC_FSBL_Verify_def andthen_Done Let_def fsbl_errdone_def SBC_ShutdownSystem_def)
qed

end
