(* ===== verification/Sbc_Chain.thy ===== *)
theory Sbc_Chain
  imports Sbc_Fsbl
begin

text \<open>
  The two stages one after the other: what the first leaves of the machine is what
  the second needs, but for the one file the first writes.
\<close>

section \<open>A file more\<close>

lemma started_files [simp]:
  "fs_open (m\<lparr>started := s\<rparr>) h p = fs_open m h p" "SBC_IsFlieAccess (m\<lparr>started := s\<rparr>) h p = SBC_IsFlieAccess m h p"
  by (simp_all add: fs_open_def SBC_IsFlieAccess_def)

text \<open>
  Nothing but the files at one path and the list of started images differs, and
  the volumes answer as before.
\<close>

definition vol_answers :: "volume option \<Rightarrow> (efi_status \<times> efi_status \<times> efi_status) option" where
  "vol_answers = map_option (\<lambda>v. (vol_open v, vol_read v, vol_info v))"

definition beside_file :: "path \<Rightarrow> machine \<Rightarrow> machine \<Rightarrow> bool" where
  "beside_file p m m' \<longleftrightarrow> map vol_answers (volumes m') = map vol_answers (volumes m) \<and>
     (\<forall>h q. other_file p q \<longrightarrow> fs_open m' h q = fs_open m h q) \<and> blkdevs m' = blkdevs m \<and> smbios m' = smbios m \<and>
     nvme_identify m' = nvme_identify m \<and> pool_ok m' = pool_ok m \<and> rng m' = rng m \<and> loadable m' = loadable m"

lemma beside_write_file:
  assumes "plain_path p"
  shows "beside_file p m ((write_file (h, p) bs m)\<lparr>started := s\<rparr>)"
proof -
  have "fs_open (write_file (h, p) bs m) h' q = fs_open m h' q" if "other_file p q" for h' q
    using WriteFile_others [OF assms that] by (simp add: write_file_def)
  moreover have keep: "map vol_answers (volumes (put_node h k n m)) = map vol_answers (volumes m)"
    "smbios (put_node h k n m) = smbios m" "nvme_identify (put_node h k n m) = nvme_identify m" "rng (put_node h k n m) = rng m" for k n
    by (auto simp: put_node_def map_update vol_answers_def list_update_same_conv split: option.split)
  have "map vol_answers (volumes (write_file (h, p) bs m)) = map vol_answers (volumes m)"
    "smbios (write_file (h, p) bs m) = smbios m" "nvme_identify (write_file (h, p) bs m) = nvme_identify m" "rng (write_file (h, p) bs m) = rng m"
    unfolding write_file_def by (rule WriteFile_put; simp add: keep)+
  ultimately show ?thesis
    by (simp add: beside_file_def write_file_def WriteFile_devices)
qed

lemma beside_length: "beside_file p m m' \<Longrightarrow> length (volumes m') = length (volumes m)"
  unfolding beside_file_def by (drule conjunct1, drule map_eq_imp_length_eq)

lemma beside_board: "beside_file p m m' \<Longrightarrow> same_board m m'"
  by (simp add: beside_file_def same_board_def)

lemma beside_volume:
  assumes "beside_file p m m'" "v < length (volumes m)" "volumes m ! v = Some vol"
  obtains vol' where "volumes m' ! v = Some vol'" "vol_read vol' = vol_read vol" "v < length (volumes m')" "vol_info vol' = vol_info vol"
proof -
  have len: "length (volumes m') = length (volumes m)"
    using assms(1) by (metis beside_file_def length_map)
  then have "vol_answers (volumes m' ! v) = vol_answers (volumes m ! v)"
    using assms by (metis beside_file_def nth_map)
  then show ?thesis using that assms(2,3) len by (auto simp: vol_answers_def)
qed

lemma beside_first_file:
  assumes "beside_file p m m'" "other_file p q"
  shows "first_file m' q v n = first_file m q v n"
  using assms by (simp add: first_file_def SBC_IsFlieAccess_def beside_file_def)

lemma beside_readable:
  assumes "beside_file p m m'" "other_file p q" "readable_file m q v c"
  shows "readable_file m' q v c"
proof -
  have ff: "first_file m q v (RegFile c)" using assms(3) by (simp add: readable_file_def)
  obtain vol where vol: "volumes m ! v = Some vol" "\<not> EFI_ERROR (vol_read vol)" using assms(3) by (auto simp: readable_file_def)
  have "v < length (volumes m)" using ff by (rule first_file_volume)
  then obtain vol' where vol': "volumes m' ! v = Some vol'" "vol_read vol' = vol_read vol" "vol_info vol' = vol_info vol"
    using beside_volume [OF assms(1) _ vol(1)] by blast
  moreover have "info_ok m' v = info_ok m v" using vol(1) vol'(1,3) by (simp add: info_ok_def file_info_def)
  moreover have "pool_ok m' = pool_ok m" using assms(1) by (simp add: beside_file_def)
  ultimately show ?thesis
    using assms vol(2) by (auto simp: readable_file_def beside_first_file)
qed

lemma first_volume_answers: "map vol_answers vs' = map vol_answers vs \<Longrightarrow> first_volume vs' i = first_volume vs i"
proof (induction vs i arbitrary: vs' rule: first_volume.induct)
  case (2 vs idx)
  then obtain us where us: "vs' = None # us" "map vol_answers us = map vol_answers vs"
    by (cases vs') (auto simp: vol_answers_def)
  show ?case using 2(1) [OF us(2)] us(1) by simp
next
  case (3 v vs idx)
  then obtain v' us where us: "vs' = Some v' # us" "vol_open v' = vol_open v" "map vol_answers us = map vol_answers vs"
    by (cases vs') (auto simp: vol_answers_def)
  show ?case
  proof (cases "EFI_ERROR (vol_open v)")
    case True
    then have "\<not> \<not> EFI_ERROR (vol_open v)" by simp
    from 3(1) [OF this us(3)] show ?thesis using us(1,2) True by simp
  qed (simp add: us(1,2))
qed simp

lemma first_volume_bound: "first_volume vs i = Some v \<Longrightarrow> i \<le> v \<and> v < i + length vs"
  by (induction vs i rule: first_volume.induct) (auto split: if_splits)

lemma beside_can_load:
  assumes "beside_file p m m'" "other_file p q"
  shows "can_load m' q v = can_load m q v"
proof (cases "fs_open m v q")
  case (Inr n)
  then obtain vol where v: "v < length (volumes m)" "volumes m ! v = Some vol"
    by (auto simp: fs_open_def split: if_splits option.splits)
  obtain vol' where "volumes m' ! v = Some vol'" "vol_read vol' = vol_read vol"
    using beside_volume [OF assms(1) v] by blast
  moreover have "fs_open m' v q = Inr n" "loadable m' = loadable m" using assms Inr by (simp_all add: beside_file_def)
  ultimately show ?thesis using Inr v(2) by (simp add: can_load_def split: node.split)
qed (use assms in \<open>simp add: can_load_def beside_file_def\<close>)

text \<open>What the second stage needs of the machine does not involve the file the first stage writes.\<close>

lemma beside_fsbl_ok:
  assumes "beside_file p m m'" "fsbl_ok m info img"
    and "other_file p [''EFI'']" "other_file p [''EFI'', ''BOOT'']" "other_file p [''EFI'', ''BOOT'', ''FSBL.efi'']"
  shows "fsbl_ok m' info img"
proof -
  obtain v vol where v: "first_volume (volumes m) 0 = Some v" "volumes m ! v = Some vol" "\<not> EFI_ERROR (vol_read vol)" "\<not> EFI_ERROR (vol_info vol)"
    "fs_open m v [''EFI''] = Inr Directory" "fs_open m v [''EFI'', ''BOOT''] = Inr Directory"
    "fs_open m v [''EFI'', ''BOOT'', ''FSBL.efi''] = Inr (RegFile img)"
    using assms(2) by (auto simp: fsbl_ok_def)
  have b: "v < length (volumes m)" using first_volume_bound [OF v(1)] by simp
  obtain vol' where "volumes m' ! v = Some vol'" "vol_read vol' = vol_read vol" "vol_info vol' = vol_info vol"
    using beside_volume [OF assms(1) b v(2)] by blast
  moreover have "first_volume (volumes m') 0 = first_volume (volumes m) 0"
    by (rule first_volume_answers) (use assms(1) in \<open>simp add: beside_file_def\<close>)
  moreover have "pool_ok m' = pool_ok m" "\<And>h q. other_file p q \<Longrightarrow> fs_open m' h q = fs_open m h q" using assms(1) by (simp_all add: beside_file_def)
  ultimately show ?thesis using assms v by (auto simp: fsbl_ok_def)
qed

lemma beside_bootable:
  assumes "beside_file SSBL_BOOT_PATH m m'" "bootable ssl m i dev info ans img kimg"
  shows "bootable ssl m' i dev info ans img kimg"
proof -
  have same: "blkdevs m' = blkdevs m" "pool_ok m' = pool_ok m" "rng m' = rng m" "blkdev m' = blkdev m"
    using assms(1) by (simp_all add: beside_file_def blkdev_def fun_eq_iff)
  have "raw_prt_at m' i dev" "settings_ok m' i dev" "ssbl_ok m' i d l = ssbl_ok m i d l" for d l
    using assms(2) same by (simp_all add: bootable_def raw_prt_at_def settings_ok_def ssbl_ok_def)
  moreover have "signed_fsbl ssl m' ans"
    using assms(2) same beside_readable [OF assms(1), of FSBL_PATH] by (fastforce simp: bootable_def signed_file_def)
  moreover have "dice_ok m' i info img kimg"
    using assms(2) calculation(3) board_hw_info [OF beside_board [OF assms(1)]] beside_fsbl_ok [OF assms(1)]
      beside_readable [OF assms(1), of OSID_KERNEL_PATH] by (fastforce simp: bootable_def dice_ok_def)
  moreover have "bm_file_ok m'"
    using assms by (simp add: bootable_def bm_file_ok_def beside_file_def)
  ultimately show ?thesis using assms(2) same by (simp add: bootable_def)
qed

section \<open>Across the hand-over\<close>

lemma handed_over_first_file:
  assumes "handed_over m m2" "other_file SSBL_BOOT_PATH q"
  shows "first_file m2 q v n = first_file m q v n"
proof -
  have op: "fs_open m2 h q = fs_open m h q" for h
    using assms unfolding handed_over_def only_file_def by auto
  then have "SBC_IsFlieAccess m2 h q = SBC_IsFlieAccess m h q" for h by (simp add: SBC_IsFlieAccess_def)
  then show ?thesis by (simp add: first_file_def op)
qed

section \<open>A machine to start from\<close>

text \<open>
  A bank is marked as in use, its image can be read, there is room for it on the
  first volume, the word of the stack behind the length is zero, and a second stage
  file loads.
\<close>

abbreviation bank_lba :: "nvme_device \<Rightarrow> u64" where
  "bank_lba dev \<equiv> ssbl_startlba (ucast (current_bank (dev_hdr dev)))"

definition bank_ready :: "machine \<Rightarrow> nat \<Rightarrow> nvme_device \<Rightarrow> bool" where
  "bank_ready m i dev \<longleftrightarrow> current_bank (dev_hdr dev) \<in> {1, 2} \<and> ssbl_ok m i dev (bank_lba dev) \<and>
     writable m (0, SSBL_BOOT_PATH) (length (ssbl_image dev (bank_lba dev))) \<and> rd32 (stale_bytes m 4) = 0 \<and>
     (\<exists>v < length (volumes m). can_load m SSBL_PATH v)"

lemma ssbl_image_small: "length (ssbl_image dev lba) < 2 ^ 32"
  using unat_bound [of "ssbl_image_len dev lba"] by (simp add: ssbl_image_def)

section \<open>A run through both stages\<close>

lemma chain_run:
  assumes "bootable ssl m i dev info ans img kimg" "signed_file ssl m FSBL_SELF_PATH ans'"
    and "bootmode (dev_hdr dev) = 1" "bank_ready m i dev"
  shows "\<exists>m3. boot_chain ssl m = Done EFI_SUCCESS (grub_loop 0 (length (volumes m)) m3) \<and>
    started m3 = started m @ [SSBL_PATH] \<and> (\<forall>v. can_load m3 GRUB_PATH v = can_load m GRUB_PATH v)"
proof -
  have chk: "fsbl_checks ssl m i dev"
    using assms(1,2) unfolding fsbl_checks_def bootable_def dice_ok_def by blast
  define m2 where "m2 = (write_file (0, SSBL_BOOT_PATH) (ssbl_image dev (bank_lba dev)) m)\<lparr>started := started m @ [SSBL_PATH]\<rparr>"
  have beside: "beside_file SSBL_BOOT_PATH m m2" unfolding m2_def by (rule beside_write_file) simp
  have run: "boot_chain ssl m = andthen (UefiMain ssl) (\<lambda>_. retn EFI_SUCCESS) m2"
    using assms(3,4) FSBL_bank_run [OF chk _ _ _ refl] unfolding boot_chain_def m2_def bank_ready_def by auto
  have boot2: "bootable ssl m2 i dev info ans img kimg" using beside assms(1) by (rule beside_bootable)
  define m3 where "m3 = put_blkdev i (dev_put dev 0 (hdr_sector (with_modes 1 1 (dev_hdr dev)))) m2"
  have "length (volumes m3) = length (volumes m)" using beside_length [OF beside] by (simp add: m3_def)
  then have "UefiMain ssl m2 = Done EFI_SUCCESS (grub_loop 0 (length (volumes m)) m3)"
    using normal_run [OF boot2 assms(3)] by (simp add: Let_def m3_def)
  moreover have "started m3 = started m @ [SSBL_PATH]" by (simp add: m3_def m2_def)
  moreover have "can_load m3 GRUB_PATH v = can_load m GRUB_PATH v" for v
    using beside_can_load [OF beside, of GRUB_PATH v] by (simp add: m3_def)
  ultimately show ?thesis using run by (auto simp: andthen_Done)
qed

end
