(* ===== verification/Sbc_Example.thy ===== *)
theory Sbc_Example
  imports Sbc_Chain
begin

text \<open>
  A concrete machine: one disk with a raw partition and two banks, one volume
  with a signed first stage image, a kernel and GRUB, and a small library in the
  place of OpenSSL.  The checks of the entry point pass on it, in every boot
  mode.
\<close>

unbundle bit_operations_syntax

section \<open>Library\<close>

text \<open>A cipher that masks with the first byte of the key, signatures that start with the digest.\<close>

definition demo_ssl :: openssl where
  "demo_ssl = \<lparr>ssl_hmac = (\<lambda>k d. to_le 32 (length d)),
     ssl_gcm_seal = (\<lambda>k iv aad pt n. Some (map (\<lambda>b. b XOR hd k) pt, take n k)),
     ssl_gcm_open = (\<lambda>k iv aad ct tag. if tag = take 16 k then Some (map (\<lambda>b. b XOR hd k) ct) else None),
     ssl_cbc = (\<lambda>enc k iv x. x),
     ssl_x509_ec = (\<lambda>cert. if cert = ascii ''cert'' then Some \<lparr>ec_nid = 415, ec_bytes = 32, ec_point = zeros 64\<rparr> else None),
     ssl_x509_verify = (\<lambda>c ca. c = ca),
     ssl_ecdsa = (\<lambda>key h r s. r = h)\<rparr>"

lemma demo_gcm [simp]: "gcm_correct demo_ssl"
  by (auto simp: gcm_correct_def demo_ssl_def xor.assoc o_def)

section \<open>Disk\<close>

definition demo_hdr :: "u16 \<Rightarrow> u16 \<Rightarrow> rawprt_hdr" where
  "demo_hdr b k = \<lparr>magicid = 0xAA55AA55, prtinfo = zeros 64, reserv = zeros 46, bootmode = b, keymode = k, rcvmode = 0,
     bootpres = [0, 1, 0, 67, 0, 2, 0, 0]\<rparr>"

definition demo_base :: nvme_device where
  "demo_base = \<lparr>MediaId = 7, BlockSize = 512, LastBlock = 0x1FFFFF, Mdts = 0, Mpsmin = 0, sector_bad = (\<lambda>_. False), media = (\<lambda>_. 1)\<rparr>"

definition demo_dev :: "u16 \<Rightarrow> u16 \<Rightarrow> nvme_device" where
  "demo_dev b k = dev_put demo_base 0 (hdr_sector (demo_hdr b k))"

lemma demo_hdr_wf [simp]: "hdr_wf (demo_hdr b k)"
  by (simp add: demo_hdr_def hdr_wf_def)

lemma demo_dev_hdr [simp]: "dev_hdr (demo_dev b k) = demo_hdr b k"
  by (simp add: demo_dev_def)

lemma demo_bank [simp]: "current_bank (demo_hdr b k) = 1"
proof -
  have pres: "bootpres (demo_hdr b k) = [0, 1, 0, 67, 0, 2, 0, 0]" by (simp add: demo_hdr_def)
  show ?thesis unfolding current_bank_def pres by (simp add: slice_def Let_def SBC_SWAP_ENDIAN_32_def rd32_def)
qed

lemma demo_servable:
  "servable demo_base lba len \<longleftrightarrow> 0 < unat len \<and> unat len mod 512 = 0 \<and> unat lba + unat len div 512 \<le> 0x200000"
  "servable (demo_dev b k) lba len \<longleftrightarrow> 0 < unat len \<and> unat len mod 512 = 0 \<and> unat lba + unat len div 512 \<le> 0x200000"
proof -
  have "nvme_ok demo_base" by (simp add: nvme_ok_def demo_base_def MaxTransferBlocks_def)
  then show "servable demo_base lba len \<longleftrightarrow> 0 < unat len \<and> unat len mod 512 = 0 \<and> unat lba + unat len div 512 \<le> 0x200000"
    by (auto simp: servable_def in_media_def sectors_ok_def list_all_iff demo_base_def)
  then show "servable (demo_dev b k) lba len \<longleftrightarrow> 0 < unat len \<and> unat len mod 512 = 0 \<and> unat lba + unat len div 512 \<le> 0x200000"
    by (simp add: demo_dev_def)
qed

section \<open>Files\<close>

definition demo_ans :: bytes where
  "demo_ans = ascii ''base-answer-0001''"

definition demo_code :: bytes where
  "demo_code = replicate 64 0xC3"

definition demo_sig :: bytes where
  "demo_sig = sha256 demo_code @ zeros 32"

definition demo_forged :: bytes where
  "demo_forged = map (\<lambda>b. b + 1) (sha256 demo_code) @ zeros 32"

definition demo_trailer :: bytes where
  "demo_trailer = [64, 0, 4, 0, 16, 0, 0, 0]"

definition demo_fsbl :: "bytes \<Rightarrow> bytes" where
  "demo_fsbl sg = image_layout demo_code demo_ans [] (ascii ''cert'') sg demo_trailer"

definition demo_kernel :: bytes where
  "demo_kernel = ascii ''vmlinuz''"

definition demo_grub :: bytes where "demo_grub = ascii ''grubx64''"
definition demo_ssbl :: bytes where "demo_ssbl = ascii ''second stage''"

text \<open>The entries of the volume, by their names in upper case.\<close>

definition demo_files :: "bytes \<Rightarrow> path \<Rightarrow> node option" where
  "demo_files sg p =
     (if p \<in> {[''EFI''], [''EFI'', ''BOOT''], [''EFI'', ''ROCKY''], [''BOOT'']} then Some Directory
      else if p = [''EFI'', ''BOOT'', ''FSBL.EFI''] \<or> p = [''EFI'', ''ROCKY'', ''FSBL.EFI''] then Some (RegFile (demo_fsbl sg))
      else if p = [''BOOT'', ''VMLINUZ-5.14.0-284.11.1.EL9_2.X86_64''] then Some (RegFile demo_kernel)
      else if p = [''EFI'', ''ROCKY'', ''GRUBX64.EFI''] then Some (RegFile demo_grub)
      else if p = [''EFI'', ''ROCKY'', ''SSBL.EFI''] then Some (RegFile demo_ssbl)
      else None)"

lemma demo_lengths [simp]:
  "length demo_ans = 16" "length demo_code = 64" "length demo_trailer = 8" "length demo_kernel = 7" "length demo_sig = 64" "length demo_forged = 64"
  "length (demo_fsbl sg) = 92 + length sg"
  by (simp_all add: demo_ans_def demo_code_def demo_trailer_def demo_kernel_def demo_sig_def demo_forged_def demo_fsbl_def image_layout_def ascii_def)

lemma demo_layout:
  assumes "length sg = 64"
  shows "layout_ok demo_code demo_ans [] (ascii ''cert'') sg demo_trailer"
proof -
  have "trailer_lengths demo_trailer = (16, 0, 4, 64)"
    by (simp add: trailer_lengths_def bsinfo_of_bytes_def demo_trailer_def Let_def rd16_def slice_def)
  then show ?thesis using assms by (simp add: layout_ok_def image_layout_def ascii_def demo_code_def)
qed

lemma demo_signature: "length sg = 64 \<Longrightarrow> signature_good demo_ssl demo_code (ascii ''cert'') sg \<longleftrightarrow> take 32 sg = sha256 demo_code"
  by (simp add: signature_good_def EcDsaVerify_def demo_ssl_def ec_half_size_def)

lemma demo_bad_sig: "\<not> signature_good demo_ssl demo_code (ascii ''cert'') demo_forged" "demo_forged \<noteq> demo_sig"
proof -
  have "map (\<lambda>b. b + 1) (x # xs) \<noteq> x # xs" for x :: byte and xs by simp
  moreover have "\<exists>x xs. sha256 demo_code = x # xs" using length_sha256 [of demo_code] by (cases "sha256 demo_code") simp_all
  ultimately have "map (\<lambda>b. b + 1) (sha256 demo_code) \<noteq> sha256 demo_code" by metis
  then show "\<not> signature_good demo_ssl demo_code (ascii ''cert'') demo_forged" "demo_forged \<noteq> demo_sig"
    by (simp_all add: demo_signature demo_forged_def demo_sig_def)
qed

section \<open>Machine\<close>

definition demo_info :: hw_uniqueinfo where
  "demo_info = \<lparr>mbsn = [], mmsn = [], nvmesn = ascii ''SN0123456789''\<rparr>"

definition demo_vol :: "bytes \<Rightarrow> volume" where
  "demo_vol sg = \<lparr>vol_open = EFI_SUCCESS, vol_files = demo_files sg, vol_short = (\<lambda>_ n. n), vol_read = EFI_SUCCESS,
     vol_info = EFI_SUCCESS, vol_wopen = EFI_SUCCESS, vol_create = EFI_SUCCESS, vol_readonly = (\<lambda>_. False), vol_grow = (\<lambda>_. EFI_SUCCESS), vol_slack = (\<lambda>_. 0),
     vol_write = (\<lambda>n. (EFI_SUCCESS, n))\<rparr>"

definition demo :: "bytes \<Rightarrow> u16 \<Rightarrow> u16 \<Rightarrow> machine" where
  "demo sg b k = \<lparr>blkdevs = [Some (demo_dev b k)],
     volumes = [Some (demo_vol sg)],
     smbios = Some [], nvme_identify = [Some (zeros 4 @ ascii ''SN0123456789        '')],
     pool_ok = (\<lambda>_. True), stale = (\<lambda>_. 0), rng = (\<lambda>_ n. Some (replicate n 7)), rng_calls = 0,
     loadable = (\<lambda>c. c = demo_grub \<or> c = demo_ssbl), started = []\<rparr>"

lemma demo_fields [simp]:
  "blkdev (demo sg b k) 0 = Some (demo_dev b k)" "pool_ok (demo sg b k) n" "started (demo sg b k) = []"
  "rng (demo sg b k) j n = Some (replicate n 7)" "length (volumes (demo sg b k)) = 1" "volumes (demo sg b k) \<noteq> []"
  by (simp_all add: demo_def blkdev_def)

text \<open>Where the paths of the loaders lead.\<close>

lemma demo_names [simp]:
  "FatFileNameIsValid ''EFI'' = Some ''EFI''" "FatFileNameIsValid ''BOOT'' = Some ''BOOT''" "FatFileNameIsValid ''boot'' = Some ''boot''"
  "FatFileNameIsValid ''rocky'' = Some ''rocky''" "FatFileNameIsValid ''FSBL.efi'' = Some ''FSBL.efi''"
  "FatFileNameIsValid ''SSBL.efi'' = Some ''SSBL.efi''" "FatFileNameIsValid ''grubx64.efi'' = Some ''grubx64.efi''"
  "FatFileNameIsValid ''bootmode'' = Some ''bootmode''"
  "FatFileNameIsValid ''vmlinuz-5.14.0-284.11.1.el9_2.x86_64'' = Some ''vmlinuz-5.14.0-284.11.1.el9_2.x86_64''"
  by code_simp+

lemma demo_upper [simp]:
  "EngStrUpr ''EFI'' = ''EFI''" "EngStrUpr ''BOOT'' = ''BOOT''" "EngStrUpr ''boot'' = ''BOOT''"
  "EngStrUpr ''rocky'' = ''ROCKY''" "EngStrUpr ''FSBL.efi'' = ''FSBL.EFI''"
  "EngStrUpr ''SSBL.efi'' = ''SSBL.EFI''" "EngStrUpr ''grubx64.efi'' = ''GRUBX64.EFI''" "EngStrUpr ''bootmode'' = ''BOOTMODE''"
  "EngStrUpr ''vmlinuz-5.14.0-284.11.1.el9_2.x86_64'' = ''VMLINUZ-5.14.0-284.11.1.EL9_2.X86_64''"
  by code_simp+

lemma demo_locate:
  assumes "vol_files v = demo_files sg \<or> vol_files v = (demo_files sg)([''EFI'', ''BOOT'', ''SSBL.EFI''] \<mapsto> RegFile c)"
  shows "FatLocateOFile v [''EFI''] = Inr ([''EFI''], True)" "FatLocateOFile v [''EFI'', ''BOOT''] = Inr ([''EFI'', ''BOOT''], True)"
    "FatLocateOFile v [''EFI'', ''BOOT'', ''FSBL.efi''] = Inr ([''EFI'', ''BOOT'', ''FSBL.EFI''], True)"
    "FatLocateOFile v FSBL_PATH = Inr ([''EFI'', ''BOOT'', ''FSBL.EFI''], True)"
    "FatLocateOFile v FSBL_SELF_PATH = Inr ([''EFI'', ''ROCKY'', ''FSBL.EFI''], True)"
    "FatLocateOFile v OSID_KERNEL_PATH = Inr ([''BOOT'', ''VMLINUZ-5.14.0-284.11.1.EL9_2.X86_64''], True)"
    "FatLocateOFile v GRUB_PATH = Inr ([''EFI'', ''ROCKY'', ''GRUBX64.EFI''], True)"
    "FatLocateOFile v SSBL_PATH = Inr ([''EFI'', ''ROCKY'', ''SSBL.EFI''], True)"
    "FatLocateOFile v SSBL_BOOT_PATH = Inr ([''EFI'', ''BOOT'', ''SSBL.EFI''], vol_files v [''EFI'', ''BOOT'', ''SSBL.EFI''] \<noteq> None)"
    "FatLocateOFile v BOOT_MODE_FNAME = Inr ([''EFI'', ''BOOT'', ''BOOTMODE''], False)"
  using assms by (auto simp: FatLocateOFile_def FatSearchODir_def node_at_def demo_files_def Let_def)

lemma demo_open:
  "fs_open (demo sg b k) 0 [''EFI''] = Inr Directory" "fs_open (demo sg b k) 0 [''EFI'', ''BOOT''] = Inr Directory"
  "fs_open (demo sg b k) 0 [''EFI'', ''BOOT'', ''FSBL.efi''] = Inr (RegFile (demo_fsbl sg))"
  "fs_open (demo sg b k) 0 FSBL_PATH = Inr (RegFile (demo_fsbl sg))" "fs_open (demo sg b k) 0 FSBL_SELF_PATH = Inr (RegFile (demo_fsbl sg))"
  "fs_open (demo sg b k) 0 OSID_KERNEL_PATH = Inr (RegFile demo_kernel)" "fs_open (demo sg b k) 0 GRUB_PATH = Inr (RegFile demo_grub)"
  "fs_open (demo sg b k) 0 SSBL_PATH = Inr (RegFile demo_ssbl)" "fs_open (demo sg b k) 0 SSBL_BOOT_PATH = Inl EFI_NOT_FOUND"
  "fs_open (demo sg b k) 0 BOOT_MODE_FNAME = Inl EFI_NOT_FOUND"
proof -
  have fls: "vol_files (demo_vol sg) = demo_files sg" by (simp add: demo_vol_def)
  note loc = demo_locate [OF disjI1 [OF fls]]
  have op: "fs_open (demo sg b k) 0 p = found_node (demo_vol sg) (FatLocateOFile (demo_vol sg) p)" for p
    by (simp add: fs_open_def demo_def) (simp add: demo_vol_def EFI_ERROR_def)
  have at: "node_at (demo_vol sg) e = (if e = [] then Some Directory else demo_files sg e)" for e
    by (simp add: node_at_def demo_vol_def)
  show "fs_open (demo sg b k) 0 [''EFI''] = Inr Directory" "fs_open (demo sg b k) 0 [''EFI'', ''BOOT''] = Inr Directory"
    "fs_open (demo sg b k) 0 [''EFI'', ''BOOT'', ''FSBL.efi''] = Inr (RegFile (demo_fsbl sg))"
    "fs_open (demo sg b k) 0 FSBL_PATH = Inr (RegFile (demo_fsbl sg))" "fs_open (demo sg b k) 0 FSBL_SELF_PATH = Inr (RegFile (demo_fsbl sg))"
    "fs_open (demo sg b k) 0 OSID_KERNEL_PATH = Inr (RegFile demo_kernel)" "fs_open (demo sg b k) 0 GRUB_PATH = Inr (RegFile demo_grub)"
    "fs_open (demo sg b k) 0 SSBL_PATH = Inr (RegFile demo_ssbl)" "fs_open (demo sg b k) 0 SSBL_BOOT_PATH = Inl EFI_NOT_FOUND"
    "fs_open (demo sg b k) 0 BOOT_MODE_FNAME = Inl EFI_NOT_FOUND"
    unfolding op loc fls by (simp_all add: found_node_def at demo_files_def)
qed

lemma demo_grub_loads: "can_load (demo sg b k) GRUB_PATH 0"
  by (simp add: can_load_def demo_open) (simp add: demo_def demo_vol_def EFI_ERROR_def)

lemma demo_readable:
  assumes "fs_open (demo sg b k) 0 p = Inr (RegFile c)" "length c < 2 ^ 32"
  shows "readable_file (demo sg b k) p 0 c"
  using assms by (simp add: readable_file_def first_file_def) (simp add: demo_def demo_vol_def EFI_ERROR_def info_ok_def file_info_def)

lemma demo_hw_info: "hw_info (demo sg b k) = Done demo_info (demo sg b k)"
proof -
  have "trim_serial (slice 4 20 (zeros 4 @ ascii ''SN0123456789        '')) = ascii ''SN0123456789''" by code_simp
  then show ?thesis
    by (simp add: hw_info_def andthen_Done demo_def baseboard_sn_def memorydevice_sn_def nvme_get_serial_def demo_info_def zero_info_def)
qed

lemma demo_settings [simp]: "settings_ok (demo sg b k) 0 (demo_dev b k)"
  by (simp add: settings_ok_def demo_servable)

lemma demo_raw_prt [simp]: "raw_prt_at (demo sg b k) 0 (demo_dev b k)"
  by (simp add: raw_prt_at_def demo_servable is_raw_prt_def) (simp add: demo_hdr_def)

lemma demo_bytes: "512 \<le> a \<Longrightarrow> dev_bytes (demo_dev b k) a n = replicate n 1"
  by (simp add: demo_dev_def dev_bytes_put_other) (simp add: dev_bytes_def demo_base_def map_replicate_const)

lemma demo_word: "512 \<le> a \<Longrightarrow> rd32 (dev_bytes (demo_dev b k) a 4) = 0x01010101"
proof -
  have "replicate 4 (1 :: byte) = [1, 1, 1, 1]" by code_simp
  then show "512 \<le> a \<Longrightarrow> ?thesis" by (simp only: demo_bytes) (simp add: rd32_def)
qed

lemma demo_ssbl: "ssbl_ok (demo sg b k) 0 (demo_dev b k) (ssbl_startlba 1)"
proof -
  have "ALIGN_VALUE 0x01010101 512 = 0x01010200" by (simp add: ALIGN_VALUE_def)
  then have "ssbl_image_len (demo_dev b k) (ssbl_startlba 1) = 0x01010200"
    by (simp add: ssbl_image_len_def ssbl_startlba_1 demo_word)
  then show ?thesis by (simp add: ssbl_ok_def demo_servable ssbl_startlba_1)
qed

lemma demo_fsbl_ok:
  assumes "length sg = 64"
  shows "fsbl_ok (demo sg b k) demo_info (demo_fsbl sg)"
proof -
  have "first_volume (volumes (demo sg b k)) 0 = Some 0"
    "volumes (demo sg b k) ! 0 = Some (demo_vol sg)"
    by (simp_all add: demo_def demo_vol_def EFI_ERROR_def)
  moreover have "fs_open (demo sg b k) 0 [''EFI''] = Inr Directory" "fs_open (demo sg b k) 0 [''EFI'', ''BOOT''] = Inr Directory"
    "fs_open (demo sg b k) 0 [''EFI'', ''BOOT'', ''FSBL.efi''] = Inr (RegFile (demo_fsbl sg))"
    by (simp_all add: demo_open)
  ultimately show ?thesis using assms by (auto simp: fsbl_ok_def demo_vol_def EFI_ERROR_def)
qed

lemma demo_dice:
  assumes "length sg = 64"
  shows "dice_ok (demo sg b k) 0 demo_info (demo_fsbl sg) demo_kernel"
proof -
  have "readable_file (demo sg b k) OSID_KERNEL_PATH 0 demo_kernel" by (rule demo_readable) (simp_all add: demo_open)
  moreover have "demo_kernel \<noteq> []" by (simp add: demo_kernel_def ascii_def)
  ultimately show ?thesis
    unfolding dice_ok_def using demo_hw_info demo_fsbl_ok [OF assms] demo_ssbl by blast
qed

lemma demo_signed: "signed_fsbl demo_ssl (demo demo_sig b k) demo_ans"
proof -
  have "signature_good demo_ssl demo_code (ascii ''cert'') demo_sig"
    by (simp add: demo_signature) (simp add: demo_sig_def)
  moreover have "readable_file (demo demo_sig b k) FSBL_PATH 0 (demo_fsbl demo_sig)" by (rule demo_readable) (simp_all add: demo_open)
  ultimately show ?thesis
    unfolding signed_file_def demo_fsbl_def using demo_layout [of demo_sig] by (simp only: demo_lengths demo_fields) blast
qed

lemma demo_bootable:
  "bootable demo_ssl (demo demo_sig b k) 0 (demo_dev b k) demo_info demo_ans (demo_fsbl demo_sig) demo_kernel"
  by (simp add: bootable_def demo_signed demo_dice bm_file_ok_def demo_open)

lemma demo_image: "512 \<le> a \<Longrightarrow> bank_image (demo_dev b k) a = replicate 0x01010101 1"
  by (simp only: bank_image_def demo_word) (simp add: demo_bytes)

lemma demo_migration: "migration_ok (demo sg b k) 0 (demo_dev b k) demo_info 1 2"
proof -
  have lba: "unat (bank_startlba 1) = 1" "unat (bank_startlba 2) = 0x40001" by (simp_all add: bank_startlba_def)
  have "image_fits (demo_dev b k) 512 ofs" if "ofs \<le> 0x800000" for ofs
    using that unfolding image_fits_def by (simp add: demo_image)
  then show ?thesis
    by (simp add: migration_ok_def demo_hw_info demo_servable lba)
      (simp add: hw_bytes_def demo_info_def ascii_def)
qed

section \<open>Variations\<close>

text \<open>No bank is marked as the current one.\<close>

definition bankless_dev :: "u16 \<Rightarrow> nvme_device" where
  "bankless_dev b = dev_put (demo_dev b 1) 0 (hdr_sector ((demo_hdr b 1)\<lparr>bootpres := zeros 8\<rparr>))"

lemma bankless_hdr [simp]: "dev_hdr (bankless_dev b) = (demo_hdr b 1)\<lparr>bootpres := zeros 8\<rparr>"
  by (simp add: bankless_dev_def hdr_wf_def demo_hdr_def)

lemma bankless_bank: "current_bank (dev_hdr (bankless_dev b)) = 0"
proof -
  have pres: "bootpres (dev_hdr (bankless_dev b)) = [0, 0, 0, 0, 0, 0, 0, 0]" by (simp add: zeros_def numeral_eq_Suc)
  show ?thesis unfolding current_bank_def pres by (simp add: slice_def Let_def SBC_SWAP_ENDIAN_32_def rd32_def)
qed

lemma bankless_bootable:
  "bootable demo_ssl (put_blkdev 0 (bankless_dev b) (demo demo_sig b 1)) 0 (bankless_dev b) demo_info demo_ans (demo_fsbl demo_sig) demo_kernel"
proof (rule bootable_moved [OF demo_bootable [of b 1]])
  show "same_platform (demo demo_sig b 1) (put_blkdev 0 (bankless_dev b) (demo demo_sig b 1))"
    by (simp add: same_platform_def)
  show "is_raw_prt (bankless_dev b)" by (simp add: is_raw_prt_def) (simp add: demo_hdr_def)
  have len: "length (hdr_sector ((demo_hdr b 1)\<lparr>bootpres := zeros 8\<rparr>)) = 512"
    by (rule length_hdr_sector) (simp add: hdr_wf_def demo_hdr_def)
  show "ssbl_image_len (bankless_dev b) (ssbl_startlba 1) = ssbl_image_len (demo_dev b 1) (ssbl_startlba 1)"
    unfolding bankless_dev_def ssbl_image_len_def using len by (simp add: ssbl_startlba_1 dev_bytes_put_other)
qed (simp_all add: bankless_dev_def)

text \<open>Sectors that fail: those behind the header, those of the second half of a long write, all of them.\<close>

definition bad_settings :: "u16 \<Rightarrow> nvme_device" where
  "bad_settings b = (demo_dev b 1)\<lparr>sector_bad := \<lambda>s. 1 \<le> s\<rparr>"

definition half_bad :: nvme_device where
  "half_bad = demo_base\<lparr>sector_bad := \<lambda>s. 1030 \<le> s\<rparr>"

definition dead_dev :: nvme_device where
  "dead_dev = demo_base\<lparr>sector_bad := \<lambda>s. True\<rparr>"

lemma half_bad_sectors: "\<not> sectors_ok half_bad 0 2000"
  by (auto simp: sectors_ok_def half_bad_def list_all_iff intro!: bexI [of _ 1030])

text \<open>Blocks of 64 KiB on a controller that moves 8 KiB at a time.\<close>

definition wide_blocks :: nvme_device where
  "wide_blocks = demo_base\<lparr>BlockSize := 0x10000, Mdts := 1\<rparr>"

text \<open>A boot context and a stored answer that is too long for its slot.\<close>

definition demo_proc :: "u16 \<Rightarrow> u16 \<Rightarrow> u32 \<Rightarrow> boot_proc" where
  "demo_proc b k st = \<lparr>blkhnd = Some 0, rawprt = demo_hdr b k, baseansr = ans_lv demo_ans,
     keyinfo = \<lparr>devid = replicate 32 1, fwid = replicate 32 2, osid = replicate 32 3, migid = replicate 32 4\<rparr>,
     pvs_sw_bnk = 2, curr_sw_bnk = 1, bm = b, km = k, bootst = st\<rparr>"

definition long_ansid :: base_ansid where
  "long_ansid = zero_ansid\<lparr>msglen := 24\<rparr>"

section \<open>The first stage\<close>

lemma demo_self_signed: "signed_file demo_ssl (demo demo_sig b k) FSBL_SELF_PATH demo_ans"
proof -
  have r: "readable_file (demo demo_sig b k) FSBL_SELF_PATH 0 (image_layout demo_code demo_ans [] (ascii ''cert'') demo_sig demo_trailer)"
    by (rule demo_readable) (simp_all add: demo_open demo_fsbl_def [symmetric])
  have "signature_good demo_ssl demo_code (ascii ''cert'') demo_sig" by (simp add: demo_signature) (simp add: demo_sig_def)
  then show ?thesis
    unfolding signed_file_def using demo_layout [of demo_sig] r by (simp only: demo_lengths demo_fields) blast
qed

lemma demo_fsbl_checks: "fsbl_checks demo_ssl (demo demo_sig b k) 0 (demo_dev b k)"
  unfolding fsbl_checks_def using demo_raw_prt demo_self_signed demo_hw_info demo_fsbl_ok [of demo_sig b k] demo_lengths(5) by blast

lemma demo_ssbl_ok: "ssbl_ok (demo demo_sig b k) 0 (demo_dev b k) (ssbl_startlba 1)"
  using demo_dice [of demo_sig b k] by (auto simp: dice_ok_def ssbl_ok_def)

lemma demo_writable:
  "n < 2 ^ 32 \<Longrightarrow> writable (demo sg b k) (0, SSBL_BOOT_PATH) n"
  using demo_locate(9) [of "demo_vol sg" sg]
  by (simp add: writable_def demo_def) (simp add: demo_vol_def node_at_def demo_files_def EFI_ERROR_def)

lemma demo_ssbl_loads: "can_load (demo sg b k) SSBL_PATH 0"
  by (simp add: can_load_def demo_open) (simp add: demo_def demo_vol_def EFI_ERROR_def)

lemma demo_bank_ready: "bank_ready (demo demo_sig b k) 0 (demo_dev b k)"
proof -
  have "rd32 (stale_bytes (demo demo_sig b k) 4) = 0"
    by (simp add: stale_bytes_def demo_def rd32_def numeral_eq_Suc)
  then show ?thesis
    using demo_ssbl_ok demo_writable [OF ssbl_image_small, of demo_sig b k] demo_ssbl_loads [of demo_sig b k]
    by (auto simp: bank_ready_def)
qed

lemma demo_chain:
  "\<exists>m'. boot_chain demo_ssl (demo demo_sig 1 1) = Done EFI_SUCCESS m' \<and> started m' = [SSBL_PATH, GRUB_PATH]"
proof -
  obtain m3 where m3: "boot_chain demo_ssl (demo demo_sig 1 1) = Done EFI_SUCCESS (grub_loop 0 1 m3)"
    "started m3 = [SSBL_PATH]" "can_load m3 GRUB_PATH 0"
    using chain_run [OF demo_bootable demo_self_signed, of 1 1] demo_bank_ready [of 1 1] demo_grub_loads [of demo_sig 1 1]
    by (auto simp: demo_hdr_def)
  then show ?thesis using grub_loop_result [of 0 1 m3] by auto
qed

lemma demo_short: "first_file (demo demo_sig b k) p v (RegFile c) \<Longrightarrow> length c < 2 ^ 64"
proof -
  assume ff: "first_file (demo demo_sig b k) p v (RegFile c)"
  then have "v = 0" using first_file_volume [OF ff] by simp
  then obtain e where "demo_files demo_sig e = Some (RegFile c)"
    using ff by (auto simp: first_file_def fs_open_def demo_def demo_vol_def found_node_def node_at_def
        split: if_splits sum.splits option.splits)
  then have "c \<in> {demo_fsbl demo_sig, demo_kernel, demo_grub, demo_ssbl}"
    by (auto simp: demo_files_def split: if_splits)
  then show ?thesis by (auto simp: demo_grub_def demo_ssbl_def ascii_def)
qed

text \<open>A volume with no cluster left.\<close>

text \<open>A base board and three memory devices, the last of which names no serial number.\<close>

definition demo_records :: "smbios_record list" where
  "demo_records =
    [([2, 8, 0, 0, 1, 1, 1, 2], [ascii ''ACME'', ascii ''BOARD7'']),
     ([17, 25] @ zeros 22 @ [1], [ascii ''DIMM1'']),
     ([17, 25] @ zeros 22 @ [2], [ascii ''BANK2'', ascii ''DIMM2'']),
     ([17, 25] @ zeros 23, [])]"

definition full_vol :: volume where
  "full_vol = (demo_vol demo_sig)\<lparr>vol_files := (demo_files demo_sig)([''EFI'', ''BOOT'', ''SSBL.EFI''] \<mapsto> RegFile []),
     vol_grow := (\<lambda>_. EFI_VOLUME_FULL)\<rparr>"

end
