(* ===== verification/Storage_Theorems.thy ===== *)
theory Storage_Theorems
  imports Sbc_Example
begin

text \<open>
  What the storage below the boot loader promises and keeps: the block device, the
  raw partition and the slot of the base answer.
\<close>

section \<open>Block device\<close>

text \<open>
  C8: What a block device reads back.  After a write of \<open>n\<close> blocks at \<open>lba\<close> that lies
  on the medium and on working sectors, a read of \<open>n'\<close> blocks at \<open>lba'\<close> succeeds and
  returns, byte by byte, the written buffer where the two ranges overlap and the
  former contents elsewhere; how the driver cuts the two transfers into commands
  does not show.
\<close>

theorem block_write_read:
  assumes dev: "nvme_ok dev"
    and wr: "unat bufsz = n * unat (BlockSize dev)" "0 < n" "in_media dev (unat lba) n" "sectors_ok dev (unat lba) n"
      "length buf = unat bufsz"
    and rd: "unat bufsz' = n' * unat (BlockSize dev)" "0 < n'" "in_media dev (unat lba') n'" "sectors_ok dev (unat lba') n'"
  shows "\<exists>dev' data. NvmeBlockIoWriteBlocks dev (MediaId dev) lba bufsz (Some buf) = Some (EFI_SUCCESS, dev') \<and>
    NvmeBlockIoReadBlocks dev' (MediaId dev') lba' bufsz' True = Some (EFI_SUCCESS, data) \<and>
    length data = unat bufsz' \<and>
    (\<forall>j < unat bufsz'. let a = unat lba * unat (BlockSize dev); x = unat lba' * unat (BlockSize dev) + j in
       data ! j = (if a \<le> x \<and> x < a + length buf then buf ! (x - a) else media dev x))"
proof -
  let ?dev = "dev_put dev (unat lba * unat (BlockSize dev)) buf"
  have w: "NvmeBlockIoWriteBlocks dev (MediaId dev) lba bufsz (Some buf) = Some (EFI_SUCCESS, ?dev)"
    using WriteBlocks_exact [OF dev wr] .
  have "NvmeBlockIoReadBlocks ?dev (MediaId ?dev) lba' bufsz' True =
      Some (EFI_SUCCESS, dev_bytes ?dev (unat lba' * unat (BlockSize ?dev)) (unat bufsz'))"
    using dev rd by (intro ReadBlocks_exact) simp_all
  with w show ?thesis by (auto simp: dev_bytes_def dev_put_def Let_def)
qed

theorem block_write_read_witness:
  "\<exists>dev' data. NvmeBlockIoWriteBlocks demo_base 7 3 1024 (Some (replicate 1024 9)) = Some (EFI_SUCCESS, dev') \<and>
    NvmeBlockIoReadBlocks dev' (MediaId dev') 4 1024 True = Some (EFI_SUCCESS, data) \<and> data ! 511 = 9 \<and> data ! 512 = 1"
proof -
  have ok: "nvme_ok demo_base" by (simp add: nvme_ok_def demo_base_def MaxTransferBlocks_def)
  have "sectors_ok demo_base a k" for a k by (simp add: sectors_ok_def list_all_iff demo_base_def)
  then obtain dev' data where r: "NvmeBlockIoWriteBlocks demo_base (MediaId demo_base) 3 1024 (Some (replicate 1024 9)) = Some (EFI_SUCCESS, dev')"
    "NvmeBlockIoReadBlocks dev' (MediaId dev') 4 1024 True = Some (EFI_SUCCESS, data)"
    "\<forall>j < 1024. let a = 3 * 512; x = 4 * 512 + j in
       data ! j = (if a \<le> x \<and> x < a + 1024 then replicate 1024 9 ! (x - a) else media demo_base x)"
    using block_write_read [OF ok, of 1024 2 3 "replicate 1024 9" 1024 2 4]
    by (auto simp: in_media_def demo_base_def)
  then have "data ! 511 = 9" "data ! 512 = 1" by (auto simp: Let_def demo_base_def)
  with r(1,2) show ?thesis by (auto simp: demo_base_def)
qed

text \<open>
  C21: The transfer loops of the driver end.  On a controller whose transfer limit has
  a value every read and every write returns a status.  When a block is larger than
  the limit, the first command is refused and the request ends with
  \<^verbatim>\<open>EFI_INVALID_PARAMETER\<close> and no data.  On a usable device a read on the medium
  succeeds exactly when all its sectors can be read and reports
  \<^verbatim>\<open>EFI_DEVICE_ERROR\<close> otherwise: no command is refused for its size.
\<close>

theorem transfer_loops_return:
  assumes "Mdts dev = 0 \<or> BlockSize dev \<noteq> 0 \<and> unat (Mdts dev) + unat (Mpsmin dev) \<le> 18"
  shows "(\<exists>st dev'. NvmeWrite dev buf lba blocks = Some (st, dev')) \<and>
    (\<exists>st data. NvmeRead dev lba blocks = Some (st, data) \<and>
      (MaxTransferBlocks dev = Some 0 \<and> 0 < blocks \<longrightarrow> st = EFI_INVALID_PARAMETER \<and> data = []) \<and>
      (nvme_ok dev \<and> in_media dev (unat lba) blocks \<longrightarrow>
         st = (if sectors_ok dev (unat lba) blocks then EFI_SUCCESS else EFI_DEVICE_ERROR)))"
proof -
  have "MaxTransferBlocks dev \<noteq> None" using assms by (auto simp: MaxTransferBlocks_def MaxTransLen_def)
  then obtain mx where mx: "MaxTransferBlocks dev = Some mx" by blast
  obtain st data where rd: "read_blocks dev mx lba blocks = Some (st, data)"
    using read_blocks_returns [of dev mx lba blocks] by auto
  have "st = EFI_INVALID_PARAMETER \<and> data = []" if "mx = 0" "0 < blocks"
    using rd that command_error(1) [of mx dev lba] by (subst (asm) read_blocks.simps) (simp add: EFI_ERROR_def)
  moreover have "st = (if sectors_ok dev (unat lba) blocks then EFI_SUCCESS else EFI_DEVICE_ERROR)"
    if "nvme_ok dev" "in_media dev (unat lba) blocks"
    using read_blocks_exact [OF that(1) mx that(2)] rd by auto
  moreover have "\<exists>st dev'. NvmeWrite dev buf lba blocks = Some (st, dev')"
    using write_blocks_returns [of mx dev buf lba blocks] mx by (auto simp: NvmeWrite_def)
  ultimately show ?thesis using mx rd by (auto simp: NvmeRead_def)
qed

theorem transfer_loops_return_witness:
  "NvmeRead wide_blocks 3 2 = Some (EFI_INVALID_PARAMETER, []) \<and>
   (\<exists>data. NvmeRead half_bad 0 2000 = Some (EFI_DEVICE_ERROR, data))"
proof -
  have "unat (Mdts wide_blocks) + unat (Mpsmin wide_blocks) \<le> 18" "BlockSize wide_blocks \<noteq> 0" "MaxTransferBlocks wide_blocks = Some 0"
    by (simp_all add: wide_blocks_def demo_base_def MaxTransferBlocks_def MaxTransLen_def push_bit_eq_mult)
  then have "NvmeRead wide_blocks 3 2 = Some (EFI_INVALID_PARAMETER, [])"
    using transfer_loops_return [of wide_blocks "[]" 3 2] by auto
  moreover have "nvme_ok half_bad" "Mdts half_bad = 0" "in_media half_bad 0 2000"
    by (simp_all add: nvme_ok_def in_media_def half_bad_def demo_base_def MaxTransferBlocks_def)
  then have "\<exists>data. NvmeRead half_bad 0 2000 = Some (EFI_DEVICE_ERROR, data)"
    using transfer_loops_return [of half_bad "[]" 0 2000] half_bad_sectors by auto
  ultimately show ?thesis by blast
qed

text \<open>
  C18: A write that fails half way stays inside its range: whatever sectors are bad
  and whatever the outcome, a write of \<open>len\<close> bytes at \<open>lba\<close> changes no other device
  and no byte of this one outside the blocks it was given.
\<close>

theorem BlockWrite_stays_inside:
  assumes "blkdev m i = Some dev" "nvme_ok dev" "BlockSize dev = 512" "unat lba * 512 + unat len \<le> b"
  shows "\<exists>dev'. final_world (SBC_RawPrtBlockWrite (Some i) buf len lba m) = put_blkdev i dev' m \<and>
    (\<forall>x. x < unat lba * 512 \<or> b \<le> x \<longrightarrow> media dev' x = media dev x)"
  using RawPrtBlockWrite_outside [OF assms] by (auto simp: same_outside_def)

theorem BlockWrite_stays_inside_witness:
  "\<exists>dev'. final_world (SBC_RawPrtBlockWrite (Some 0) (Some (replicate 1048576 5)) 1048576 2 ((demo [] 1 1)\<lparr>blkdevs := [Some half_bad]\<rparr>))
      = put_blkdev 0 dev' ((demo [] 1 1)\<lparr>blkdevs := [Some half_bad]\<rparr>) \<and> media dev' 1023 = 1 \<and> media dev' 1049600 = 1"
proof -
  have "nvme_ok half_bad" by (simp add: nvme_ok_def half_bad_def demo_base_def MaxTransferBlocks_def)
  then show ?thesis
    using BlockWrite_stays_inside [of "(demo [] 1 1)\<lparr>blkdevs := [Some half_bad]\<rparr>" 0 half_bad 2 1048576 1049600 "Some (replicate 1048576 5)"]
    by (auto simp: blkdev_def half_bad_def demo_base_def)
qed

section \<open>Raw partition\<close>

text \<open>
  C39: The search for the raw partition gives up at the first device it cannot read:
  the devices behind it are never looked at, though one of them may hold the
  partition.
\<close>

theorem search_gives_up:
  assumes "blkdevs m = pre @ Some bad # post" "pool_ok m (unat (BlockSize bad))" "pool_ok m 512"
    and "list_all (\<lambda>d. \<exists>x. d = Some x \<and> servable x 0 512 \<and> \<not> is_raw_prt x) pre"
    and "NvmeBlockIoReadBlocks bad (MediaId bad) 0 (ucast (BlockSize bad)) True = Some (st, data)" "EFI_ERROR st"
  shows "\<exists>hdr'. SBC_BlkIoHandleInit hdr m = Done (SBCFAIL, None, hdr') m"
proof -
  obtain hdr' where "SBC_BlkIoHandleInit hdr m = BlkIo_scan (Some bad # post) (length pre) hdr' m"
    using BlkIo_scan_skips [OF assms(4,3), of "Some bad # post" 0 hdr] assms(1) by (auto simp: SBC_BlkIoHandleInit_def)
  then show ?thesis using assms(2,5,6) by auto
qed

theorem search_gives_up_witness:
  "is_raw_prt (demo_dev 1 1) \<and>
   (\<exists>hdr'. SBC_BlkIoHandleInit zero_hdr ((demo [] 1 1)\<lparr>blkdevs := [Some dead_dev, Some (demo_dev 1 1)]\<rparr>)
     = Done (SBCFAIL, None, hdr') ((demo [] 1 1)\<lparr>blkdevs := [Some dead_dev, Some (demo_dev 1 1)]\<rparr>))"
proof -
  have "is_raw_prt (demo_dev 1 1)" using demo_raw_prt by (simp add: raw_prt_at_def)
  moreover have "NvmeBlockIoReadBlocks dead_dev (MediaId dead_dev) 0 (ucast (BlockSize dead_dev)) True = Some (EFI_DEVICE_ERROR, [])"
    by (simp add: NvmeBlockIoReadBlocks_def dead_dev_def demo_base_def NvmeRead_def read_blocks.simps MaxTransferBlocks_def ReadSectors_def
        NvmExpressPassThru_def command_blocks_def sectors_ok_def EFI_ERROR_def Let_def)
  ultimately show ?thesis
    using search_gives_up [of "(demo [] 1 1)\<lparr>blkdevs := [Some dead_dev, Some (demo_dev 1 1)]\<rparr>" "[]" dead_dev "[Some (demo_dev 1 1)]"
        EFI_DEVICE_ERROR "[]" zero_hdr]
    by (simp add: EFI_ERROR_def demo_def)
qed

section \<open>Base answer\<close>

text \<open>
  C7: The base answer goes through the medium unchanged.  When it is encrypted and
  stored under a key, validation under that key accepts it and rejects every other
  answer of the same length.
\<close>

theorem base_answer_roundtrip:
  assumes "settings_ok m i dev" "gcm_correct ssl" "length key = BASE_ANS_KEY_STR"
    "length d = unat msgl" "0 < msgl" "unat msgl \<le> BASE_ANS_MAX_LEN"
    "\<forall>b. rng m (rng_calls m) 12 = Some b \<longrightarrow> length b = 12"
  shows "\<exists>m'. SBC_BaseAnswerEncryptStore ssl (Some i) (Some d) msgl key m = Done SBCOK m' \<and>
    (\<forall>d'. length d' = length d \<longrightarrow>
       SBC_BaseAnswerValidate ssl (Some i) (Some d') (ucast msgl) key m' = Done (if d' = d then SBCOK else SBCFAIL) m')"
proof -
  obtain bs where bs: "sealed ssl key d (dev_put dev ANS_SLOT bs)"
    "SBC_BaseAnswerEncryptStore ssl (Some i) (Some d) msgl key m = Done SBCOK (put_blkdev i (dev_put dev ANS_SLOT bs) (ans_machine m))"
    using EncryptStore_seals [OF assms(1-4,6,7)] by blast
  let ?m = "put_blkdev i (dev_put dev ANS_SLOT bs) (ans_machine m)"
  have ok: "settings_ok ?m i (dev_put dev ANS_SLOT bs)" using assms(1) by (intro settings_ok_put) simp
  have ne: "d \<noteq> []" using assms(4,5) by (auto simp: word_less_nat_alt)
  have "SBC_BaseAnswerValidate ssl (Some i) (Some d') (ucast msgl) key ?m = Done (if d' = d then SBCOK else SBCFAIL) ?m"
    if "length d' = length d" for d'
    using sealed_compares [OF ok bs(1) assms(3) ne, of "ucast msgl" d'] that assms(4) by simp
  with bs(2) show ?thesis by blast
qed

theorem base_answer_roundtrip_witness:
  "\<exists>m'. SBC_BaseAnswerEncryptStore demo_ssl (Some 0) (Some demo_ans) 16 (replicate 32 3) (demo [] 1 1) = Done SBCOK m' \<and>
    SBC_BaseAnswerValidate demo_ssl (Some 0) (Some demo_ans) 16 (replicate 32 3) m' = Done SBCOK m' \<and>
    SBC_BaseAnswerValidate demo_ssl (Some 0) (Some (replicate 16 0)) 16 (replicate 32 3) m' = Done SBCFAIL m'"
proof -
  have "demo_ans ! 0 = 98" "replicate 16 (0 :: byte) ! 0 = 0" by (simp_all add: demo_ans_def ascii_def)
  then have ne: "replicate 16 0 \<noteq> demo_ans" by (auto dest: arg_cong [where f = "\<lambda>x. x ! 0"])
  obtain m' where "SBC_BaseAnswerEncryptStore demo_ssl (Some 0) (Some demo_ans) 16 (replicate 32 3) (demo [] 1 1) = Done SBCOK m'"
    "\<forall>d'. length d' = 16 \<longrightarrow> SBC_BaseAnswerValidate demo_ssl (Some 0) (Some d') 16 (replicate 32 3) m'
        = Done (if d' = demo_ans then SBCOK else SBCFAIL) m'"
    using base_answer_roundtrip [of "demo [] 1 1" 0 "demo_dev 1 1" demo_ssl "replicate 32 3" demo_ans 16] by auto
  with ne show ?thesis by auto
qed

text \<open>
  Validation compares only as many bytes as the caller hands in: with a stored
  answer \<open>d\<close>, every answer that begins with the first \<open>l\<close> bytes of \<open>d\<close> is accepted
  when \<open>l\<close> is the length given, even with \<open>l = 0\<close>.
\<close>

theorem validate_accepts_prefix:
  assumes "settings_ok m i dev" "sealed ssl key d dev" "length key = BASE_ANS_KEY_STR" "d \<noteq> []" "unat l \<le> length d"
  shows "SBC_BaseAnswerValidate ssl (Some i) (Some (take (unat l) d @ rest)) l key m = Done SBCOK m"
  using sealed_compares [OF assms, of "take (unat l) d @ rest"] assms(5) by simp

theorem validate_accepts_prefix_witness:
  "\<exists>m'. SBC_BaseAnswerEncryptStore demo_ssl (Some 0) (Some demo_ans) 16 (replicate 32 3) (demo [] 1 1) = Done SBCOK m' \<and>
    SBC_BaseAnswerValidate demo_ssl (Some 0) (Some []) 0 (replicate 32 3) m' = Done SBCOK m'"
proof -
  obtain bs where bs: "sealed demo_ssl (replicate 32 3) demo_ans (dev_put (demo_dev 1 1) ANS_SLOT bs)"
    "SBC_BaseAnswerEncryptStore demo_ssl (Some 0) (Some demo_ans) 16 (replicate 32 3) (demo [] 1 1)
      = Done SBCOK (put_blkdev 0 (dev_put (demo_dev 1 1) ANS_SLOT bs) (ans_machine (demo [] 1 1)))"
    using EncryptStore_seals [of "demo [] 1 1" 0 "demo_dev 1 1" demo_ssl "replicate 32 3" demo_ans 16] by auto
  have "settings_ok (put_blkdev 0 (dev_put (demo_dev 1 1) ANS_SLOT bs) (ans_machine (demo [] 1 1))) 0 (dev_put (demo_dev 1 1) ANS_SLOT bs)"
    by (intro settings_ok_put) simp
  from validate_accepts_prefix [OF this bs(1), where l = 0 and rest = "[]"] bs(2) show ?thesis
    by (simp add: demo_ans_def ascii_def)
qed

text \<open>
  C34: A stored length of more than 256 makes validation copy beyond the message
  buffer: the code takes the length from the medium as it is.
\<close>

theorem validate_overruns:
  assumes "settings_ok m i dev" "BASE_ANS_MAX_LEN < unat (rd32 (dev_bytes dev ANS_SLOT 4))"
  shows "SBC_BaseAnswerValidate ssl (Some i) (Some ans) l key m = Faulted OutOfBounds m"
proof -
  have "rd32 (dev_bytes dev ANS_SLOT 4) \<noteq> 0" using assms(2) by auto
  then have "baseanswer_extract_from_disk (Some i) (Some zero_ansid) m = Faulted OutOfBounds m"
    using baseanswer_extract_sound [OF assms(1), of zero_ansid] assms(2) by (simp add: zero_ansid_def Let_def)
  then show ?thesis by (simp add: SBC_BaseAnswerValidate_def andthen_def)
qed

theorem validate_overruns_witness:
  "SBC_BaseAnswerValidate demo_ssl (Some 0) (Some demo_ans) 16 (replicate 32 3) (demo [] 1 1) = Faulted OutOfBounds (demo [] 1 1)"
  by (rule validate_overruns [where dev = "demo_dev 1 1"]) (simp_all add: demo_word)

text \<open>
  C35: A stored answer of at most 16 bytes leaves the root certificate that follows
  the slot alone; one of 20 to 32 bytes sets the length word of that certificate to
  zero.
\<close>

theorem store_and_root_ca:
  assumes "settings_ok m i dev" "ansid_wf a" "unat (msglen a) \<le> BASE_ANS_MAX_LEN"
  shows "\<exists>dev'. baseanswer_store (Some i) (Some a) m = Done SBCOK (put_blkdev i dev' m) \<and>
    (unat (msglen a) \<le> 16 \<longrightarrow> (\<forall>k n. SYS_CONF_ROOT_CA_OFS \<le> k \<longrightarrow> dev_bytes dev' (SYS_CONF_ADDR + k) n = dev_bytes dev (SYS_CONF_ADDR + k) n)) \<and>
    (20 \<le> unat (msglen a) \<and> unat (msglen a) \<le> 32 \<longrightarrow> dev_bytes dev' (SYS_CONF_ADDR + SYS_CONF_ROOT_CA_OFS) 4 = zeros 4)"
proof -
  let ?n = "unat (msglen a)" and ?dev = "dev_put dev ANS_SLOT (ansid_slot a)"
  have len: "length (ansid_slot a) = 48 + ?n" using assms(2,3) by (rule length_ansid_slot)
  have "dev_bytes ?dev (SYS_CONF_ADDR + SYS_CONF_ROOT_CA_OFS) 4 = zeros 4" if n: "20 \<le> ?n" "?n \<le> 32"
  proof -
    have "dev_bytes ?dev (ANS_SLOT + 64) 4 = slice 64 4 (ansid_slot a)" using len n by (intro nvme.load_part) simp
    also have "\<dots> = zeros 4"
      using assms(2,3) n by (simp add: ansid_slot_def ansid_wf_def slice_def zeros_def min_def)
    finally show ?thesis by simp
  qed
  moreover have "dev_bytes ?dev (SYS_CONF_ADDR + k) n = dev_bytes dev (SYS_CONF_ADDR + k) n"
    if "?n \<le> 16" "SYS_CONF_ROOT_CA_OFS \<le> k" for k n
    using that len by (intro dev_bytes_put_other) simp
  ultimately show ?thesis using baseanswer_store_sound [OF assms] by blast
qed

theorem store_and_root_ca_witness:
  "rd32 (dev_bytes (demo_dev 1 1) (SYS_CONF_ADDR + SYS_CONF_ROOT_CA_OFS) 4) \<noteq> 0 \<and>
   (\<exists>dev'. baseanswer_store (Some 0) (Some long_ansid) (demo [] 1 1) = Done SBCOK (put_blkdev 0 dev' (demo [] 1 1)) \<and>
      dev_bytes dev' (SYS_CONF_ADDR + SYS_CONF_ROOT_CA_OFS) 4 = zeros 4)"
  using store_and_root_ca [of "demo [] 1 1" 0 "demo_dev 1 1" long_ansid]
  by (auto simp: long_ansid_def zero_ansid_def ansid_wf_def demo_word)

text \<open>
  C36: When the random number generator fails, the base answer is encrypted and
  stored all the same, with an initialisation vector of zeros.
\<close>

theorem failed_rng_zero_iv:
  assumes "settings_ok m i dev" "gcm_correct ssl" "length key = BASE_ANS_KEY_STR"
    "length d = unat msgl" "unat msgl \<le> BASE_ANS_MAX_LEN" "rng m (rng_calls m) 12 = None"
  shows "\<exists>dev'. SBC_BaseAnswerEncryptStore ssl (Some i) (Some d) msgl key m = Done SBCOK (put_blkdev i dev' (ans_machine m)) \<and>
    dev_bytes dev' (ANS_SLOT + 4 + length d) BASE_ANS_IV_KEY_STR = zeros BASE_ANS_IV_KEY_STR"
proof -
  obtain ct tag where seal: "ssl_gcm_seal ssl key (zeros 12) [] d 16 = Some (ct, tag)" "length ct = length d" "length tag = 16"
    using assms(2,3) length_zeros [of 12] unfolding gcm_correct_def by blast
  let ?a = "\<lparr>msglen = msgl, encmsg = overlay 0 ct (zeros BASE_ANS_MAX_LEN), anskey = key, ansiv = zeros 12, anstag = tag\<rparr>"
  have "SBC_BaseAnswerEncryptStore ssl (Some i) (Some d) msgl key m = Done SBCOK (put_blkdev i (dev_put dev ANS_SLOT (ansid_slot ?a)) (ans_machine m))"
    and wf: "ansid_wf ?a"
    using EncryptStore_sound [OF assms(1,3,5), of "zeros 12" ssl d ct tag] assms(4,6) seal by simp_all
  moreover have "dev_bytes (dev_put dev ANS_SLOT (ansid_slot ?a)) (ANS_SLOT + 4 + length d) BASE_ANS_IV_KEY_STR = zeros BASE_ANS_IV_KEY_STR"
    using slot_bytes(3) [OF wf, of dev ANS_SLOT] assms(4,5) by simp
  ultimately show ?thesis by blast
qed

theorem failed_rng_zero_iv_witness:
  "\<exists>dev'. SBC_BaseAnswerEncryptStore demo_ssl (Some 0) (Some demo_ans) 16 (replicate 32 3) ((demo [] 1 1)\<lparr>rng := \<lambda>_ _. None\<rparr>)
      = Done SBCOK (put_blkdev 0 dev' (ans_machine ((demo [] 1 1)\<lparr>rng := \<lambda>_ _. None\<rparr>))) \<and>
    dev_bytes dev' (ANS_SLOT + 4 + 16) 12 = zeros 12"
proof -
  have "settings_ok ((demo [] 1 1)\<lparr>rng := \<lambda>_ _. None\<rparr>) 0 (demo_dev 1 1)"
    by (simp add: settings_ok_def demo_servable demo_def blkdev_def)
  then show ?thesis
    using failed_rng_zero_iv [of "(demo [] 1 1)\<lparr>rng := \<lambda>_ _. None\<rparr>" 0 "demo_dev 1 1" demo_ssl "replicate 32 3" demo_ans 16] by simp
qed

end
