(* ===== verification/Identity_Theorems.thy ===== *)
theory Identity_Theorems
  imports Sbc_Example
begin

text \<open>
  What the check of the first stage image accepts, and what the identifiers and
  the migration key are made of.
\<close>

section \<open>First stage image\<close>

text \<open>
  C4: The check of the first stage file accepts exactly the signed images: with the
  file in memory it reports success if and only if the bytes split into code, base
  answer, firmware information, certificate, signature and trailer as the trailer
  says, with some code, and the signature of the code is good under the key of the
  certificate; what it hands on is the base answer.
\<close>

theorem verify_accepts_iff:
  assumes "readable_file m FSBL_PATH v img" "\<And>n. pool_ok m n"
  shows "SBC_SSBL_Verify ssl h b m = Done (SBCOK, Some (ans_lv ans)) m \<longleftrightarrow>
    (\<exists>code fw cert sg trailer. layout_ok code ans fw cert sg trailer \<and>
       img = image_layout code ans fw cert sg trailer \<and> signature_good ssl code cert sg)"
proof
  assume "SBC_SSBL_Verify ssl h b m = Done (SBCOK, Some (ans_lv ans)) m"
  then have v: "verify_image ssl img (word_of_nat (length img)) m = Done (SBCOK, Some (ans_lv ans)) m"
    using SSBL_Verify_file [OF assms(1)] by simp
  have "length img < 2 ^ 32" using assms(1) by (simp add: readable_file_def)
  from verify_image_accepts [OF v this]
  show "\<exists>code fw cert sg trailer. layout_ok code ans fw cert sg trailer \<and>
       img = image_layout code ans fw cert sg trailer \<and> signature_good ssl code cert sg"
    by (metis LV.ext_inject option.inject)
next
  assume "\<exists>code fw cert sg trailer. layout_ok code ans fw cert sg trailer \<and>
       img = image_layout code ans fw cert sg trailer \<and> signature_good ssl code cert sg"
  then show "SBC_SSBL_Verify ssl h b m = Done (SBCOK, Some (ans_lv ans)) m"
    using SSBL_Verify_file [OF assms(1)] assms(2) by (auto simp: verify_image_layout)
qed

theorem verify_accepts_iff_witness:
  "SBC_SSBL_Verify demo_ssl None 0 (demo demo_sig 1 1) = Done (SBCOK, Some (ans_lv demo_ans)) (demo demo_sig 1 1)"
proof -
  have "readable_file (demo demo_sig 1 1) FSBL_PATH 0 (demo_fsbl demo_sig)" by (rule demo_readable) (simp_all add: demo_open)
  moreover have "signature_good demo_ssl demo_code (ascii ''cert'') demo_sig"
    by (simp add: demo_signature) (simp add: demo_sig_def)
  moreover have "layout_ok demo_code demo_ans [] (ascii ''cert'') demo_sig demo_trailer" by (rule demo_layout) simp
  ultimately show ?thesis
    using verify_accepts_iff [of "demo demo_sig 1 1" 0 "demo_fsbl demo_sig" demo_ssl None 0 demo_ans] unfolding demo_fsbl_def by auto
qed

text \<open>
  C27: The check of the first stage file does not look at the raw partition and does
  not check the certificate against a root: its result is the same for every block
  device, every bank, every contents of the disks and every certificate
  authority.
\<close>

theorem verify_ignores_root_ca:
  "SBC_SSBL_Verify (ssl\<lparr>ssl_x509_verify := f\<rparr>) h b (m\<lparr>blkdevs := ds\<rparr>) =
   map_exec (\<lambda>m. m\<lparr>blkdevs := ds\<rparr>) id (SBC_SSBL_Verify ssl h' b' m)"
proof -
  let ?u = "\<lambda>m. m\<lparr>blkdevs := ds\<rparr>"
  have op: "fs_open (?u m) = fs_open m" by (simp add: fun_eq_iff fs_open_def)
  have acc: "SBC_IsFlieAccess (?u m) = SBC_IsFlieAccess m" by (simp add: fun_eq_iff SBC_IsFlieAccess_def op)
  have lp: "access_loop (?u m) p i k st = access_loop m p i k st" for p i k st
    by (induction k arbitrary: i st) (simp_all add: acc Let_def)
  have sz: "SBC_GetFileSize (?u m) = SBC_GetFileSize m"
    by (simp add: fun_eq_iff SBC_GetFileSize_def SBC_FindEfiFileSystemProtocol_def lp op info_ok_def file_info_def split: prod.splits sum.splits)
  have rd: "SBC_ReadFile i p lv (?u m) = map_exec ?u id (SBC_ReadFile i p lv m)" for i p lv
    by (simp add: SBC_ReadFile_def op Let_def split: sum.splits node.splits option.splits)
  have fd: "SBC_FindFileBufHndl p n (?u m) = map_exec ?u id (SBC_FindFileBufHndl p n m)" for p n
    by (simp add: SBC_FindFileBufHndl_def lp split: option.splits prod.splits)
  have vf: "verify_image (ssl\<lparr>ssl_x509_verify := f\<rparr>) img len (?u m) = map_exec ?u id (verify_image ssl img len m)" for img len
    by (simp add: verify_image_def Let_def EcGetPublicKeyFromX509_def SBC_HashCompute_def Sha256HashAll_def EcDsaVerify_def stale_bytes_def
        split: option.splits prod.splits)
  note world = readonly_Done [OF ro_FindFileBufHndl] readonly_Done [OF ReadFile_world]
  show ?thesis
    by (auto simp: SBC_SSBL_Verify_def verify_file_def SBC_FindEfiFileSystemProtocol_def sz Let_def split: option.splits prod.splits
        intro!: map_andthen fd rd vf dest!: world)
qed

section \<open>Identifiers\<close>

text \<open>
  C9: The chain of identifiers as the code makes it.  On a machine that has what they
  need, the device identifier is the hash of the serial numbers of board, memory and
  disk and of the first 32 bytes of the first stage file, the firmware identifier the
  hash of the device identifier and the hash of 32 zero bytes, the OS identifier the
  hash of the firmware identifier and the hash of the kernel file.  That is not
  what \<^verbatim>\<open>SBC_AntiTampering.h\<close> says of the device identifier, which is to hash the serial
  numbers and the whole first stage image: the two messages are the same exactly
  when the image has no more than 32 bytes.  And only the OS identifier takes in the
  hash of an image: the second stage image, loaded for the firmware identifier, is
  replaced by the zero bytes before it is hashed.
\<close>

theorem dice_identifiers:
  assumes "dice_ok m i info img kimg"
  shows "SBC_DiceKeysGen (Some i) p 1 b m =
    (let H = sha256; d = H (mbsn info @ mmsn info @ nvmesn info @ take 32 img); f = H (d @ H (zeros 32)); os = H (f @ H kimg) in
     Done (SBCOK, \<lparr>devid = d, fwid = f, osid = os, migid = migid p\<rparr>) m) \<and>
    (mbsn info @ mmsn info @ nvmesn info @ take 32 img = mbsn info @ mmsn info @ nvmesn info @ img \<longleftrightarrow> length img \<le> 32)"
  using DiceKeysGen_sound [OF assms] by (simp add: dice_chain_def hw_bytes_def Let_def take_all_iff)

theorem dice_identifiers_witness:
  "\<exists>d f os. SBC_DiceKeysGen (Some 0) (stale_ident (demo demo_sig 1 1)) 1 1 (demo demo_sig 1 1) =
    Done (SBCOK, \<lparr>devid = d, fwid = f, osid = os, migid = stale_bytes (demo demo_sig 1 1) 32\<rparr>) (demo demo_sig 1 1) \<and>
    d = sha256 (hw_bytes demo_info @ take 32 demo_code) \<and> length os = 32"
  using dice_identifiers [OF demo_dice [of demo_sig 1 1], of "stale_ident (demo demo_sig 1 1)" 1]
  by (simp add: Let_def stale_ident_def hw_bytes_def demo_fsbl_def image_layout_def)

text \<open>
  C37: The firmware identifier says nothing about the firmware: whenever it can be
  made, from whatever image of whatever bank, it is the same function of the device
  identifier alone.
\<close>

theorem fwid_ignores_firmware:
  assumes "SBC_GenFWID h d out n b m = Done (SBCOK, f) m'" "SBC_GenFWID h2 d out2 n2 b2 m2 = Done (SBCOK, f2) m2'" "32 \<le> length d"
  shows "f2 = f"
  using GenFWID_value [OF assms(1,3)] GenFWID_value [OF assms(2,3)] by simp

theorem fwid_ignores_firmware_witness:
  "\<exists>f. SBC_GenFWID (Some 0) (zeros 32) [] 1 1 (demo [] 1 1) = Done (SBCOK, f) (demo [] 1 1) \<and>
    SBC_GenFWID (Some 0) (zeros 32) [] 1 1 (put_blkdev 0 (dev_put (demo_dev 1 1) 0x400300 [9, 9, 9]) (demo [] 1 1))
      = Done (SBCOK, f) (put_blkdev 0 (dev_put (demo_dev 1 1) 0x400300 [9, 9, 9]) (demo [] 1 1))"
proof -
  let ?d = "dev_put (demo_dev 1 1) 0x400300 [9, 9, 9]"
  have "ssbl_image_len ?d (ssbl_startlba 1) = ssbl_image_len (demo_dev 1 1) (ssbl_startlba 1)"
    by (simp add: ssbl_image_len_def ssbl_startlba_1 dev_bytes_put_other)
  then have ok: "ssbl_ok (put_blkdev 0 ?d (demo [] 1 1)) 0 ?d (ssbl_startlba 1)"
    using demo_ssbl [of "[]" 1 1] by (simp add: ssbl_ok_def)
  obtain f2 where f2: "SBC_GenFWID (Some 0) (zeros 32) [] 1 1 (put_blkdev 0 ?d (demo [] 1 1)) = Done (SBCOK, f2) (put_blkdev 0 ?d (demo [] 1 1))"
    using GenFWID_sound [OF ok, of "zeros 32" "[]" 1] by simp
  obtain f where f: "SBC_GenFWID (Some 0) (zeros 32) [] 1 1 (demo [] 1 1) = Done (SBCOK, f) (demo [] 1 1)"
    using GenFWID_sound [OF demo_ssbl [of "[]" 1 1], of "zeros 32" "[]" 1] by simp
  have "f2 = f" by (rule fwid_ignores_firmware [OF f f2]) simp
  with f f2 show ?thesis by blast
qed

text \<open>
  The device identifier depends on the first 32 bytes of the first stage file
  only: two machines with the same serial numbers whose files agree there have the
  same identifier.
\<close>

theorem devid_first_bytes_only:
  assumes "hw_info m = Done info m" "fsbl_ok m info img" "hw_info m2 = Done info m2" "fsbl_ok m2 info img2" "take 32 img2 = take 32 img"
  shows "\<exists>d. SBC_GenDeviceID out m = Done (SBCOK, d) m \<and> SBC_GenDeviceID out m2 = Done (SBCOK, d) m2"
  using GenDeviceID_sound [OF assms(1,2)] GenDeviceID_sound [OF assms(3,4)] assms(5) by simp

theorem devid_first_bytes_only_witness:
  "demo_fsbl demo_forged \<noteq> demo_fsbl demo_sig \<and>
   (\<exists>d. SBC_GenDeviceID [] (demo demo_sig 1 1) = Done (SBCOK, d) (demo demo_sig 1 1) \<and>
      SBC_GenDeviceID [] (demo demo_forged 1 1) = Done (SBCOK, d) (demo demo_forged 1 1))"
proof -
  have "take 32 (demo_fsbl sg) = take 32 demo_code" for sg by (simp add: demo_fsbl_def image_layout_def)
  then have "take 32 (demo_fsbl demo_forged) = take 32 (demo_fsbl demo_sig)" by simp
  moreover have "demo_fsbl demo_forged \<noteq> demo_fsbl demo_sig" using demo_bad_sig(2) by (simp add: demo_fsbl_def image_layout_def)
  moreover have "fsbl_ok (demo demo_sig 1 1) demo_info (demo_fsbl demo_sig)" "fsbl_ok (demo demo_forged 1 1) demo_info (demo_fsbl demo_forged)"
    by (simp_all add: demo_fsbl_ok)
  ultimately show ?thesis using devid_first_bytes_only [OF demo_hw_info _ demo_hw_info] by blast
qed

text \<open>
  C11: The migration key of an update is the hash of the hashes of the serial
  numbers and of the three images of the current bank, the last two of them twice:
  the images of the other bank do not enter.
\<close>

theorem migration_key_value:
  assumes "migration_ok m i dev info cur prev"
  shows "SBC_GenMigrationKey (Some i) cur prev out m =
    (let a = unat (bank_startlba cur) * 512; H = sha256; ssbl = H (bank_image dev (a + SSBLN_OFS)); os = H (bank_image dev (a + OSLN_OFS)) in
     Done (SBCOK, H (H (hw_bytes info) @ H (bank_image dev a) @ ssbl @ os @ ssbl @ os)) m)"
  using GenMigrationKey_value [OF assms] by (simp add: Let_def migration_key_def)

theorem migration_key_value_witness:
  "\<exists>key. SBC_GenMigrationKey (Some 0) 1 2 [] (demo [] 2 1) = Done (SBCOK, key) (demo [] 2 1) \<and> length key = 32"
  using migration_key_value [OF demo_migration [of "[]" 2 1], of "[]"] by (simp add: Let_def)

text \<open>
  The two computations of a bank's position disagree: the second stage image of
  bank two is looked for one megabyte behind that of bank one, inside bank one,
  while the migration key takes banks to be 128 megabytes apart.
\<close>

theorem bank_positions_disagree:
  "unat (ssbl_startlba 2) * 512 = unat (ssbl_startlba 1) * 512 + 0x100000 \<and>
   unat (bank_startlba 2) * 512 = unat (bank_startlba 1) * 512 + 0x8000000 \<and>
   unat (ssbl_startlba 2) < unat (bank_startlba 2)"
  by (simp add: ssbl_startlba_def bank_startlba_def Let_def)

text \<open>
  C22: The serial numbers.  From well-formed SMBIOS records and a controller that answers,
  the three numbers are the string that the last base board record with a number names,
  the string that the last memory device record with a number names, and the serial
  number of the first controller that answers without its padding; a kind of record
  that is not there or names no string gives the empty number.  This needs every
  number that is passed on the way to fit its array of 64 bytes: \<^verbatim>\<open>CopyMem\<close> copies a longer
  one over the end of the array.
\<close>

theorem serial_numbers:
  assumes "smbios m = Some (map smbios_bytes recs)"
    and "list_all (smbios_field_ok SMBIOS_TYPE_BASEBOARD_INFORMATION 7) recs" "list_all (smbios_field_ok SMBIOS_TYPE_MEMORY_DEVICE 24) recs"
    and "nvme_answer sn rest (nvme_identify m)" "pool_ok m 4096"
  shows "hw_info m =
    (let board = smbios_serials SMBIOS_TYPE_BASEBOARD_INFORMATION 7 recs; memory = smbios_serials SMBIOS_TYPE_MEMORY_DEVICE 24 recs in
     if list_all (\<lambda>s. length s \<le> 64) (board @ memory)
     then Done \<lparr>mbsn = last ([] # board), mmsn = last ([] # memory), nvmesn = sn\<rparr> m
     else Faulted OutOfBounds m)"
  using assms by (rule hw_info_tables)

theorem serial_numbers_witness:
  "hw_info ((demo [] 1 1)\<lparr>smbios := Some (map smbios_bytes demo_records)\<rparr>) =
    Done \<lparr>mbsn = ascii ''BOARD7'', mmsn = ascii ''DIMM2'', nvmesn = ascii ''SN0123456789''\<rparr>
      ((demo [] 1 1)\<lparr>smbios := Some (map smbios_bytes demo_records)\<rparr>)"
proof -
  let ?m = "(demo [] 1 1)\<lparr>smbios := Some (map smbios_bytes demo_records)\<rparr>"
  have sn: "length (ascii ''SN0123456789'') = 12" "0 \<notin> set (ascii ''SN0123456789'')" "last (ascii ''SN0123456789'') \<noteq> 32"
    "ascii ''SN0123456789        '' = ascii ''SN0123456789'' @ replicate 8 32" by code_simp+
  then have nv: "nvme_answer (ascii ''SN0123456789'') [] (nvme_identify ?m)"
    by (auto simp: nvme_answer_def demo_def intro!: exI [of _ "zeros 4"])
  have fields: "list_all (smbios_field_ok SMBIOS_TYPE_BASEBOARD_INFORMATION 7) demo_records"
    "list_all (smbios_field_ok SMBIOS_TYPE_MEMORY_DEVICE 24) demo_records" by code_simp+
  have names: "smbios_serials SMBIOS_TYPE_BASEBOARD_INFORMATION 7 demo_records = [ascii ''BOARD7'']"
    "smbios_serials SMBIOS_TYPE_MEMORY_DEVICE 24 demo_records = [ascii ''DIMM1'', ascii ''DIMM2'']" by code_simp+
  have "pool_ok ?m 4096" by (simp add: demo_def)
  from serial_numbers [OF _ fields nv this] show ?thesis by (simp add: names Let_def ascii_def)
qed

text \<open>
  The wrapper of the keyed hash never succeeds: its checks of the arguments are
  the wrong way round, so that whatever it is given it reports an error.
\<close>

theorem hmac_never_succeeds:
  "fst (SBC_HmacCompute ssl handle mackey keysz msg msgl hmacvalue) \<noteq> SBCOK"
  by (rule HmacCompute_never_ok)

end
