(* ===== verification/Sha_Vectors.thy ===== *)
theory Sha_Vectors
  imports Ossl_Sha256
begin

text \<open>
  The constants of SHA-256 against the roots of the primes they come from, and the
  digests of three short messages, computed by the simplifier.
\<close>

unbundle bit_operations_syntax

section \<open>Constants\<close>

text \<open>
  The round constants are the first 32 bits of the fractional parts of the cube
  roots of the first 64 primes, the initial value those of the square roots of the
  first eight.
\<close>

definition frac_root :: "nat \<Rightarrow> nat \<Rightarrow> u32 \<Rightarrow> bool" where
  "frac_root r p w \<longleftrightarrow> (let x = length (filter (\<lambda>i. i ^ r \<le> p) [1, 2, 3, 4, 5, 6]) * 2 ^ 32 + unat w
     in x ^ r \<le> p * 2 ^ (32 * r) \<and> p * 2 ^ (32 * r) < (x + 1) ^ r)"

definition primes64 :: "nat list" where
  "primes64 = [2, 3, 5, 7, 11, 13, 17, 19, 23, 29, 31, 37, 41, 43, 47, 53, 59, 61, 67, 71, 73, 79, 83, 89, 97, 101, 103, 107, 109, 113,
     127, 131, 137, 139, 149, 151, 157, 163, 167, 173, 179, 181, 191, 193, 197, 199, 211, 223, 227, 229, 233, 239, 241, 251, 257, 263,
     269, 271, 277, 281, 283, 293, 307, 311]"

lemma constants_are_roots:
  "list_all2 (frac_root 3) primes64 K256" "list_all2 (frac_root 2) (take 8 primes64) (ctx_h SHA256_Init)"
  by (simp_all add: primes64_def K256_def SHA256_Init_def frac_root_def Let_def)

section \<open>Known digests\<close>

lemma pad_eval:
  "n \<le> 55 \<Longrightarrow> length m = n \<Longrightarrow> sha_pad m = m @ 128 # replicate (55 - n) 0 @ [0, 0, 0, 0, 0, 0, word_of_nat (n div 32), word_of_nat (8 * n)]"
proof -
  assume n: "n \<le> 55" "length m = n"
  then have "n mod 64 = n" "(119 - n) mod 64 = 55 - n" by (simp_all add: mod_if)
  moreover have "to_le 8 (8 * n) = [word_of_nat (8 * n), word_of_nat (n div 32), 0, 0, 0, 0, 0, 0]"
  proof -
    have e: "(8 :: nat) = Suc (Suc (Suc (Suc (Suc (Suc (Suc (Suc 0)))))))" by simp
    have "8 * n div 256 = n div 32" by simp
    moreover have "to_le 6 0 = [0, 0, 0, 0, 0, 0]" by code_simp
    moreover have "n div 32 div 256 = 0" using n by simp
    ultimately show ?thesis using to_le.simps(2) [of 7 "8 * n"] to_le.simps(2) [of 6 "n div 32"] by simp
  qed
  ultimately show ?thesis using n by (simp add: sha_pad_def zeros_def)
qed

lemma digest_00: "sha256 [0x00] = [0x6e, 0x34, 0x0b, 0x9c, 0xff, 0xb3, 0x7a, 0x98, 0x9c, 0xa5, 0x44, 0xe6, 0xbb, 0x78, 0x0a, 0x2c, 0x78, 0x90, 0x1d, 0x3f, 0xb3, 0x37, 0x38, 0x76, 0x85, 0x11, 0xa3, 0x06, 0x17, 0xaf, 0xa0, 0x1d]"
proof -
  have r: "replicate 54 (0 :: byte) = [0, 0, 0, 0, 0, 0, 0, 0, 0, 0, 0, 0, 0, 0, 0, 0, 0, 0, 0, 0, 0, 0, 0, 0, 0, 0, 0, 0, 0, 0, 0, 0, 0, 0, 0, 0, 0, 0, 0, 0, 0, 0, 0, 0, 0, 0, 0, 0, 0, 0, 0, 0, 0, 0]" by (simp add: numeral_eq_Suc)
  have p: "sha_pad [0x00] = [0x00, 0x80, 0x00, 0x00, 0x00, 0x00, 0x00, 0x00, 0x00, 0x00, 0x00, 0x00, 0x00, 0x00, 0x00, 0x00, 0x00, 0x00, 0x00, 0x00, 0x00, 0x00, 0x00, 0x00, 0x00, 0x00, 0x00, 0x00, 0x00, 0x00, 0x00, 0x00, 0x00, 0x00, 0x00, 0x00, 0x00, 0x00, 0x00, 0x00, 0x00, 0x00, 0x00, 0x00, 0x00, 0x00, 0x00, 0x00, 0x00, 0x00, 0x00, 0x00, 0x00, 0x00, 0x00, 0x00, 0x00, 0x00, 0x00, 0x00, 0x00, 0x00, 0x00, 0x08]"
    by (subst pad_eval [of 1]) (simp_all add: r)
  have w: "map (\<lambda>i. HOST_c2l (drop (4 * i) (sha_pad [0x00]))) [0..<16] = [8388608, 0, 0, 0, 0, 0, 0, 0, 0, 0, 0, 0, 0, 0, 0, 8]"
    unfolding p by (simp add: HOST_c2l_def upt_rec)
  have "load_regs (ctx_h SHA256_Init) = (0x6a09e667, 0xbb67ae85, 0x3c6ef372, 0xa54ff53a, 0x510e527f, 0x9b05688c, 0x1f83d9ab, 0x5be0cd19)"
    by (simp add: load_regs_def SHA256_Init_def)
  then show ?thesis
    using sha256_eval [OF _ refl, of "[0x00]"] unfolding w
    by (simp add: sha_round_eval) (simp add: be_words_def add_regs_def SHA256_Init_def to_le_4)
qed

lemma digest_f0: "sha256 [0xf0] = [0xfd, 0xe5, 0x02, 0x85, 0x83, 0x06, 0xc2, 0x35, 0xa3, 0x12, 0x1e, 0x42, 0x32, 0x6b, 0x53, 0x22, 0x8b, 0x7e, 0xf4, 0x69, 0x0e, 0xee, 0xd9, 0x2a, 0x2b, 0x2e, 0xaf, 0xe7, 0x3c, 0x03, 0xa3, 0xef]"
proof -
  have r: "replicate 54 (0 :: byte) = [0, 0, 0, 0, 0, 0, 0, 0, 0, 0, 0, 0, 0, 0, 0, 0, 0, 0, 0, 0, 0, 0, 0, 0, 0, 0, 0, 0, 0, 0, 0, 0, 0, 0, 0, 0, 0, 0, 0, 0, 0, 0, 0, 0, 0, 0, 0, 0, 0, 0, 0, 0, 0, 0]" by (simp add: numeral_eq_Suc)
  have p: "sha_pad [0xf0] = [0xf0, 0x80, 0x00, 0x00, 0x00, 0x00, 0x00, 0x00, 0x00, 0x00, 0x00, 0x00, 0x00, 0x00, 0x00, 0x00, 0x00, 0x00, 0x00, 0x00, 0x00, 0x00, 0x00, 0x00, 0x00, 0x00, 0x00, 0x00, 0x00, 0x00, 0x00, 0x00, 0x00, 0x00, 0x00, 0x00, 0x00, 0x00, 0x00, 0x00, 0x00, 0x00, 0x00, 0x00, 0x00, 0x00, 0x00, 0x00, 0x00, 0x00, 0x00, 0x00, 0x00, 0x00, 0x00, 0x00, 0x00, 0x00, 0x00, 0x00, 0x00, 0x00, 0x00, 0x08]"
    by (subst pad_eval [of 1]) (simp_all add: r)
  have w: "map (\<lambda>i. HOST_c2l (drop (4 * i) (sha_pad [0xf0]))) [0..<16] = [4034920448, 0, 0, 0, 0, 0, 0, 0, 0, 0, 0, 0, 0, 0, 0, 8]"
    unfolding p by (simp add: HOST_c2l_def upt_rec)
  have "load_regs (ctx_h SHA256_Init) = (0x6a09e667, 0xbb67ae85, 0x3c6ef372, 0xa54ff53a, 0x510e527f, 0x9b05688c, 0x1f83d9ab, 0x5be0cd19)"
    by (simp add: load_regs_def SHA256_Init_def)
  then show ?thesis
    using sha256_eval [OF _ refl, of "[0xf0]"] unfolding w
    by (simp add: sha_round_eval) (simp add: be_words_def add_regs_def SHA256_Init_def to_le_4)
qed

lemma digest_22: "sha256 [0xca, 0xf9, 0xe6, 0xa0, 0x25, 0xed, 0x3d, 0x40, 0x90, 0x08, 0x16, 0x7e, 0xbd, 0x07, 0xc5, 0xa8, 0xd5, 0x40, 0xdd, 0x5c, 0x0c, 0xe0] = [0x4c, 0x02, 0x2e, 0x54, 0xa6, 0xb0, 0xc7, 0xe8, 0xc1, 0x27, 0x39, 0xd6, 0x95, 0x28, 0x7d, 0xbe, 0x17, 0x0d, 0x57, 0xcd, 0xe5, 0x85, 0x22, 0x63, 0xee, 0xd8, 0x28, 0x52, 0xe3, 0xbd, 0xbb, 0xa4]"
proof -
  have r: "replicate 33 (0 :: byte) = [0, 0, 0, 0, 0, 0, 0, 0, 0, 0, 0, 0, 0, 0, 0, 0, 0, 0, 0, 0, 0, 0, 0, 0, 0, 0, 0, 0, 0, 0, 0, 0, 0]" by (simp add: numeral_eq_Suc)
  have p: "sha_pad [0xca, 0xf9, 0xe6, 0xa0, 0x25, 0xed, 0x3d, 0x40, 0x90, 0x08, 0x16, 0x7e, 0xbd, 0x07, 0xc5, 0xa8, 0xd5, 0x40, 0xdd, 0x5c, 0x0c, 0xe0] = [0xca, 0xf9, 0xe6, 0xa0, 0x25, 0xed, 0x3d, 0x40, 0x90, 0x08, 0x16, 0x7e, 0xbd, 0x07, 0xc5, 0xa8, 0xd5, 0x40, 0xdd, 0x5c, 0x0c, 0xe0, 0x80, 0x00, 0x00, 0x00, 0x00, 0x00, 0x00, 0x00, 0x00, 0x00, 0x00, 0x00, 0x00, 0x00, 0x00, 0x00, 0x00, 0x00, 0x00, 0x00, 0x00, 0x00, 0x00, 0x00, 0x00, 0x00, 0x00, 0x00, 0x00, 0x00, 0x00, 0x00, 0x00, 0x00, 0x00, 0x00, 0x00, 0x00, 0x00, 0x00, 0x00, 0xb0]"
    by (subst pad_eval [of 22]) (simp_all add: r)
  have w: "map (\<lambda>i. HOST_c2l (drop (4 * i) (sha_pad [0xca, 0xf9, 0xe6, 0xa0, 0x25, 0xed, 0x3d, 0x40, 0x90, 0x08, 0x16, 0x7e, 0xbd, 0x07, 0xc5, 0xa8, 0xd5, 0x40, 0xdd, 0x5c, 0x0c, 0xe0]))) [0..<16] = [3405375136, 636304704, 2416449150, 3171403176, 3577797980, 216039424, 0, 0, 0, 0, 0, 0, 0, 0, 0, 176]"
    unfolding p by (simp add: HOST_c2l_def upt_rec)
  have "load_regs (ctx_h SHA256_Init) = (0x6a09e667, 0xbb67ae85, 0x3c6ef372, 0xa54ff53a, 0x510e527f, 0x9b05688c, 0x1f83d9ab, 0x5be0cd19)"
    by (simp add: load_regs_def SHA256_Init_def)
  then show ?thesis
    using sha256_eval [OF _ refl, of "[0xca, 0xf9, 0xe6, 0xa0, 0x25, 0xed, 0x3d, 0x40, 0x90, 0x08, 0x16, 0x7e, 0xbd, 0x07, 0xc5, 0xa8, 0xd5, 0x40, 0xdd, 0x5c, 0x0c, 0xe0]"] unfolding w
    by (simp add: sha_round_eval) (simp add: be_words_def add_regs_def SHA256_Init_def to_le_4)
qed

end
