(* ===== verification/Sha_Theorems.thy ===== *)
theory Sha_Theorems
  imports Sbc_Example Sha_Vectors
begin

text \<open>
  Properties of hashing: OpenSSL's context computes the digest of the standard
  however the message is cut, and the two forms of its block function agree.  The
  digest is evaluated on the vectors of the package's self test.
\<close>

unbundle bit_operations_syntax

section \<open>Self test\<close>

definition Sha256Vector :: "(string \<times> string \<times> u64) list" where
  "Sha256Vector =
    [(''00'', ''6e340b9cffb37a989ca544e6bb780a2c78901d3fb33738768511a30617afa01d'', 1),
     (''f0'', ''fde502858306c235a3121e42326b53228b7ef4690eeed92a2b2eafe73c03a3ef'', 1),
     (''caf9e6a025ed3d409008167ebd07c5a8d540dd5c0ce0'', ''4c022e54a6b0c7e8c12739d695287dbe170d57cde5852263eed82852e3bdbba4'', 22)]"

text \<open>
  One turn of the loop on the three buffers; what it prints is whether the digest
  is the answer.  The buffers keep what earlier turns left behind.
\<close>

definition hash_turn :: "bytes \<times> bytes \<times> bytes \<Rightarrow> string \<times> string \<times> u64 \<Rightarrow> bool \<times> bytes \<times> bytes \<times> bytes" where
  "hash_turn = (\<lambda>(message, baseanswer, digest) (msg, answer, len).
     let message = overlay 0 (convert_str_to_hex (map of_char msg)) message;
         baseanswer = overlay 0 (convert_str_to_hex (map of_char answer)) baseanswer;
         digest = the (snd (SBC_HashCompute (Some message) len (Some digest)))
     in (take 32 digest = take 32 baseanswer, message, baseanswer, digest))"

fun hash_turns :: "bytes \<times> bytes \<times> bytes \<Rightarrow> (string \<times> string \<times> u64) list \<Rightarrow> bool list" where
  "hash_turns bufs [] = []"
| "hash_turns bufs (v # vs) = (case hash_turn bufs v of (passed, bufs) \<Rightarrow> passed # hash_turns bufs vs)"

definition SBC_HashMain :: "bool list" where
  "SBC_HashMain = hash_turns (zeros 32, zeros 32, zeros 32) Sha256Vector"

section \<open>The digest of any sequence of updates\<close>

text \<open>
  C10: Streaming.  However a message is cut into pieces, and whatever the sizes of
  the pieces below the range of their length argument, initialising the context,
  updating it with the pieces in order and finishing gives the digest that FIPS
  180-4 defines for the whole message: the buffering of partial blocks, the bit
  counter in two words with its carry, the padding over one or two blocks and the
  circular message schedule together compute the padded, block by block function of
  the standard.
\<close>

theorem sha256_streaming:
  assumes "list_all (\<lambda>d. length d < 2 ^ 64) ds"
  shows "fst (SHA256_Final (foldl (\<lambda>c d. SHA256_Update c d (word_of_nat (length d))) SHA256_Init ds)) = Some (sha256 (concat ds))"
  using s256.streaming [OF assms] unfolding update_all_def [abs_def] .

theorem sha256_streaming_witness:
  "fst (SHA256_Final (SHA256_Update (SHA256_Update SHA256_Init [1, 2, 3] 3) (zeros 200) 200)) = Some (sha256 ([1, 2, 3] @ zeros 200))"
  using sha256_streaming [of "[[1, 2, 3], zeros 200]"] by simp

text \<open>
  C12: The unrolled block function, with its registers renamed from round to round
  instead of moved, and the small one with its two loops compute the same context
  from every context and every number of blocks.
\<close>

theorem block_functions_agree: "sha256_block_data_order_c ctx data n = sha256_block_data_order ctx data n"
  by (rule unrolled_agrees)

section \<open>The self test passes\<close>

lemma text_bytes:
  "convert_str_to_hex (map of_char ''00'') = [0]" "convert_str_to_hex (map of_char ''f0'') = [0xf0]"
  "convert_str_to_hex (map of_char ''caf9e6a025ed3d409008167ebd07c5a8d540dd5c0ce0'')
     = [0xca, 0xf9, 0xe6, 0xa0, 0x25, 0xed, 0x3d, 0x40, 0x90, 0x08, 0x16, 0x7e, 0xbd, 0x07, 0xc5, 0xa8, 0xd5, 0x40, 0xdd, 0x5c, 0x0c, 0xe0]"
  by code_simp+

lemma answer_bytes:
  "convert_str_to_hex (map of_char ''6e340b9cffb37a989ca544e6bb780a2c78901d3fb33738768511a30617afa01d'') = [0x6e, 0x34, 0x0b, 0x9c, 0xff, 0xb3, 0x7a, 0x98, 0x9c, 0xa5, 0x44, 0xe6, 0xbb, 0x78, 0x0a, 0x2c, 0x78, 0x90, 0x1d, 0x3f, 0xb3, 0x37, 0x38, 0x76, 0x85, 0x11, 0xa3, 0x06, 0x17, 0xaf, 0xa0, 0x1d]"
  "convert_str_to_hex (map of_char ''fde502858306c235a3121e42326b53228b7ef4690eeed92a2b2eafe73c03a3ef'') = [0xfd, 0xe5, 0x02, 0x85, 0x83, 0x06, 0xc2, 0x35, 0xa3, 0x12, 0x1e, 0x42, 0x32, 0x6b, 0x53, 0x22, 0x8b, 0x7e, 0xf4, 0x69, 0x0e, 0xee, 0xd9, 0x2a, 0x2b, 0x2e, 0xaf, 0xe7, 0x3c, 0x03, 0xa3, 0xef]"
  "convert_str_to_hex (map of_char ''4c022e54a6b0c7e8c12739d695287dbe170d57cde5852263eed82852e3bdbba4'') = [0x4c, 0x02, 0x2e, 0x54, 0xa6, 0xb0, 0xc7, 0xe8, 0xc1, 0x27, 0x39, 0xd6, 0x95, 0x28, 0x7d, 0xbe, 0x17, 0x0d, 0x57, 0xcd, 0xe5, 0x85, 0x22, 0x63, 0xee, 0xd8, 0x28, 0x52, 0xe3, 0xbd, 0xbb, 0xa4]"
  by code_simp+

text \<open>
  The self test of the hash passes: for each of the three test vectors the
  digest that is computed is the answer the vector gives.
\<close>

lemma hash_self_test: "SBC_HashMain = [True, True, True]"
  unfolding SBC_HashMain_def Sha256Vector_def hash_turns.simps hash_turn_def Let_def prod.case text_bytes answer_bytes
  by (simp add: overlay_def digest_00 digest_f0 digest_22 word_less_nat_alt)

end
