(* ===== verification/Boot_Theorems.thy ===== *)
theory Boot_Theorems
  imports Sbc_Example
begin

text \<open>
  What a run of the second stage does: nothing without a signed image, and in each
  boot mode the steps of the mode machine, across restarts.
\<close>

section \<open>Nothing happens without a signed image\<close>

text \<open>
  C1: A run of the second stage that changes anything, starts an image or writes a
  sector, has found a raw partition and, at the path of the first stage, a file
  that is a signed image: laid out as its trailer says, with a signature of its code
  that is good under the key of its certificate.
\<close>

theorem only_signed_images_boot:
  assumes "final_world (UefiMain ssl m) \<noteq> m"
    and "\<And>v c. first_file m FSBL_PATH v (RegFile c) \<Longrightarrow> length c < 2 ^ 64"
  shows "\<exists>v code ans fw cert sg trailer i hdr.
    first_file m FSBL_PATH v (RegFile (image_layout code ans fw cert sg trailer)) \<and>
    layout_ok code ans fw cert sg trailer \<and> signature_good ssl code cert sg \<and>
    SBC_BlkIoHandleInit zero_hdr m = Done (SBCOK, Some i, hdr) m \<and> magicid hdr = SBC_RAWPRT_MAGIC_ID"
proof -
  obtain i hdr ans ident where c: "checks_pass ssl m i hdr ans ident" using UefiMain_unchecked [of ssl m] assms(1) by blast
  then have found: "SBC_BlkIoHandleInit zero_hdr m = Done (SBCOK, Some i, hdr) m"
    and ver: "SBC_SSBL_Verify ssl (Some i) (ucast (current_bank hdr)) m = Done (SBCOK, Some ans) m"
    by (simp_all add: checks_pass_def)
  have "magicid hdr = SBC_RAWPRT_MAGIC_ID"
    using BlkIo_scan_result [OF found [unfolded SBC_BlkIoHandleInit_def]] by auto
  moreover have "signed_at ssl m FSBL_PATH"
    using ver [unfolded SBC_SSBL_Verify_def] assms(2) by (rule verified_signed_at)
  ultimately show ?thesis using found unfolding signed_at_def by blast
qed

lemma demo_normal_changes: "final_world (UefiMain demo_ssl (demo demo_sig 1 1)) \<noteq> demo demo_sig 1 1"
proof -
  let ?m = "demo demo_sig 1 1"
  let ?m1 = "put_blkdev 0 (dev_put (demo_dev 1 1) 0 (hdr_sector (with_modes 1 1 (dev_hdr (demo_dev 1 1))))) ?m"
  have "UefiMain demo_ssl ?m = Done EFI_SUCCESS (grub_loop 0 (length (volumes ?m1)) ?m1)"
    using normal_run [OF demo_bootable, of 1 1] by (simp add: Let_def demo_hdr_def)
  moreover have "started (grub_loop 0 (length (volumes ?m1)) ?m1) = [GRUB_PATH]"
    using grub_loop_result [of 0 "length (volumes ?m1)" ?m1] by (simp add: demo_grub_loads)
  ultimately have "started (final_world (UefiMain demo_ssl ?m)) = [GRUB_PATH]" by simp
  then show ?thesis by auto
qed

theorem only_signed_images_boot_witness:
  "\<exists>v code ans fw cert sg trailer i hdr.
    first_file (demo demo_sig 1 1) FSBL_PATH v (RegFile (image_layout code ans fw cert sg trailer)) \<and>
    layout_ok code ans fw cert sg trailer \<and> signature_good demo_ssl code cert sg \<and>
    SBC_BlkIoHandleInit zero_hdr (demo demo_sig 1 1) = Done (SBCOK, Some i, hdr) (demo demo_sig 1 1) \<and>
    magicid hdr = SBC_RAWPRT_MAGIC_ID"
proof -
  have "length c < 2 ^ 64" if "first_file (demo demo_sig 1 1) FSBL_PATH v (RegFile c)" for v c
  proof -
    have "v = 0" using that by (auto simp: first_file_def fs_open_def split: if_splits)
    then have "c = demo_fsbl demo_sig" using that by (simp add: first_file_def demo_open)
    then show ?thesis by simp
  qed
  then show ?thesis using only_signed_images_boot [OF demo_normal_changes] by blast
qed

text \<open>
  C19: On a machine whose first stage image is laid out well but carries a bad
  signature, the second stage powers off and leaves every device, file and image as
  it was.
\<close>

theorem tampered_image_powers_off:
  assumes "raw_prt_at m i dev" "layout_ok code ans fw cert sg trailer" "\<not> signature_good ssl code cert sg"
    "readable_file m FSBL_PATH v (image_layout code ans fw cert sg trailer)"
  shows "UefiMain ssl m = Halted EfiResetShutdown m"
  using raw_prt_found [OF assms(1)] SSBL_Verify_file [OF assms(4)] verify_image_layout [OF assms(2)] assms(3)
  by (simp add: UefiMain_def andthen_Done Let_def SBC_ShutdownSystem_def)

theorem tampered_image_powers_off_witness:
  "UefiMain demo_ssl (demo demo_forged 1 1) = Halted EfiResetShutdown (demo demo_forged 1 1)"
proof -
  show ?thesis
    using demo_bad_sig(1) tampered_image_powers_off [OF demo_raw_prt demo_layout [of demo_forged], of demo_ssl demo_forged 1 1 0]
      demo_readable [of demo_forged 1 1 FSBL_PATH "demo_fsbl demo_forged"]
    by (simp add: demo_open demo_fsbl_def [symmetric])
qed

section \<open>Boot modes\<close>

text \<open>
  C2: The boot mode check implements the table of modes: for every boot mode, key
  mode, status and previous bank, on a device whose header and settings can be read
  and written, it ends as the specification says (goes on with that status,
  restarts, or powers off) and the header on the device then carries the modes the
  specification names and is otherwise unchanged.
\<close>

theorem secure_boot_check_refines:
  assumes "settings_ok m i dev" "header_ok m i dev" "blkhnd bp = Some i" "hdr_wf (rawprt bp)"
    and "gcm_correct ssl" "length (osid (keyinfo bp)) = 32" "length (migid (keyinfo bp)) = 32"
    and "lv_value (baseansr bp) = Some d" "length d = unat (lv_length (baseansr bp))"
      "unat (lv_length (baseansr bp)) \<le> BASE_ANS_MAX_LEN"
    and "\<forall>b. rng m (rng_calls m) 12 = Some b \<longrightarrow> length b = 12"
  shows "shows_verdict i (rawprt bp) (dev_hdr dev)
    (mode_spec (ucast (bm bp)) (ucast (km bp)) (bootst bp) (pvs_sw_bnk bp \<noteq> 0)) (SBC_SecureBootCheck ssl bp m)"
  by (rule SecureBootCheck_implements [OF assms])

theorem secure_boot_check_refines_witness:
  "shows_verdict 0 (demo_hdr 2 1) (demo_hdr 2 1) (Restart (Some (BOOT_MODE_RECOVERY, KEY_MODE_NORMAL)))
     (SBC_SecureBootCheck demo_ssl (demo_proc 2 1 SB_PROC_ST_NRMA) (demo [] 2 1))"
  using secure_boot_check_refines [of "demo [] 2 1" 0 "demo_dev 2 1" "demo_proc 2 1 SB_PROC_ST_NRMA" demo_ssl demo_ans]
  by (simp add: demo_proc_def mode_spec_def header_ok_def demo_servable)

text \<open>
  C17: A mode change is permanent and touches nothing else: after it the search finds
  the same device with the new modes and every other field of the header as before,
  and no byte behind the first block has changed.
\<close>

theorem mode_change_persists:
  assumes "raw_prt_at m i dev" "blkhnd bp = Some i" "rawprt bp = dev_hdr dev"
  shows "\<exists>bp' m' dev'. SBC_BootKeyModeChange b k (Some bp) m = Done (SBCOK, bp') m' \<and>
    rawprt bp' = with_modes b k (dev_hdr dev) \<and> blkdev m' i = Some dev' \<and>
    SBC_BlkIoHandleInit hdr m' = Done (SBCOK, Some i, with_modes b k (dev_hdr dev)) m' \<and>
    (\<forall>a n. 512 \<le> a \<longrightarrow> dev_bytes dev' a n = dev_bytes dev a n) \<and> (\<forall>j. j \<noteq> i \<longrightarrow> blkdev m' j = blkdev m j)"
proof -
  let ?h = "with_modes b k (dev_hdr dev)"
  let ?dev = "dev_put dev 0 (hdr_sector ?h)"
  let ?m = "put_blkdev i ?dev m"
  have dev: "blkdev m i = Some dev" "header_ok m i dev" using assms(1) by (simp_all add: raw_prt_at_def header_ok_def)
  have "raw_prt_at ?m i ?dev" using assms(1) by (auto simp: raw_prt_at_def is_raw_prt_def)
  then have "SBC_BlkIoHandleInit hdr ?m = Done (SBCOK, Some i, ?h) ?m" by (simp add: raw_prt_found)
  moreover have "SBC_BootKeyModeChange b k (Some bp) m = Done (SBCOK, bp\<lparr>rawprt := ?h\<rparr>) ?m"
    using ModeChange_sound [OF dev(2) assms(2)] assms(3) by simp
  ultimately show ?thesis using dev by (auto simp: dev_bytes_put_other)
qed

theorem mode_change_persists_witness:
  "\<exists>bp' m'. SBC_BootKeyModeChange 3 2 (Some (demo_proc 1 1 SB_PROC_ST_NRMA)) (demo [] 1 1) = Done (SBCOK, bp') m' \<and>
    SBC_BlkIoHandleInit zero_hdr m' = Done (SBCOK, Some 0, demo_hdr 3 2) m'"
proof -
  have "with_modes 3 2 (demo_hdr 1 1) = demo_hdr 3 2" by (simp add: with_modes_def demo_hdr_def)
  then show ?thesis
    using mode_change_persists [OF demo_raw_prt, of "demo_proc 1 1 SB_PROC_ST_NRMA" 1 1 3 2 "[]" zero_hdr]
    by (auto simp: demo_proc_def)
qed

section \<open>Runs\<close>

text \<open>
  C3: An update is carried through.  On a machine whose checks pass, with a bank
  marked current and the header in update mode, the first run restarts, the second
  run restarts, and the third ends by starting GRUB from a volume that has it; then
  the header is back in normal mode with all other fields as they were, and the
  base answer of the image validates under the OS identifier.  What memory holds
  after each restart does not matter.
\<close>

theorem update_carried_through:
  assumes "bootable ssl m i dev info ans img kimg" "ans \<noteq> []" "bootmode (dev_hdr dev) = 2" "current_bank (dev_hdr dev) \<in> {1, 2}"
    and "migration_ok m i dev info (current_bank (dev_hdr dev)) (FindPreviouslyBank (current_bank (dev_hdr dev)))"
    and "v < length (volumes m)" "can_load m GRUB_PATH v"
  shows "\<exists>m1 m2 m3 dev3. UefiMain ssl m = Halted EfiResetCold m1 \<and>
    UefiMain ssl (power_cycle s1 m1) = Halted EfiResetCold m2 \<and>
    UefiMain ssl (power_cycle s2 m2) = Done EFI_SUCCESS m3 \<and> started m3 = started m @ [GRUB_PATH] \<and>
    blkdev m3 i = Some dev3 \<and> dev_hdr dev3 = with_modes BOOT_MODE_NORMAL KEY_MODE_NORMAL (dev_hdr dev) \<and>
    SBC_BaseAnswerValidate ssl (Some i) (Some ans) (word_of_nat (length ans)) (osid (dice_chain info img kimg [])) m3 = Done SBCOK m3"
proof -
  obtain m1 m2 m3 dev3 where r: "UefiMain ssl m = Halted EfiResetCold m1" "UefiMain ssl (power_cycle s1 m1) = Halted EfiResetCold m2"
    "UefiMain ssl (power_cycle s2 m2) = Done EFI_SUCCESS m3" "settings_ok m3 i dev3"
    "dev_hdr dev3 = with_modes 1 1 (dev_hdr dev)" "sealed ssl (osid (dice_chain info img kimg [])) ans dev3"
    and "started m3 = started m @ [GRUB_PATH] \<or> started m3 = started m \<and> (\<forall>v < length (volumes m). \<not> can_load m GRUB_PATH v)"
    using update_cycle [OF assms(1,3-5), of s1 s2] by blast
  then have "started m3 = started m @ [GRUB_PATH]" using assms(6,7) by blast
  moreover have "SBC_BaseAnswerValidate ssl (Some i) (Some ans) (word_of_nat (length ans)) (osid (dice_chain info img kimg [])) m3 = Done SBCOK m3"
    using r(4,6) assms(2) by (intro sealed_validates) simp_all
  ultimately show ?thesis using r settings_okD(1) [OF r(4)] by blast
qed

theorem update_carried_through_witness:
  "\<exists>m1 m2 m3. UefiMain demo_ssl (demo demo_sig 2 1) = Halted EfiResetCold m1 \<and>
    UefiMain demo_ssl (power_cycle (\<lambda>_. 0xFF) m1) = Halted EfiResetCold m2 \<and>
    UefiMain demo_ssl (power_cycle (\<lambda>_. 0x5A) m2) = Done EFI_SUCCESS m3 \<and> started m3 = [GRUB_PATH]"
proof -
  have hdr: "bootmode (dev_hdr (demo_dev 2 1)) = 2" by (simp add: demo_hdr_def)
  have bank: "current_bank (dev_hdr (demo_dev 2 1)) = 1" by simp
  have mig: "migration_ok (demo demo_sig 2 1) 0 (demo_dev 2 1) demo_info (current_bank (dev_hdr (demo_dev 2 1)))
      (FindPreviouslyBank (current_bank (dev_hdr (demo_dev 2 1))))"
    unfolding bank by (simp add: FindPreviouslyBank_def demo_migration)
  have "demo_ans \<noteq> []" "0 < length (volumes (demo demo_sig 2 1))" "can_load (demo demo_sig 2 1) GRUB_PATH 0"
    by (simp_all add: demo_ans_def ascii_def demo_grub_loads)
  from update_carried_through [OF demo_bootable this(1) hdr _ mig this(2,3), of "\<lambda>_. 0xFF" "\<lambda>_. 0x5A"] bank show ?thesis
    by auto
qed

text \<open>
  C20: In normal mode the run returns to the firmware with success, having written
  normal modes into the header and started GRUB exactly when some volume can load
  it.
\<close>

theorem normal_boot:
  assumes "bootable ssl m i dev info ans img kimg" "bootmode (dev_hdr dev) = 1"
  shows "\<exists>m' dev'. UefiMain ssl m = Done EFI_SUCCESS m' \<and> blkdev m' i = Some dev' \<and>
    dev_hdr dev' = with_modes BOOT_MODE_NORMAL KEY_MODE_NORMAL (dev_hdr dev) \<and>
    started m' = started m @ (if \<exists>v < length (volumes m). can_load m GRUB_PATH v then [GRUB_PATH] else [])"
proof -
  have dev: "blkdev m i = Some dev" using bootable_facts(1) [OF assms(1)] by (rule settings_okD)
  let ?m1 = "put_blkdev i (dev_put dev 0 (hdr_sector (with_modes 1 1 (dev_hdr dev)))) m"
  have "UefiMain ssl m = Done EFI_SUCCESS (grub_loop 0 (length (volumes m)) ?m1)"
    using normal_run [OF assms] by (simp add: Let_def)
  then show ?thesis using grub_loop_result [of 0 "length (volumes m)" ?m1] dev by auto
qed

theorem normal_boot_witness:
  "\<exists>m'. UefiMain demo_ssl (demo demo_sig 1 2) = Done EFI_SUCCESS m' \<and> started m' = [GRUB_PATH]"
proof -
  have "bootmode (dev_hdr (demo_dev 1 2)) = 1" by (simp add: demo_hdr_def)
  moreover have "can_load (demo demo_sig 1 2) GRUB_PATH 0" by (rule demo_grub_loads)
  ultimately show ?thesis using normal_boot [OF demo_bootable, of 1 2] by auto
qed

text \<open>
  C31: In recovery mode with a bank whose number is neither one nor two, the run
  powers off and changes nothing, so every later run does the same.
\<close>

theorem recovery_without_bank:
  assumes "bootable ssl m i dev info ans img kimg" "bootmode (dev_hdr dev) = 3" "current_bank (dev_hdr dev) \<notin> {1, 2}"
  shows "UefiMain ssl m = Halted EfiResetShutdown m"
  using UefiMain_bootable [OF assms(1)] assms(2,3)
  by (auto simp: boot_mode_switch_def andthen_def SBC_SecureBootCheck_def boot_context_def FindPreviouslyBank_def
      SBC_RecoveryBootProcessing_def check_prev_fw_def SBC_ShutdownSystem_def Let_def)

theorem recovery_without_bank_witness:
  "UefiMain demo_ssl (put_blkdev 0 (bankless_dev 3) (demo demo_sig 3 1))
    = Halted EfiResetShutdown (put_blkdev 0 (bankless_dev 3) (demo demo_sig 3 1))"
proof (rule recovery_without_bank [OF bankless_bootable])
  show "bootmode (dev_hdr (bankless_dev 3)) = 3" by (simp add: demo_hdr_def)
  show "current_bank (dev_hdr (bankless_dev 3)) \<notin> {1, 2}" unfolding bankless_bank by simp
qed

text \<open>
  C33: In factory mode the run dereferences a null pointer: the mode change is called
  without a context.
\<close>

theorem factory_mode_faults:
  assumes "bootable ssl m i dev info ans img kimg" "bootmode (dev_hdr dev) = 4"
  shows "UefiMain ssl m = Faulted NullDeref m"
  using UefiMain_bootable [OF assms(1)] assms(2)
  by (simp add: boot_mode_switch_def andthen_def SBC_BootKeyModeChange_def)

theorem factory_mode_faults_witness:
  "UefiMain demo_ssl (demo demo_sig 4 1) = Faulted NullDeref (demo demo_sig 4 1)"
proof -
  have "bootmode (dev_hdr (demo_dev 4 1)) = 4" by (simp add: demo_hdr_def)
  then show ?thesis by (rule factory_mode_faults [OF demo_bootable])
qed

text \<open>
  C40: A boot mode the code does not know starts GRUB like normal mode does, without
  the mode change and without the boot mode check, though the code's message says
  that it should abort.
\<close>

theorem unknown_mode_boots:
  assumes "bootable ssl m i dev info ans img kimg" "bootmode (dev_hdr dev) \<notin> {0, 1, 2, 3, 4}"
  shows "UefiMain ssl m = Done EFI_SUCCESS (grub_loop 0 (length (volumes m)) m)"
proof -
  have "(ucast (bootmode (dev_hdr dev)) :: u32) \<notin> {1, 2, 3, 4}"
  proof -
    have "b \<in> {1, 2, 3, 4}" if "(ucast b :: u32) \<in> {1, 2, 3, 4}" for b :: u16
      using that unat_bound [of b] by (auto simp: word_unat_eq_iff unsigned_ucast_eq take_bit_nat_eq_self)
    then show ?thesis using assms(2) by blast
  qed
  then show ?thesis
    using UefiMain_bootable [OF assms(1)] assms(2)
    by (auto simp: boot_mode_switch_def andthen_Done SBC_GRUB_LoadAndStart_def)
qed

theorem unknown_mode_boots_witness:
  "\<exists>m'. UefiMain demo_ssl (demo demo_sig 9 1) = Done EFI_SUCCESS m' \<and> started m' = [GRUB_PATH]"
proof -
  have "bootmode (dev_hdr (demo_dev 9 1)) \<notin> {0, 1, 2, 3, 4}" by (simp add: demo_hdr_def)
  moreover have "can_load (demo demo_sig 9 1) GRUB_PATH 0" by (rule demo_grub_loads)
  ultimately show ?thesis
    using unknown_mode_boots [OF demo_bootable, of 9 1] grub_loop_result [of 0 1 "demo demo_sig 9 1"] by auto
qed

text \<open>
  C32: In update mode the header moves on to recovery mode and the machine restarts
  whatever became of the base answer: a failed encryption or a failed write of it
  is not noticed.
\<close>

theorem failed_reseal_goes_unnoticed:
  assumes "SBC_BaseAnswerEncryptStore ssl (Some i) (lv_value (baseansr bp)) (lv_length (baseansr bp)) (migid (keyinfo bp)) m = Done st m1"
    and "header_ok m1 i dev" "blkhnd bp = Some i" "hdr_wf (rawprt bp)" "bm bp = 2" "km bp = 1" "bootst bp = SB_PROC_ST_NRMA"
  shows "\<exists>m'. SBC_SecureBootCheck ssl bp m = Halted EfiResetCold m' \<and>
    map_option dev_hdr (blkdev m' i) = Some (with_modes BOOT_MODE_RECOVERY KEY_MODE_NORMAL (rawprt bp))"
  using assms(1,3-7) ModeChange_sound [OF assms(2-4)] assms(2)
  by (auto simp: SBC_SecureBootCheck_def SBC_UpdateBootPorcsesing_def update_behavior_for_km_def SBC_ResetScenario_def
      update_reset_check_and_behavior_def SBC_RebootSystem_def andthen_def Let_def header_ok_def)

lemma bad_settings_store:
  defines "m \<equiv> (demo [] 2 1)\<lparr>blkdevs := [Some (bad_settings 2)]\<rparr>"
  shows "SBC_BaseAnswerEncryptStore demo_ssl (Some 0) (Some demo_ans) 16 (replicate 32 4) m = Done SBCIO (ans_machine m)"
proof -
  have bad: "\<not> sectors_ok (bad_settings 2) 0xC0001 33"
    by (simp add: sectors_ok_def list_all_iff bad_settings_def)
  have f: "BlockSize (bad_settings 2) = 512" "LastBlock (bad_settings 2) = 0x1FFFFF" "MaxTransferBlocks (bad_settings 2) = Some 1024"
    "Mdts (bad_settings 2) = 0"
    by (simp_all add: bad_settings_def demo_dev_def dev_put_def demo_base_def MaxTransferBlocks_def)
  have "NvmeRead (bad_settings 2) 0xC0001 33 = Some (EFI_DEVICE_ERROR, [])"
    using bad f unfolding NvmeRead_def
    by (simp, subst read_blocks.simps) (simp add: ReadSectors_def NvmExpressPassThru_def command_blocks_def EFI_ERROR_def)
  then have "NvmeBlockIoReadBlocks (bad_settings 2) (MediaId (bad_settings 2)) 0xC0001 16896 True = Some (EFI_DEVICE_ERROR, [])"
    using f by (simp add: NvmeBlockIoReadBlocks_def Let_def)
  moreover have "blkdev (ans_machine m) 0 = Some (bad_settings 2)" by (simp add: m_def ans_machine_def blkdev_def)
  ultimately have rd: "SBC_RawPrtReadBlock (Some 0) (Some (zeros 16896)) (Some 16896) sys_conf_lba (ans_machine m)
      = Done (SBCIO, zeros 16896) (ans_machine m)"
    by (simp add: SBC_RawPrtReadBlock_def sys_conf_lba_eq overlay_def EFI_ERROR_def Let_def)
  have "baseanswer_store (Some 0) (Some a) (ans_machine m) = Done SBCIO (ans_machine m)" for a
    using rd \<open>blkdev (ans_machine m) 0 = _\<close> f(1)
    by (simp add: baseanswer_store_def setting_len andthen_Done Let_def) (simp add: m_def ans_machine_def demo_def)
  moreover have "rng m (rng_calls m) 12 = Some (replicate 12 7)" by (simp add: m_def)
  ultimately show ?thesis
    by (simp add: SBC_BaseAnswerEncryptStore_def RandomBytes_def andthen_Done Let_def SBC_AESEncrypt_def SBC_AESGcmEncrypt_def
        AeadAesGcmEncrypt_def gcm_args_ok_def ans_machine_def [symmetric]) (simp add: demo_ssl_def)
qed

theorem failed_reseal_goes_unnoticed_witness:
  "\<exists>m'. SBC_SecureBootCheck demo_ssl (demo_proc 2 1 SB_PROC_ST_NRMA) ((demo [] 2 1)\<lparr>blkdevs := [Some (bad_settings 2)]\<rparr>)
      = Halted EfiResetCold m' \<and>
    map_option dev_hdr (blkdev m' 0) = Some (demo_hdr 3 1)"
proof -
  let ?m = "(demo [] 2 1)\<lparr>blkdevs := [Some (bad_settings 2)]\<rparr>"
  have "servable (bad_settings 2) 0 512"
    by (simp add: servable_def bad_settings_def demo_dev_def dev_put_def demo_base_def sectors_ok_def nvme_ok_def in_media_def MaxTransferBlocks_def)
  then have "header_ok (ans_machine ?m) 0 (bad_settings 2)" by (simp add: header_ok_def blkdev_def ans_machine_def)
  moreover have "with_modes 3 1 (demo_hdr 2 1) = demo_hdr 3 1" by (simp add: with_modes_def demo_hdr_def)
  ultimately show ?thesis
    using failed_reseal_goes_unnoticed [of demo_ssl 0 "demo_proc 2 1 SB_PROC_ST_NRMA" ?m SBCIO "ans_machine ?m" "bad_settings 2"] bad_settings_store
    by (simp add: demo_proc_def)
qed

end
