(* ===== verification/Fsbl_Theorems.thy ===== *)
theory Fsbl_Theorems
  imports Sbc_Example
begin

text \<open>
  What the first stage does, alone and with the second stage behind it, and what
  its file writes leave.
\<close>

section \<open>Both stages\<close>

text \<open>
  C5: When the chain of both stages starts GRUB, the files the two stages check,
  each at its own path, are both signed images: laid out as their trailers say, with
  a good signature of their code.
\<close>

theorem chain_needs_both_signatures:
  assumes "GRUB_PATH \<in> set (started (final_world (boot_chain ssl m)))" "GRUB_PATH \<notin> set (started m)"
    and short: "\<And>p v c. first_file m p v (RegFile c) \<Longrightarrow> length c < 2 ^ 64"
  shows "signed_at ssl m FSBL_SELF_PATH \<and> signed_at ssl m FSBL_PATH"
proof -
  have "started (final_world (FSBL_UefiMain ssl (UefiMain ssl) m)) \<noteq> started m"
    using assms(1,2) by (auto simp: boot_chain_def)
  then obtain ans m2 where self: "verify_file ssl FSBL_SELF_PATH m = Done (SBCOK, Some ans) m" and over: "handed_over m m2"
    and fin: "final_world (boot_chain ssl m) = final_world (UefiMain ssl m2)"
    unfolding boot_chain_def by (rule FSBL_hands_over)
  have "GRUB_PATH \<notin> set (started m2)"
    using over assms(2) by (auto simp: handed_over_def only_file_def)
  then have "final_world (UefiMain ssl m2) \<noteq> m2" using assms(1) fin by auto
  then obtain i hdr a ident where "checks_pass ssl m2 i hdr a ident" using UefiMain_unchecked by blast
  then have ver: "verify_file ssl FSBL_PATH m2 = Done (SBCOK, Some a) m2" by (simp add: checks_pass_def SBC_SSBL_Verify_def)
  have fs: "first_file m2 FSBL_PATH v n = first_file m FSBL_PATH v n" for v n
    by (rule handed_over_first_file [OF over]) simp
  have "signed_at ssl m2 FSBL_PATH" using ver by (rule verified_signed_at) (use short fs in auto)
  moreover have "signed_at ssl m FSBL_SELF_PATH" using self short by (rule verified_signed_at)
  ultimately show ?thesis by (simp add: signed_at_def fs)
qed

theorem chain_needs_both_signatures_witness:
  "signed_at demo_ssl (demo demo_sig 1 1) FSBL_SELF_PATH \<and> signed_at demo_ssl (demo demo_sig 1 1) FSBL_PATH"
proof -
  have "GRUB_PATH \<in> set (started (final_world (boot_chain demo_ssl (demo demo_sig 1 1))))" using demo_chain by auto
  then show ?thesis using chain_needs_both_signatures demo_short by simp
qed

text \<open>
  C6: On a machine that is set up for both stages, a power-on in normal mode ends
  with GRUB running: the first stage starts the second, the second starts GRUB.
\<close>

theorem chain_boots:
  assumes "bootable ssl m i dev info ans img kimg" "signed_file ssl m FSBL_SELF_PATH ans'"
    and "bootmode (dev_hdr dev) = 1" "bank_ready m i dev" "v < length (volumes m)" "can_load m GRUB_PATH v"
  shows "\<exists>m'. boot_chain ssl m = Done EFI_SUCCESS m' \<and> started m' = started m @ [SSBL_PATH, GRUB_PATH]"
proof -
  obtain m3 where m3: "boot_chain ssl m = Done EFI_SUCCESS (grub_loop 0 (length (volumes m)) m3)"
    "started m3 = started m @ [SSBL_PATH]" "can_load m3 GRUB_PATH v = can_load m GRUB_PATH v"
    using chain_run [OF assms(1-4)] by blast
  then show ?thesis using assms(5,6) grub_loop_result [of 0 "length (volumes m)" m3] by auto
qed

theorem chain_boots_witness:
  "\<exists>m'. boot_chain demo_ssl (demo demo_sig 1 1) = Done EFI_SUCCESS m' \<and> started m' = [SSBL_PATH, GRUB_PATH]"
  using chain_boots [OF demo_bootable demo_self_signed, of 1 1 0] demo_bank_ready [of 1 1] demo_grub_loads [of demo_sig 1 1]
  by (simp add: demo_hdr_def)

section \<open>What the first stage runs\<close>

text \<open>
  C24: In normal and update mode the image of the current bank goes, whatever its
  bytes are, into \<^verbatim>\<open>EFI/boot/SSBL.efi\<close>, but what is started is \<^verbatim>\<open>EFI/rocky/SSBL.efi\<close>, a file
  the run has neither written nor checked.
\<close>

theorem bank_image_not_run:
  assumes "fsbl_checks ssl m i dev" "bootmode (dev_hdr dev) \<in> {1, 2}" "bank_ready m i dev"
  shows "\<exists>m2. FSBL_UefiMain ssl ssbl m = andthen ssbl (\<lambda>_. retn EFI_SUCCESS) m2 \<and> started m2 = started m @ [SSBL_PATH] \<and>
    (\<exists>c. file_of m2 (0, SSBL_BOOT_PATH) = Some c \<and> take (length (ssbl_image dev (bank_lba dev))) c = ssbl_image dev (bank_lba dev)) \<and>
    (\<forall>v. fs_open m2 v SSBL_PATH = fs_open m v SSBL_PATH)"
proof -
  let ?img = "ssbl_image dev (bank_lba dev)"
  define m1 where "m1 = write_file (0, SSBL_BOOT_PATH) ?img m"
  define m2 where "m2 = m1\<lparr>started := started m @ [SSBL_PATH]\<rparr>"
  have ready: "writable m (0, SSBL_BOOT_PATH) (length ?img)" using assms(3) by (simp add: bank_ready_def)
  have "FSBL_UefiMain ssl ssbl m = andthen ssbl (\<lambda>_. retn EFI_SUCCESS) m2"
    using assms FSBL_bank_run [OF assms(1,2) _ _ refl] unfolding m2_def m1_def bank_ready_def by auto
  moreover have "file_of m2 (0, SSBL_BOOT_PATH) = file_of m1 (0, SSBL_BOOT_PATH)" by (simp add: m2_def file_of_def)
  moreover have "fs_open m2 v SSBL_PATH = fs_open m v SSBL_PATH" for v
    using only_file_write_file [OF loader_paths(1), of m 0 ?img] by (simp add: m2_def m1_def only_file_def)
  moreover have "started m2 = started m @ [SSBL_PATH]" by (simp add: m2_def)
  ultimately show ?thesis using files.written [OF ready] by (auto simp: m1_def)
qed

theorem bank_image_not_run_witness:
  "\<exists>m2. FSBL_UefiMain demo_ssl (retn EFI_SUCCESS) (demo demo_sig 2 1) = Done EFI_SUCCESS m2 \<and> started m2 = [SSBL_PATH] \<and>
    fs_open m2 0 SSBL_PATH = Inr (RegFile demo_ssbl)"
proof -
  have "fs_open (demo demo_sig 2 1) 0 SSBL_PATH = Inr (RegFile demo_ssbl)" by (simp add: demo_open)
  then show ?thesis
    using bank_image_not_run [OF demo_fsbl_checks, of 2 1 "retn EFI_SUCCESS"] demo_bank_ready [of 2 1]
    by (auto simp: demo_hdr_def andthen_Done)
qed

text \<open>
  C25: When the first stage's own file does not pass its check, nothing is written or
  started.  In factory mode the machine powers off, with the key mode as it was
  although the code writes the normal one; in every other mode control goes back to
  the firmware.
\<close>

theorem fsbl_rejects:
  assumes "raw_prt_at m i dev" "readable_file m FSBL_SELF_PATH v (image_layout code ans fw cert sg trailer)"
    and "layout_ok code ans fw cert sg trailer" "\<not> signature_good ssl code cert sg"
  shows "FSBL_UefiMain ssl ssbl m =
    (if bootmode (dev_hdr dev) = 4 then Halted EfiResetShutdown m else Done EFI_INVALID_PARAMETER m)"
proof -
  have "verify_file ssl FSBL_SELF_PATH m = Done (SBCFAIL, None) m"
    using assms(2-4) by (simp add: verify_file_whole verify_image_layout)
  then show ?thesis using FSBL_rejected [OF assms(1)] by blast
qed

theorem fsbl_rejects_witness:
  "FSBL_UefiMain demo_ssl (retn EFI_SUCCESS) (demo demo_forged 1 1) = Done EFI_INVALID_PARAMETER (demo demo_forged 1 1) \<and>
   FSBL_UefiMain demo_ssl (retn EFI_SUCCESS) (demo demo_forged 4 2) = Halted EfiResetShutdown (demo demo_forged 4 2)"
proof -
  have lay: "layout_ok demo_code demo_ans [] (ascii ''cert'') demo_forged demo_trailer" by (rule demo_layout) simp
  have r: "readable_file (demo demo_forged b k) FSBL_SELF_PATH 0 (image_layout demo_code demo_ans [] (ascii ''cert'') demo_forged demo_trailer)" for b k
    by (rule demo_readable) (simp_all add: demo_open demo_fsbl_def [symmetric])
  have "FSBL_UefiMain demo_ssl (retn EFI_SUCCESS) (demo demo_forged b k) =
      (if b = 4 then Halted EfiResetShutdown (demo demo_forged b k) else Done EFI_INVALID_PARAMETER (demo demo_forged b k))" for b k
    using fsbl_rejects [OF demo_raw_prt r lay demo_bad_sig(1), of "retn EFI_SUCCESS" b k] by (simp only: demo_dev_hdr) (simp add: demo_hdr_def)
  then show ?thesis by simp
qed

section \<open>Files\<close>

text \<open>
  C23: A file that was written and is not longer than what was written reads back as
  it was written, by every spelling of its path in upper and lower case.  Every
  path that names another entry, one that is there or one that could be made, opens
  as before, on this volume and on the others, and no block device changes.
\<close>

theorem write_read_file:
  assumes "writable m (h, p) (length bs)" "bs \<noteq> []" "volumes m ! h = Some vol" "\<not> EFI_ERROR (vol_read vol)"
    and "case file_of m (h, p) of None \<Rightarrow> True | Some old \<Rightarrow> length old \<le> length bs"
  shows "\<exists>m'. SBC_WriteFile h p (lv_of bs) m = Done (EFI_SUCCESS, lv_of bs) m' \<and>
    (\<forall>q. map EngStrUpr q = map EngStrUpr p \<longrightarrow>
       SBC_ReadFile h q (lv_of (zeros (length bs))) m' = Done (EFI_SUCCESS, lv_of bs) m') \<and>
    (\<forall>h' q. file_entry m (h', q) \<notin> {None, file_entry m (h, p)} \<longrightarrow> fs_open m' h' q = fs_open m h' q) \<and>
    blkdevs m' = blkdevs m"
proof -
  obtain v k where v: "h < length (volumes m)" "volumes m ! h = Some v" "\<not> EFI_ERROR (vol_open v)"
    "file_entry m (h, p) = Some (h, k)" "node_at v k \<noteq> Some Directory" using assms(1) by (rule writable_volume)
  define m' where "m' = put_node h k (RegFile bs) m"
  have wr: "SBC_WriteFile h p (lv_of bs) m = Done (EFI_SUCCESS, lv_of bs) m'"
    using WriteFile_lv_of [OF assms(1) v(4)] assms(5) by (auto simp: m'_def split: option.splits)
  have op: "fs_open m' h' q = (if e = (h, k) then Inr (RegFile bs) else fs_open m h' q)" if "file_entry m (h', q) = Some e" for h' q e
    unfolding m'_def by (rule fs_open_put_node(1) [OF v(1-3,5) _ that]) simp
  have vol: "volumes m' ! h = Some (set_node k (RegFile bs) vol)"
    using v(1) assms(3) by (simp add: m'_def put_node_volume)
  have "SBC_ReadFile h q (lv_of (zeros (length bs))) m' = Done (EFI_SUCCESS, lv_of bs) m'" if "map EngStrUpr q = map EngStrUpr p" for q
  proof -
    have "file_entry m (h, q) = Some (h, k)" using v(4) LocateOFile_spelling [OF that] by (auto simp: file_entry_def split: if_splits option.splits sum.splits)
    then show ?thesis
      using ReadFile_whole [of m' h q bs _ "lv_of (zeros (length bs))" "zeros (length bs)"] op vol writable_size [OF assms(1)] assms(4)
      by (simp add: lv_of_def)
  qed
  then show ?thesis using wr op v(4) by (intro exI [of _ m']) (auto simp: m'_def)
qed

theorem write_read_file_witness:
  "\<exists>m'. SBC_WriteFile 0 SSBL_BOOT_PATH (lv_of [1, 2, 3]) (demo demo_sig 1 1) = Done (EFI_SUCCESS, lv_of [1, 2, 3]) m' \<and>
    SBC_ReadFile 0 [''efi'', ''Boot'', ''ssbl.EFI''] (lv_of (zeros 3)) m' = Done (EFI_SUCCESS, lv_of [1, 2, 3]) m'"
proof -
  have "file_of (demo demo_sig 1 1) (0, SSBL_BOOT_PATH) = None" by (simp add: file_of_def demo_open)
  then have old: "case file_of (demo demo_sig 1 1) (0, SSBL_BOOT_PATH) of None \<Rightarrow> True | Some old \<Rightarrow> length old \<le> length [1, 2, 3 :: byte]"
    by simp
  have vol: "volumes (demo demo_sig 1 1) ! 0 = Some (demo_vol demo_sig)" "\<not> EFI_ERROR (vol_read (demo_vol demo_sig))"
    by (simp_all add: demo_def demo_vol_def EFI_ERROR_def)
  have "writable (demo demo_sig 1 1) (0, SSBL_BOOT_PATH) (length [1, 2, 3 :: byte])" by (rule demo_writable) simp
  moreover have "map EngStrUpr [''efi'', ''Boot'', ''ssbl.EFI''] = map EngStrUpr SSBL_BOOT_PATH" by code_simp
  ultimately show ?thesis using write_read_file [OF _ _ vol old] by (simp only: list.size list.distinct not_False_eq_True) (fastforce simp: numeral_3_eq_3)
qed

text \<open>
  C26: An image written over a longer file leaves the end of the old one: the trailer
  that a check of the file reads is the old trailer.
\<close>

theorem short_image_keeps_trailer:
  assumes "writable m (h, p) (length bs)" "file_of m (h, p) = Some old" "length bs + 8 \<le> length old"
  shows "\<exists>c. file_of (final_world (SBC_WriteFile h p (lv_of bs) m)) (h, p) = Some c \<and> length c = length old \<and>
    take (length bs) c = bs \<and> drop (length c - 8) c = drop (length old - 8) old"
proof -
  have c: "file_of (write_file (h, p) bs m) (h, p) = Some (bs @ drop (length bs) old)"
    using files.written [OF assms(1)] assms(2) by simp
  moreover have "length old - (8 + length bs) + length bs = length old - 8" using assms(3) by simp
  ultimately show ?thesis using assms(3) by (intro exI [of _ "bs @ drop (length bs) old"]) (simp add: write_file_def)
qed

theorem short_image_keeps_trailer_witness:
  "\<exists>c. file_of (final_world (SBC_WriteFile 0 FSBL_PATH (lv_of [7]) (demo demo_sig 1 1))) (0, FSBL_PATH) = Some c \<and>
     length c = 156 \<and> take 1 c = [7] \<and> drop 148 c = demo_trailer"
proof -
  have old: "file_of (demo demo_sig 1 1) (0, FSBL_PATH) = Some (demo_fsbl demo_sig)" by (simp add: file_of_def demo_open)
  have "drop 148 (demo_fsbl demo_sig) = demo_trailer" by (simp add: demo_fsbl_def image_layout_def demo_lengths ascii_def)
  moreover have "writable (demo demo_sig 1 1) (0, FSBL_PATH) (length [7 :: byte])"
    using demo_locate(4) [of "demo_vol demo_sig" demo_sig]
    by (simp add: writable_def demo_def) (simp add: demo_vol_def node_at_def demo_files_def EFI_ERROR_def)
  ultimately show ?thesis using short_image_keeps_trailer [OF _ old, of "[7]"] by auto
qed



end
