(* ===== verification/Print_Lib.thy ===== *)
theory Print_Lib
  imports Uefi_Nvme
begin

unbundle bit_operations_syntax

text \<open>
  \<^verbatim>\<open>MdePkg/Library/BasePrintLib\<close>, the formatted printing the whole firmware uses: the worker
  \<^verbatim>\<open>BasePrintLibSPrintMarker\<close> with its flags, widths, precisions and conversions, its entry points,
  and the number conversion \<^verbatim>\<open>BasePrintLibConvertValueToStringS\<close>.  Text is a list of 16-bit characters
  without its terminator, an ASCII format the same with characters below 256.  The variable
  arguments are a list of values by kind; taking one that is missing or of another kind is a fault.
  A failed \<^verbatim>\<open>ASSERT\<close> is followed by the return the code writes after it.
\<close>

section \<open>Text and arguments\<close>

type_synonym wtext = "u16 list"

abbreviation wch :: "char \<Rightarrow> u16" where "wch c \<equiv> of_char c"

definition wide :: "string \<Rightarrow> wtext" where
  "wide s = map of_char s"

text \<open>The string at a pointer: what comes before the terminator.\<close>

definition cstr :: "'a::zero list \<Rightarrow> 'a list" where
  "cstr s = takeWhile (\<lambda>c. c \<noteq> 0) s"

definition widen :: "bytes \<Rightarrow> wtext" where
  "widen s = map ucast s"

record guid =
  Data1 :: u32
  Data2 :: u16
  Data3 :: u16
  Data4 :: bytes

record print_time =
  Year :: u16
  Month :: byte
  Day :: byte
  Hour :: byte
  Minute :: byte
  Second :: byte

datatype va = VaWord u64 | VaWide "wtext option" | VaAscii "bytes option" | VaGuid "guid option" | VaTime "print_time option"

fun va_word :: "va list \<Rightarrow> fault + (u64 \<times> va list)" where
  "va_word (VaWord w # va) = Inr (w, va)"
| "va_word va = Inl WildPointer"

fun va_wide :: "va list \<Rightarrow> fault + (wtext option \<times> va list)" where
  "va_wide (VaWide s # va) = Inr (s, va)"
| "va_wide va = Inl WildPointer"

fun va_ascii :: "va list \<Rightarrow> fault + (bytes option \<times> va list)" where
  "va_ascii (VaAscii s # va) = Inr (s, va)"
| "va_ascii va = Inl WildPointer"

fun va_guid :: "va list \<Rightarrow> fault + (guid option \<times> va list)" where
  "va_guid (VaGuid g # va) = Inr (g, va)"
| "va_guid va = Inl WildPointer"

fun va_time :: "va list \<Rightarrow> fault + (print_time option \<times> va list)" where
  "va_time (VaTime t # va) = Inr (t, va)"
| "va_time va = Inl WildPointer"

text \<open>The character at the format pointer; at the end it is the terminator.\<close>

definition ch :: "wtext \<Rightarrow> u16" where
  "ch fmt = (case fmt of [] \<Rightarrow> 0 | c # _ \<Rightarrow> c)"

section \<open>Digits\<close>

definition mHexStr :: wtext where
  "mHexStr = wide ''0123456789ABCDEF''"

text \<open>
  The digits of a value, last one first, as they lie in the value buffer behind its
  leading zero byte.  The loop divides until the quotient is zero; the radix is ten or
  sixteen, and the guard on it only serves termination.
\<close>

function BasePrintLibValueToString :: "nat \<Rightarrow> nat \<Rightarrow> wtext" where
  "BasePrintLibValueToString v radix =
     mHexStr ! (v mod radix) # (if v div radix = 0 \<or> radix < 2 then [] else BasePrintLibValueToString (v div radix) radix)"
  by auto
termination by (relation "measure fst") (auto simp: div_greater_zero_iff)

declare BasePrintLibValueToString.simps [simp del]

text \<open>The digits in the order they are printed, from the end of the value buffer backwards.\<close>

definition value_text :: "nat \<Rightarrow> u64 \<Rightarrow> wtext" where
  "value_text radix v = rev (BasePrintLibValueToString (unat v) radix)"

section \<open>The output buffer\<close>

text \<open>
  Up to n characters, none when n is negative as a signed number, and never beyond the end.
  An ASCII buffer keeps the low byte of a character.
\<close>

definition BasePrintLibFillBuffer :: "bool \<Rightarrow> nat \<Rightarrow> u64 \<Rightarrow> u16 \<Rightarrow> wtext \<Rightarrow> wtext" where
  "BasePrintLibFillBuffer uni fin n c out =
     out @ replicate (min (nat (sint n)) (fin - length out)) (if uni then c else c AND 0xFF)"

text \<open>Where the output goes: the room without the terminator, or None when only its length is wanted.\<close>

record print_dst =
  pd_uni :: bool
  pd_room :: "nat option"
  pd_out :: wtext
  pd_len :: u64

definition BytesPerOutputCharacter :: "print_dst \<Rightarrow> u64" where
  "BytesPerOutputCharacter d = (if pd_uni d then 2 else 1)"

text \<open>A run of n equal characters: the length is counted, and the buffer filled unless there is none.\<close>

fun put_run :: "print_dst \<Rightarrow> u64 \<times> u16 \<Rightarrow> print_dst" where
  "put_run d (n, c) = d\<lparr>pd_len := pd_len d + n * BytesPerOutputCharacter d,
     pd_out := (case pd_room d of None \<Rightarrow> pd_out d | Some fin \<Rightarrow> BasePrintLibFillBuffer (pd_uni d) fin n c (pd_out d))\<rparr>"

section \<open>Flags, width and precision\<close>

record print_spec =
  LEFT_JUSTIFY :: bool
  PREFIX_SIGN :: bool
  PREFIX_BLANK :: bool
  COMMA_TYPE :: bool
  LONG_TYPE :: bool
  PREFIX_ZERO :: bool
  PAD_TO_WIDTH :: bool
  PRECISION :: bool
  Width :: u64
  Precision :: u64

definition no_spec :: print_spec where
  "no_spec = \<lparr>LEFT_JUSTIFY = False, PREFIX_SIGN = False, PREFIX_BLANK = False, COMMA_TYPE = False, LONG_TYPE = False,
     PREFIX_ZERO = False, PAD_TO_WIDTH = False, PRECISION = False, Width = 0, Precision = 1\<rparr>"

definition is_digit :: "u16 \<Rightarrow> bool" where
  "is_digit c \<longleftrightarrow> wch CHR ''0'' \<le> c \<and> c \<le> wch CHR ''9''"

fun parse_number :: "wtext \<Rightarrow> u64 \<Rightarrow> wtext \<times> u64" where
  "parse_number (c # fmt) n = (if is_digit c then parse_number fmt (n * 10 + ucast c - 48) else (c # fmt, n))"
| "parse_number [] n = ([], n)"

definition set_number :: "u64 \<Rightarrow> print_spec \<Rightarrow> print_spec" where
  "set_number n sp = (if PRECISION sp then sp\<lparr>Precision := n\<rparr> else sp\<lparr>PAD_TO_WIDTH := True, Width := n\<rparr>)"

lemma parse_number_length: "length (fst (parse_number fmt n)) \<le> length fmt"
  by (induction fmt n rule: parse_number.induct) auto

definition set_flag :: "u16 \<Rightarrow> print_spec \<Rightarrow> print_spec option" where
  "set_flag c sp =
     (if c = wch CHR ''.'' then Some (sp\<lparr>PRECISION := True\<rparr>)
      else if c = wch CHR ''-'' then Some (sp\<lparr>LEFT_JUSTIFY := True\<rparr>)
      else if c = wch CHR ''+'' then Some (sp\<lparr>PREFIX_SIGN := True\<rparr>)
      else if c = wch CHR '' '' then Some (sp\<lparr>PREFIX_BLANK := True\<rparr>)
      else if c = wch CHR '','' then Some (sp\<lparr>COMMA_TYPE := True\<rparr>)
      else if c = wch CHR ''L'' \<or> c = wch CHR ''l'' then Some (sp\<lparr>LONG_TYPE := True\<rparr>)
      else None)"

definition zero_flag :: "u16 \<Rightarrow> print_spec \<Rightarrow> print_spec" where
  "zero_flag c sp = (if c = wch CHR ''0'' \<and> \<not> PRECISION sp then sp\<lparr>PREFIX_ZERO := True\<rparr> else sp)"

text \<open>The format is returned from its conversion character on.\<close>

function parse_spec :: "wtext \<Rightarrow> va list \<Rightarrow> print_spec \<Rightarrow> fault + (wtext \<times> va list \<times> print_spec)" where
  "parse_spec [] va sp = Inr ([], va, sp\<lparr>Precision := 0\<rparr>)"
| "parse_spec (c # fmt) va sp =
     (case set_flag c sp of Some sp' \<Rightarrow> parse_spec fmt va sp'
      | None \<Rightarrow>
          if c = wch CHR ''*'' then
            (case va_word va of Inl f \<Rightarrow> Inl f | Inr (n, va) \<Rightarrow> parse_spec fmt va (set_number n sp))
          else if is_digit c then
            parse_spec (fst (parse_number (c # fmt) 0)) va (set_number (snd (parse_number (c # fmt) 0)) (zero_flag c sp))
          else Inr (c # fmt, va, sp))"
  by pat_completeness auto
termination by (relation "measure (\<lambda>(fmt, _). length fmt)") (simp_all add: less_Suc_eq_le parse_number_length)

declare parse_spec.simps (2) [simp del]

section \<open>Conversions\<close>

text \<open>
  What a conversion leaves for the output: the specification as it was changed, the
  text, the prefix character or zero, and for a number the count of its characters.
\<close>

record print_field =
  fd_spec :: print_spec
  fd_text :: wtext
  fd_count :: "u64 option"
  fd_prefix :: u16
  fd_comma :: bool
  fd_digits :: nat

definition text_field :: "print_spec \<Rightarrow> wtext \<Rightarrow> print_field" where
  "text_field sp txt = \<lparr>fd_spec = sp, fd_text = txt, fd_count = None, fd_prefix = 0, fd_comma = False, fd_digits = 0\<rparr>"

definition is_hex :: "u16 \<Rightarrow> bool" where
  "is_hex c \<longleftrightarrow> c = wch CHR ''p'' \<or> c = wch CHR ''X'' \<or> c = wch CHR ''x''"

definition number_spec :: "u16 \<Rightarrow> print_spec \<Rightarrow> print_spec" where
  "number_spec c sp =
     (let sp = (if c = wch CHR ''p'' then sp\<lparr>PREFIX_BLANK := False, PREFIX_SIGN := False, PREFIX_ZERO := False, LONG_TYPE := True\<rparr> else sp);
          sp = (if c = wch CHR ''p'' \<or> c = wch CHR ''X'' then sp\<lparr>PREFIX_ZERO := True\<rparr> else sp)
      in if c = wch CHR ''u'' then sp\<lparr>PREFIX_SIGN := False\<rparr> else sp)"

text \<open>An argument read as \<^verbatim>\<open>int\<close> is its low half with the sign extended.\<close>

definition number_value :: "print_spec \<Rightarrow> u64 \<Rightarrow> u64" where
  "number_value sp w = (if LONG_TYPE sp then w else scast (ucast w :: u32))"

definition low_half :: "u64 \<Rightarrow> u64" where
  "low_half v = ucast (ucast v :: u32)"

definition number_digits :: "print_spec \<Rightarrow> nat \<Rightarrow> u64 \<Rightarrow> wtext" where
  "number_digits sp radix v = (if v = 0 \<and> Precision sp = 0 then [] else value_text radix v)"

definition number_field :: "u16 \<Rightarrow> print_spec \<Rightarrow> u64 \<Rightarrow> print_field" where
  "number_field c sp0 w =
     (let sp = number_spec c sp0; v = number_value sp w; hex = is_hex c; uns = (c = wch CHR ''u'');
          comma = (COMMA_TYPE sp \<and> \<not> hex);
          sp = (if comma then sp\<lparr>PREFIX_ZERO := False, Precision := 1\<rparr> else sp);
          neg = (\<not> hex \<and> \<not> uns \<and> v <s 0);
          prefix = (if neg then wch CHR ''-'' else if PREFIX_SIGN sp then wch CHR ''+''
                    else if PREFIX_BLANK sp then wch CHR '' '' else 0);
          v = (if neg then - v
               else if \<not> LONG_TYPE sp \<and> (uns \<or> (hex \<and> v <s 0)) then low_half v else v);
          digits = number_digits sp (if hex then 16 else 10) v;
          n = length digits;
          count = of_nat (n + (if comma \<and> n \<noteq> 0 then (n - 1) div 3 else 0)) + (if prefix \<noteq> 0 then 1 else 0);
          prec = Precision sp + (if prefix \<noteq> 0 then 1 else 0);
          prec = (if PREFIX_ZERO sp \<and> \<not> LEFT_JUSTIFY sp \<and> PAD_TO_WIDTH sp \<and> \<not> PRECISION sp then Width sp else prec)
      in \<lparr>fd_spec = sp\<lparr>Precision := prec\<rparr>, fd_text = digits, fd_count = Some count, fd_prefix = prefix,
          fd_comma = comma, fd_digits = (if n mod 3 \<noteq> 0 then 3 - n mod 3 else 0)\<rparr>)"

definition string_field :: "print_spec \<Rightarrow> wtext option \<Rightarrow> print_field" where
  "string_field sp s = text_field (if PRECISION sp then sp else sp\<lparr>Precision := 0\<rparr>)
     (case s of None \<Rightarrow> wide ''<null string>'' | Some t \<Rightarrow> cstr t)"

text \<open>The status names.\<close>

definition mWarningString :: "string list" where
  "mWarningString = [''Success'', ''Warning Unknown Glyph'', ''Warning Delete Failure'', ''Warning Write Failure'',
     ''Warning Buffer Too Small'', ''Warning Stale Data'', ''Warning File System'', ''Warning Reset Required'']"

definition mErrorString :: "string list" where
  "mErrorString = [''Load Error'', ''Invalid Parameter'', ''Unsupported'', ''Bad Buffer Size'', ''Buffer Too Small'',
     ''Not Ready'', ''Device Error'', ''Write Protected'', ''Out of Resources'', ''Volume Corrupt'', ''Volume Full'',
     ''No Media'', ''Media changed'', ''Not Found'', ''Access Denied'', ''No Response'', ''No mapping'', ''Time out'',
     ''Not started'', ''Already started'', ''Aborted'', ''ICMP Error'', ''TFTP Error'', ''Protocol Error'',
     ''Incompatible Version'', ''Security Violation'', ''CRC Error'', ''End of Media'', ''Reserved (29)'',
     ''Reserved (30)'', ''End of File'', ''Invalid Language'', ''Compromised Data'', ''IP Address Conflict'', ''HTTP Error'']"

type_synonym nested_print = "wtext \<Rightarrow> va list \<Rightarrow> fault + wtext"

definition status_text :: "nested_print \<Rightarrow> u64 \<Rightarrow> fault + wtext" where
  "status_text nested status =
     (let index = unat (if status <s 0 then status AND (NOT 0x8000000000000000) else status)
      in if status <s 0 \<and> 0 < index \<and> index \<le> 35 then Inr (wide (mErrorString ! (index - 1)))
         else if \<not> status <s 0 \<and> index \<le> 7 then Inr (wide (mWarningString ! index))
         else nested (wide ''%08X'') [VaWord status])"

definition guid_text :: "nested_print \<Rightarrow> guid option \<Rightarrow> fault + wtext" where
  "guid_text nested g =
     (case g of None \<Rightarrow> Inr (wide ''<null guid>'')
      | Some g \<Rightarrow> if length (Data4 g) < 8 then Inl OutOfBounds
        else nested (wide ''%08x-%04x-%04x-%02x%02x-%02x%02x%02x%02x%02x%02x'')
          ([VaWord (ucast (Data1 g)), VaWord (ucast (Data2 g)), VaWord (ucast (Data3 g))]
           @ map (\<lambda>b. VaWord (ucast b)) (take 8 (Data4 g))))"

definition time_text :: "nested_print \<Rightarrow> print_time option \<Rightarrow> fault + wtext" where
  "time_text nested t =
     (case t of None \<Rightarrow> Inr (wide ''<null time>'')
      | Some t \<Rightarrow> nested (wide ''%02d/%02d/%04d  %02d:%02d'')
          [VaWord (ucast (Month t)), VaWord (ucast (Day t)), VaWord (ucast (Year t)), VaWord (ucast (Hour t)), VaWord (ucast (Minute t))])"

text \<open>
  Line ends: a line feed, alone or with a carriage return on either side, becomes
  carriage return and line feed.  Every other character stands for itself.
\<close>

definition plain_text :: "u16 \<Rightarrow> wtext \<Rightarrow> wtext \<times> wtext" where
  "plain_text c fmt =
     (if c = 13 then (if ch fmt = 10 then ([13, 10], tl fmt) else ([13], fmt))
      else if c = 10 then ([13, 10], if ch fmt = 13 then tl fmt else fmt)
      else ([c], fmt))"

definition field_of :: "(fault + 'a \<times> va list) \<Rightarrow> ('a \<Rightarrow> fault + print_field) \<Rightarrow> wtext
    \<Rightarrow> fault + (print_field \<times> wtext \<times> va list)" where
  "field_of arg f fmt = (case arg of Inl e \<Rightarrow> Inl e
     | Inr (x, va) \<Rightarrow> (case f x of Inl e \<Rightarrow> Inl e | Inr fd \<Rightarrow> Inr (fd, fmt, va)))"

definition text_of :: "print_spec \<Rightarrow> fault + wtext \<Rightarrow> fault + print_field" where
  "text_of sp t = (case t of Inl e \<Rightarrow> Inl e | Inr t \<Rightarrow> Inr (text_field sp t))"

definition convert :: "nested_print \<Rightarrow> wtext \<Rightarrow> va list \<Rightarrow> print_spec \<Rightarrow> fault + (print_field \<times> wtext \<times> va list)" where
  "convert nested fmt va sp =
     (let c = ch fmt; rest = tl fmt
      in if is_hex c \<or> c = wch CHR ''u'' \<or> c = wch CHR ''d'' then field_of (va_word va) (\<lambda>w. Inr (number_field c sp w)) rest
         else if c = wch CHR ''s'' \<or> c = wch CHR ''S'' then field_of (va_wide va) (\<lambda>s. Inr (string_field sp s)) rest
         else if c = wch CHR ''a'' then field_of (va_ascii va) (\<lambda>s. Inr (string_field sp (map_option widen s))) rest
         else if c = wch CHR ''c'' then field_of (va_word va) (\<lambda>w. Inr (text_field sp [ucast w])) rest
         else if c = wch CHR ''g'' then field_of (va_guid va) (\<lambda>g. text_of sp (guid_text nested g)) rest
         else if c = wch CHR ''t'' then field_of (va_time va) (\<lambda>t. text_of sp (time_text nested t)) rest
         else if c = wch CHR ''r'' then field_of (va_word va) (\<lambda>w. text_of sp (status_text nested w)) rest
         else (case plain_text c rest of (txt, rest) \<Rightarrow> Inr (text_field sp txt, rest, va)))"

section \<open>Output of a field\<close>

text \<open>The copy loop: the characters below the count, and in a number a comma after every third digit from the right.\<close>

fun copy_arg :: "bool \<Rightarrow> u64 \<Rightarrow> u64 \<Rightarrow> nat \<Rightarrow> wtext \<Rightarrow> (u64 \<times> u16) list" where
  "copy_arg comma count index digits [] = []"
| "copy_arg comma count index digits (c # txt) =
     (if index < count \<and> c \<noteq> 0
      then (1, c) # (if comma \<and> digits + 1 = 3
        then (if index + 2 < count then [(1, wch CHR '','')] else []) @ copy_arg comma count (index + 2) 0 txt
        else copy_arg comma count (index + 1) (if comma then digits + 1 else digits) txt)
      else [])"

definition field_count :: "print_field \<Rightarrow> u64" where
  "field_count fd = (case fd_count fd of Some n \<Rightarrow> n
     | None \<Rightarrow> let n = of_nat (length (cstr (fd_text fd)))
         in if PRECISION (fd_spec fd) then min n (Precision (fd_spec fd)) else n)"

text \<open>The runs of a field in the order they are printed.  Only a number has its count before, and it is padded with zeros.\<close>

definition field_runs :: "print_field \<Rightarrow> (u64 \<times> u16) list" where
  "field_runs fd =
     (let sp = fd_spec fd; count = field_count fd; prec = (if Precision sp < count then count else Precision sp);
          pad = [(Width sp - prec, wch CHR '' '')];
          prefix = (if fd_prefix fd \<noteq> 0 then [(1, fd_prefix fd)] else [])
      in (if PAD_TO_WIDTH sp \<and> \<not> LEFT_JUSTIFY sp then pad else [])
         @ (if fd_count fd \<noteq> None then prefix @ [(prec - count, wch CHR ''0'')] else (prec - count, wch CHR '' '') # prefix)
         @ copy_arg (fd_comma fd) count (if fd_prefix fd \<noteq> 0 then 1 else 0) (fd_digits fd) (fd_text fd)
         @ (if PAD_TO_WIDTH sp \<and> LEFT_JUSTIFY sp then pad else []))"

section \<open>The worker\<close>

definition format_item :: "nested_print \<Rightarrow> u16 \<Rightarrow> wtext \<Rightarrow> va list \<Rightarrow> fault + ((u64 \<times> u16) list \<times> wtext \<times> va list)" where
  "format_item nested c fmt va =
     (if c = wch CHR ''%'' then (case parse_spec fmt va no_spec of Inl f \<Rightarrow> Inl f
        | Inr (fmt, va, sp) \<Rightarrow> (case convert nested fmt va sp of Inl f \<Rightarrow> Inl f
            | Inr (fd, fmt, va) \<Rightarrow> Inr (field_runs fd, fmt, va)))
      else (case plain_text c fmt of (txt, fmt) \<Rightarrow> Inr (field_runs (text_field no_spec txt), fmt, va)))"

definition buffer_full :: "print_dst \<Rightarrow> bool" where
  "buffer_full d = (case pd_room d of None \<Rightarrow> False | Some fin \<Rightarrow> fin \<le> length (pd_out d))"

lemma parse_spec_length: "parse_spec fmt va sp = Inr (fmt', va', sp') \<Longrightarrow> length fmt' \<le> length fmt"
proof (induction fmt va sp rule: parse_spec.induct)
  case (2 c fmt va sp)
  show ?case
  proof (cases "set_flag c sp")
    case (Some sp1)
    with 2(3) 2(4) show ?thesis by (simp add: parse_spec.simps(2))
  next
    case None
    have d: "is_digit c \<Longrightarrow> length (fst (parse_number (c # fmt) 0)) \<le> length fmt" by (simp add: parse_number_length)
    show ?thesis
    proof (cases "c = wch CHR ''*''")
      case True
      with 2(1) 2(4) None show ?thesis by (cases "va_word va") (auto simp: parse_spec.simps(2) intro!: le_SucI)
    next
      case False
      show ?thesis
      proof (cases "is_digit c")
        case True
        then show ?thesis using 2(2) 2(4) None False d by (simp add: parse_spec.simps(2))
      qed (use 2(4) None False in \<open>simp add: parse_spec.simps(2)\<close>)
    qed
  qed
qed simp

lemma plain_text_length: "length (snd (plain_text c fmt)) \<le> length fmt"
  by (auto simp: plain_text_def)

lemma convert_length: "convert nested fmt va sp = Inr (fd, fmt', va') \<Longrightarrow> length fmt' \<le> length fmt"
  using plain_text_length [of "ch fmt" "tl fmt"]
  by (auto simp: convert_def Let_def field_of_def split: if_splits sum.splits prod.splits)

lemma format_item_length: "format_item nested c fmt va = Inr (runs, fmt', va') \<Longrightarrow> length fmt' \<le> length fmt"
  using plain_text_length [of c fmt]
  by (auto simp: format_item_def split: if_splits sum.splits prod.splits dest!: parse_spec_length convert_length)

function print_loop :: "nested_print \<Rightarrow> wtext \<Rightarrow> va list \<Rightarrow> print_dst \<Rightarrow> fault + print_dst" where
  "print_loop nested [] va d = Inr d"
| "print_loop nested (c # fmt) va d =
     (if buffer_full d then Inr d
      else case format_item nested c fmt va of Inl f \<Rightarrow> Inl f
        | Inr (runs, fmt, va) \<Rightarrow> print_loop nested fmt va (foldl put_run d runs))"
  by pat_completeness auto
termination
  by (relation "measure (\<lambda>(_, fmt, _). length fmt)") (auto simp: less_Suc_eq_le format_item_length)

declare print_loop.simps (2) [simp del]

text \<open>
  The worker into a buffer of n characters: None when the buffer is left as it was, else
  the text in front of the terminator, whose length is the result of the call.
\<close>

abbreviation RSIZE_MAX :: nat where "RSIZE_MAX \<equiv> 1000000"

definition print_dst_of :: "bool \<Rightarrow> nat option \<Rightarrow> print_dst" where
  "print_dst_of uni room = \<lparr>pd_uni = uni, pd_room = room, pd_out = [], pd_len = 0\<rparr>"

definition print_marker :: "nested_print \<Rightarrow> bool \<Rightarrow> nat \<Rightarrow> wtext \<Rightarrow> va list \<Rightarrow> fault + wtext option" where
  "print_marker nested uni n fmt va =
     (if RSIZE_MAX < n \<or> RSIZE_MAX < length fmt \<or> n = 0 then Inr None
      else map_sum id (Some \<circ> pd_out) (print_loop nested fmt va (print_dst_of uni (Some (n - 1)))))"

text \<open>
  The calls from inside the worker fill a value buffer of 38 characters.  Their formats
  hold numbers only, so no call is nested deeper.
\<close>

abbreviation MAXIMUM_VALUE_CHARACTERS :: nat where "MAXIMUM_VALUE_CHARACTERS \<equiv> 38"

definition BasePrintLibSPrint :: nested_print where
  "BasePrintLibSPrint fmt va = map_sum id (case_option [] id)
     (print_marker (\<lambda>_ _. Inl WildPointer) False MAXIMUM_VALUE_CHARACTERS fmt va)"

definition BasePrintLibSPrintMarker :: "bool \<Rightarrow> nat \<Rightarrow> wtext \<Rightarrow> va list \<Rightarrow> fault + wtext option" where
  "BasePrintLibSPrintMarker = print_marker BasePrintLibSPrint"

definition print_count :: "wtext \<Rightarrow> va list \<Rightarrow> fault + u64" where
  "print_count fmt va = (if RSIZE_MAX < length fmt then Inr 0
     else map_sum id (\<lambda>d. pd_len d div BytesPerOutputCharacter d) (print_loop BasePrintLibSPrint fmt va (print_dst_of True None)))"

section \<open>Entry points\<close>

text \<open>Sizes of Unicode buffers are in bytes.\<close>

definition UnicodeVSPrint :: "nat \<Rightarrow> wtext \<Rightarrow> va list \<Rightarrow> fault + wtext option" where
  "UnicodeVSPrint BufferSize fmt va = BasePrintLibSPrintMarker True (BufferSize div 2) fmt va"

definition UnicodeSPrint :: "nat \<Rightarrow> wtext \<Rightarrow> va list \<Rightarrow> fault + wtext option" where
  "UnicodeSPrint BufferSize fmt va = UnicodeVSPrint BufferSize fmt va"

definition UnicodeVSPrintAsciiFormat :: "nat \<Rightarrow> bytes \<Rightarrow> va list \<Rightarrow> fault + wtext option" where
  "UnicodeVSPrintAsciiFormat BufferSize fmt va = BasePrintLibSPrintMarker True (BufferSize div 2) (widen fmt) va"

definition AsciiVSPrint :: "nat \<Rightarrow> bytes \<Rightarrow> va list \<Rightarrow> fault + bytes option" where
  "AsciiVSPrint BufferSize fmt va = map_sum id (map_option (map ucast)) (BasePrintLibSPrintMarker False BufferSize (widen fmt) va)"

definition AsciiSPrint :: "nat \<Rightarrow> bytes \<Rightarrow> va list \<Rightarrow> fault + bytes option" where
  "AsciiSPrint BufferSize fmt va = AsciiVSPrint BufferSize fmt va"

definition AsciiVSPrintUnicodeFormat :: "nat \<Rightarrow> wtext \<Rightarrow> va list \<Rightarrow> fault + bytes option" where
  "AsciiVSPrintUnicodeFormat BufferSize fmt va = map_sum id (map_option (map ucast)) (BasePrintLibSPrintMarker False BufferSize fmt va)"

definition SPrintLength :: "wtext \<Rightarrow> va list \<Rightarrow> fault + u64" where
  "SPrintLength fmt va = print_count fmt va"

definition SPrintLengthAsciiFormat :: "bytes \<Rightarrow> va list \<Rightarrow> fault + u64" where
  "SPrintLengthAsciiFormat fmt va = print_count (widen fmt) va"

section \<open>Numbers on their own\<close>

fun comma_loop :: "bool \<Rightarrow> nat \<Rightarrow> wtext \<Rightarrow> wtext" where
  "comma_loop comma digits [] = []"
| "comma_loop comma digits (c # txt) =
     c # (if comma \<and> digits + 1 = 3
          then (if txt \<noteq> [] then [wch CHR '',''] else []) @ comma_loop comma 0 txt
          else comma_loop comma (if comma then digits + 1 else digits) txt)"

definition value_flags_ok :: "u64 \<Rightarrow> bool" where
  "value_flags_ok flags \<longleftrightarrow> flags AND NOT (0x01 OR 0x08 OR 0x20 OR 0x80) = 0 \<and> (flags AND 0x08 = 0 \<or> flags AND 0x80 = 0)"

definition put_chars :: "bool \<Rightarrow> nat \<Rightarrow> wtext \<Rightarrow> wtext \<Rightarrow> wtext" where
  "put_chars uni fin txt out = foldl (\<lambda>b c. BasePrintLibFillBuffer uni fin 1 c b) out txt"

definition BasePrintLibConvertValueToStringS :: "bool \<Rightarrow> nat \<Rightarrow> u64 \<Rightarrow> u64 \<Rightarrow> nat \<Rightarrow> efi_status \<times> wtext option" where
  "BasePrintLibConvertValueToStringS uni BufferSize flags v width =
     (let inc = (if uni then 2 else 1);
          comma = (flags AND 0x08 \<noteq> 0); hex = (flags AND 0x80 \<noteq> 0);
          zero = (flags AND 0x20 \<noteq> 0 \<and> width \<noteq> 0 \<and> \<not> comma);
          w = (if width = 0 then MAXIMUM_VALUE_CHARACTERS - 1 else width);
          neg = (v <s 0 \<and> \<not> hex);
          digits = value_text (if hex then 16 else 10) (if neg then - v else v); n = length digits;
          count = (if zero then w else n + (if neg then 1 else 0) + (if comma then (n - 1) div 3 else 0));
          fin = min count w;
          out = (if neg then BasePrintLibFillBuffer uni fin 1 (wch CHR ''-'') [] else []);
          out = (if zero then BasePrintLibFillBuffer uni fin (of_nat fin - (if neg then 1 else 0) - of_nat n) (wch CHR ''0'') out else out)
      in if (if uni then RSIZE_MAX * 2 + 1 else RSIZE_MAX) < BufferSize then (EFI_INVALID_PARAMETER, None)
         else if \<not> value_flags_ok flags then (EFI_INVALID_PARAMETER, None)
         else if MAXIMUM_VALUE_CHARACTERS \<le> width then (EFI_INVALID_PARAMETER, None)
         else if BufferSize < (fin + 1) * inc then (EFI_BUFFER_TOO_SMALL, None)
         else (EFI_SUCCESS, Some (put_chars uni fin (comma_loop comma (if n mod 3 \<noteq> 0 then 3 - n mod 3 else 0) digits) out)))"

definition UnicodeValueToStringS :: "nat \<Rightarrow> u64 \<Rightarrow> u64 \<Rightarrow> nat \<Rightarrow> efi_status \<times> wtext option" where
  "UnicodeValueToStringS BufferSize flags v width = BasePrintLibConvertValueToStringS True BufferSize flags v width"

definition AsciiValueToStringS :: "nat \<Rightarrow> u64 \<Rightarrow> u64 \<Rightarrow> nat \<Rightarrow> efi_status \<times> bytes option" where
  "AsciiValueToStringS BufferSize flags v width =
     map_prod id (map_option (map ucast)) (BasePrintLibConvertValueToStringS False BufferSize flags v width)"

end
