(* ===== verification/Print_Facts.thy ===== *)
theory Print_Facts
  imports Print_Lib
begin

unbundle bit_operations_syntax

text \<open>
  Facts about the formatted printing of \<open>Print_Lib\<close>: what is printed into a buffer is
  the beginning of the whole output of the format (\<open>format_runs\<close>), and the text of
  numbers, strings and plain characters in closed form.
\<close>

section \<open>Runs and text\<close>

definition run_text :: "bool \<Rightarrow> u64 \<times> u16 \<Rightarrow> wtext" where
  "run_text uni = (\<lambda>(n, c). replicate (nat (sint n)) (if uni then c else c AND 0xFF))"

definition runs_text :: "bool \<Rightarrow> (u64 \<times> u16) list \<Rightarrow> wtext" where
  "runs_text uni runs = concat (map (run_text uni) runs)"

text \<open>The whole output of a format, without a buffer.\<close>

function format_runs :: "nested_print \<Rightarrow> wtext \<Rightarrow> va list \<Rightarrow> fault + (u64 \<times> u16) list" where
  "format_runs nested [] va = Inr []"
| "format_runs nested (c # fmt) va = (case format_item nested c fmt va of Inl f \<Rightarrow> Inl f
     | Inr (runs, fmt, va) \<Rightarrow> map_sum id ((@) runs) (format_runs nested fmt va))"
  by pat_completeness auto
termination
  by (relation "measure (\<lambda>(_, fmt, _). length fmt)") (auto simp: less_Suc_eq_le format_item_length)

declare format_runs.simps (2) [simp del]

lemma runs_text_simps [simp]:
  "runs_text uni [] = []" "runs_text uni (r # rs) = run_text uni r @ runs_text uni rs"
  "runs_text uni (rs @ ss) = runs_text uni rs @ runs_text uni ss"
  by (simp_all add: runs_text_def)

lemma put_run_fields [simp]:
  "pd_uni (put_run d r) = pd_uni d" "pd_room (put_run d r) = pd_room d"
  "pd_len (put_run d r) = pd_len d + fst r * BytesPerOutputCharacter d"
  "BytesPerOutputCharacter (put_run d r) = BytesPerOutputCharacter d"
  by (cases r; simp add: BytesPerOutputCharacter_def)+

lemma put_runs_fields [simp]:
  "pd_uni (foldl put_run d rs) = pd_uni d" "pd_room (foldl put_run d rs) = pd_room d"
  "BytesPerOutputCharacter (foldl put_run d rs) = BytesPerOutputCharacter d"
  "pd_len (foldl put_run d rs) = pd_len d + sum_list (map fst rs) * BytesPerOutputCharacter d"
  by (induction rs arbitrary: d) (simp_all add: algebra_simps)

lemma fill_take:
  "length out \<le> fin \<Longrightarrow> BasePrintLibFillBuffer uni fin n c out = take fin (out @ run_text uni (n, c))"
  by (simp add: BasePrintLibFillBuffer_def run_text_def min.commute)

lemma put_run_out:
  "pd_room d = Some fin \<Longrightarrow> length (pd_out d) \<le> fin \<Longrightarrow> pd_out (put_run d r) = take fin (pd_out d @ run_text (pd_uni d) r)"
  by (cases r) (simp add: fill_take)

lemma put_runs_out:
  "pd_room d = Some fin \<Longrightarrow> length (pd_out d) \<le> fin \<Longrightarrow>
   pd_out (foldl put_run d rs) = take fin (pd_out d @ runs_text (pd_uni d) rs)"
proof (induction rs arbitrary: d)
  case (Cons r rs)
  then have "pd_out (foldl put_run (put_run d r) rs) = take fin (take fin (pd_out d @ run_text (pd_uni d) r) @ runs_text (pd_uni d) rs)"
    by (simp add: put_run_out)
  then show ?case by (simp add: take_append min_def)
qed simp

lemma print_loop_runs:
  "format_runs nested fmt va = Inr runs \<Longrightarrow> pd_room d = Some fin \<Longrightarrow> length (pd_out d) \<le> fin \<Longrightarrow>
   \<exists>d'. print_loop nested fmt va d = Inr d' \<and> pd_out d' = take fin (pd_out d @ runs_text (pd_uni d) runs)"
proof (induction nested fmt va d arbitrary: runs rule: print_loop.induct)
  case (2 nested c fmt va d)
  obtain r1 fmt' va' where i: "format_item nested c fmt va = Inr (r1, fmt', va')"
    using 2(2) by (cases "format_item nested c fmt va") (auto simp: format_runs.simps(2))
  then obtain r2 where r2: "format_runs nested fmt' va' = Inr r2" "runs = r1 @ r2"
    using 2(2) by (cases "format_runs nested fmt' va'") (auto simp: format_runs.simps(2))
  show ?case
  proof (cases "buffer_full d")
    case True
    then show ?thesis using 2(3,4) by (simp add: print_loop.simps(2) buffer_full_def)
  next
    case False
    have o: "pd_out (foldl put_run d r1) = take fin (pd_out d @ runs_text (pd_uni d) r1)" using put_runs_out 2(3,4) .
    have "\<exists>d'. print_loop nested fmt' va' (foldl put_run d r1) = Inr d' \<and>
        pd_out d' = take fin (pd_out (foldl put_run d r1) @ runs_text (pd_uni (foldl put_run d r1)) r2)"
      using 2(1) [OF False i refl refl r2(1)] 2(3) o by simp
    then show ?thesis using False i r2(2) by (auto simp: print_loop.simps(2) o take_append min_def)
  qed
qed simp

lemma print_loop_count:
  "format_runs nested fmt va = Inr runs \<Longrightarrow> pd_room d = None \<Longrightarrow>
   \<exists>d'. print_loop nested fmt va d = Inr d' \<and> pd_uni d' = pd_uni d \<and>
     pd_len d' = pd_len d + sum_list (map fst runs) * BytesPerOutputCharacter d"
proof (induction nested fmt va d arbitrary: runs rule: print_loop.induct)
  case (2 nested c fmt va d)
  obtain r1 fmt' va' where i: "format_item nested c fmt va = Inr (r1, fmt', va')"
    using 2(2) by (cases "format_item nested c fmt va") (auto simp: format_runs.simps(2))
  then obtain r2 where r2: "format_runs nested fmt' va' = Inr r2" "runs = r1 @ r2"
    using 2(2) by (cases "format_runs nested fmt' va'") (auto simp: format_runs.simps(2))
  have nf: "\<not> buffer_full d" using 2(3) by (simp add: buffer_full_def)
  show ?case using 2(1) [OF nf i refl refl r2(1)] 2(3) nf i r2(2)
    by (auto simp: print_loop.simps(2) algebra_simps)
qed simp

lemma print_loop_fits:
  "print_loop nested fmt va d = Inr d' \<Longrightarrow> pd_room d = Some fin \<Longrightarrow> length (pd_out d) \<le> fin \<Longrightarrow> length (pd_out d') \<le> fin"
proof (induction nested fmt va d rule: print_loop.induct)
  case (2 nested c fmt va d)
  show ?case
  proof (cases "buffer_full d")
    case False
    then obtain r1 fmt' va' where i: "format_item nested c fmt va = Inr (r1, fmt', va')"
      using 2(2) by (cases "format_item nested c fmt va") (auto simp: print_loop.simps(2))
    then show ?thesis using 2(1) [OF False i refl refl] 2(2,3,4) False by (simp add: print_loop.simps(2) put_runs_out)
  qed (use 2 in \<open>simp add: print_loop.simps(2)\<close>)
qed simp

lemma print_marker_runs:
  assumes "format_runs nested fmt va = Inr runs" and "0 < n" and "n \<le> RSIZE_MAX" and "length fmt \<le> RSIZE_MAX"
  shows "print_marker nested uni n fmt va = Inr (Some (take (n - 1) (runs_text uni runs)))"
  using print_loop_runs [OF assms(1), of "print_dst_of uni (Some (n - 1))" "n - 1"] assms(2-4)
  by (auto simp: print_marker_def print_dst_of_def)

section \<open>Digits read back\<close>

definition digit_value :: "u16 \<Rightarrow> nat" where
  "digit_value c = (if c \<le> wch CHR ''9'' then unat c - 48 else unat c - 55)"

definition text_value :: "nat \<Rightarrow> wtext \<Rightarrow> nat" where
  "text_value radix txt = foldl (\<lambda>v c. v * radix + digit_value c) 0 txt"

lemma hex_digit_cases: "d < 16 \<Longrightarrow> d \<in> {0, 1, 2, 3, 4, 5, 6, 7, 8, 9, 10, 11, 12, 13, 14, 15 :: nat}"
  by simp presburger

lemma mHexStr_digit: "d < 16 \<Longrightarrow> digit_value (mHexStr ! d) = d \<and> mHexStr ! d \<noteq> 0"
  by (drule hex_digit_cases) (auto simp: mHexStr_def wide_def digit_value_def)

lemma ValueToString_value:
  "2 \<le> radix \<Longrightarrow> radix \<le> 16 \<Longrightarrow> foldr (\<lambda>c v. v * radix + digit_value c) (BasePrintLibValueToString v radix) 0 = v"
proof (induction v radix rule: BasePrintLibValueToString.induct)
  case (1 v radix)
  have d: "digit_value (mHexStr ! (v mod radix)) = v mod radix" using mHexStr_digit [of "v mod radix"] 1(2,3)
    by (metis less_le_trans mod_less_divisor not_gr_zero not_numeral_le_zero)
  show ?case
  proof (cases "v div radix = 0")
    case True
    then show ?thesis using d 1(2) by (auto simp: BasePrintLibValueToString.simps [of v] div_eq_0_iff)
  next
    case False
    then show ?thesis using d 1 by (simp add: BasePrintLibValueToString.simps [of v])
  qed
qed

lemma ValueToString_nonzero:
  "2 \<le> radix \<Longrightarrow> radix \<le> 16 \<Longrightarrow> c \<in> set (BasePrintLibValueToString v radix) \<Longrightarrow> c \<noteq> 0"
proof (induction v radix rule: BasePrintLibValueToString.induct)
  case (1 v radix)
  have "mHexStr ! (v mod radix) \<noteq> 0" using mHexStr_digit [of "v mod radix"] 1(2,3)
    by (metis less_le_trans mod_less_divisor not_gr_zero not_numeral_le_zero)
  then show ?case using 1 by (auto simp: BasePrintLibValueToString.simps [of v] split: if_splits)
qed

lemma ValueToString_length:
  "2 \<le> radix \<Longrightarrow> v < 2 ^ k \<Longrightarrow> 0 < k \<Longrightarrow> length (BasePrintLibValueToString v radix) \<le> k"
proof (induction v radix arbitrary: k rule: BasePrintLibValueToString.induct)
  case (1 v radix)
  show ?case
  proof (cases "v div radix = 0")
    case False
    then obtain j where k: "k = Suc j" and j: "0 < j" using 1(2-4) by (cases k; cases "k - 1") (auto simp: div_eq_0_iff)
    have "v div radix \<le> v div 2" using 1(2) by (simp add: div_le_mono2)
    then have "v div radix < 2 ^ j" using 1(3) k by simp
    then show ?thesis using 1(1) [of j] False 1(2) k j by (simp add: BasePrintLibValueToString.simps [of v])
  qed (use 1 in \<open>simp add: BasePrintLibValueToString.simps [of v]\<close>)
qed

lemma value_text_value: "2 \<le> radix \<Longrightarrow> radix \<le> 16 \<Longrightarrow> text_value radix (value_text radix v) = unat v"
  by (simp add: text_value_def value_text_def foldl_conv_foldr ValueToString_value)

lemma value_text_nonzero: "2 \<le> radix \<Longrightarrow> radix \<le> 16 \<Longrightarrow> c \<in> set (value_text radix v) \<Longrightarrow> c \<noteq> 0"
  by (simp add: value_text_def ValueToString_nonzero)

lemma value_text_length: "2 \<le> radix \<Longrightarrow> length (value_text radix v) \<le> 64"
  using ValueToString_length [of radix "unat v" 64] unat_bound [of v] by (simp add: value_text_def)

lemma value_text_not_Nil [simp]: "value_text radix v \<noteq> []"
  by (simp add: value_text_def BasePrintLibValueToString.simps [of "unat v"])

section \<open>Text of a field\<close>

lemma small_difference: "x < 2 ^ 62 \<Longrightarrow> y < 2 ^ 62 \<Longrightarrow> nat (signed_take_bit 63 (int x - int y)) = x - y"
  by (subst signed_take_bit_int_eq_self) auto

lemma nat_sint_diff:
  "unat a < 2 ^ 62 \<Longrightarrow> unat b < 2 ^ 62 \<Longrightarrow> nat (sint (a - b :: u64)) = unat a - unat b"
proof -
  assume a: "unat a < 2 ^ 62" "unat b < 2 ^ 62"
  have "a - b = word_of_int (int (unat a) - int (unat b))" by simp
  then have "sint (a - b) = signed_take_bit 63 (int (unat a) - int (unat b))" by (simp only: signed_of_int len_bit0 len_num1) simp
  then show ?thesis using small_difference [OF a] by (simp only:)
qed

lemma unat_succ: "unat (i :: u64) < n \<Longrightarrow> n < 2 ^ 64 \<Longrightarrow> unat (i + 1) = unat i + 1"
  by (simp add: unat_word_ariths)

lemma copy_all:
  "(\<And>c. c \<in> set txt \<Longrightarrow> c \<noteq> 0) \<Longrightarrow> unat i + length txt \<le> unat count \<Longrightarrow> copy_arg False count i dg txt = map (Pair 1) txt"
proof (induction "txt" arbitrary: i)
  case (Cons c t)
  have "unat (i + 1) = unat i + 1" using unat_succ [of i "unat count"] Cons(3) unat_bound [of count] by simp
  then show ?case using Cons by (simp add: word_less_nat_alt)
qed simp

lemma runs_text_chars: "runs_text True (map (Pair 1) txt) = txt"
  by (induction "txt") (simp_all add: run_text_def)

lemma runs_text_ascii: "runs_text False runs = map (\<lambda>c. c AND 0xFF) (runs_text True runs)"
  by (induction runs) (auto simp: run_text_def)

lemma number_runs:
  assumes nz: "\<And>c. c \<in> set digits \<Longrightarrow> c \<noteq> 0" and n: "length digits \<le> 64" "digits \<noteq> []"
    and z: "PAD_TO_WIDTH sp \<longrightarrow> Z" and w: "unat (Width sp) < 2 ^ 62" and l: "\<not> LEFT_JUSTIFY sp"
    and p: "Precision sp = (if Z then Width sp else if prefix \<noteq> 0 then 2 else 1)"
    and count: "count = of_nat (length digits) + (if prefix \<noteq> 0 then 1 else 0)"
  shows "runs_text True (field_runs \<lparr>fd_spec = sp, fd_text = digits, fd_count = Some count, fd_prefix = prefix,
      fd_comma = False, fd_digits = dg\<rparr>) =
    (if prefix \<noteq> 0 then [prefix] else [])
      @ replicate ((if Z then unat (Width sp) else 0) - (length digits + (if prefix \<noteq> 0 then 1 else 0))) (wch CHR ''0'') @ digits"
proof -
  define P where "P = (if Precision sp < count then count else Precision sp)"
  have u: "unat count = length digits + (if prefix \<noteq> 0 then 1 else 0)"
    using n by (simp add: count unat_word_ariths unat_of_nat)
  have P: "unat P = (if Z then max (unat (Width sp)) (unat count) else unat count)"
    using n(2) by (cases digits) (auto simp: P_def p u word_less_nat_alt max_def)
  have b: "unat P < 2 ^ 62" "unat count < 2 ^ 62" using w n(1) by (auto simp: P u)
  have pad: "PAD_TO_WIDTH sp \<Longrightarrow> nat (sint (Width sp - P)) = 0"
    using z by (simp add: nat_sint_diff [OF w b(1)] P)
  have zeros: "nat (sint (P - count)) = (if Z then unat (Width sp) else 0) - unat count"
    by (simp add: nat_sint_diff [OF b] P max_def)
  have c: "copy_arg False count (if prefix \<noteq> 0 then 1 else 0) dg digits = map (Pair 1) digits"
    by (rule copy_all) (use nz u in auto)
  show ?thesis
    using l pad zeros by (auto simp: field_runs_def field_count_def c [simplified] P_def [symmetric] runs_text_chars run_text_def u)
qed

definition padded :: "nat \<Rightarrow> wtext \<Rightarrow> wtext" where
  "padded width d = replicate (width - length d) (wch CHR ''0'') @ d"

definition signed_text :: "nat \<Rightarrow> u64 \<Rightarrow> wtext" where
  "signed_text width v = (if v <s 0 then wch CHR ''-'' # padded (width - 1) (value_text 10 (- v)) else padded width (value_text 10 v))"

definition plain_spec :: "print_spec \<Rightarrow> bool" where
  "plain_spec sp \<longleftrightarrow> \<not> LEFT_JUSTIFY sp \<and> \<not> PREFIX_SIGN sp \<and> \<not> PREFIX_BLANK sp \<and> \<not> COMMA_TYPE sp \<and> \<not> PRECISION sp \<and>
     Precision sp = 1 \<and> unat (Width sp) < 2 ^ 62 \<and> (PAD_TO_WIDTH sp \<longrightarrow> PREFIX_ZERO sp)"

definition field_width :: "print_spec \<Rightarrow> nat" where
  "field_width sp = (if PAD_TO_WIDTH sp then unat (Width sp) else 0)"

lemma number_digits_one [simp]: "Precision sp = 1 \<Longrightarrow> number_digits sp radix v = value_text radix v"
  by (simp add: number_digits_def)

lemma digits_ok:
  "c \<in> set (value_text 10 v) \<Longrightarrow> c \<noteq> 0" "c \<in> set (value_text 16 v) \<Longrightarrow> c \<noteq> 0"
  "length (value_text 10 v) \<le> 64" "length (value_text 16 v) \<le> 64"
  using value_text_nonzero [of 10 c v] value_text_nonzero [of 16 c v] value_text_length [of 10 v] value_text_length [of 16 v] by auto

lemma number_text_d:
  assumes "plain_spec sp"
  shows "runs_text True (field_runs (number_field (wch CHR ''d'') sp w)) = signed_text (field_width sp) (number_value sp w)"
proof -
  let ?v = "number_value sp w" let ?neg = "?v <s 0" let ?d = "value_text 10 (if ?neg then - ?v else ?v)"
  let ?prefix = "if ?neg then wch CHR ''-'' else 0" let ?Z = "PREFIX_ZERO sp \<and> PAD_TO_WIDTH sp"
  let ?sp = "sp\<lparr>Precision := if ?Z then Width sp else if ?prefix \<noteq> 0 then 2 else 1\<rparr>"
  have "number_field (wch CHR ''d'') sp w = \<lparr>fd_spec = ?sp, fd_text = ?d,
      fd_count = Some (of_nat (length ?d) + (if ?prefix \<noteq> 0 then 1 else 0)), fd_prefix = ?prefix, fd_comma = False,
      fd_digits = (if length ?d mod 3 \<noteq> 0 then 3 - length ?d mod 3 else 0)\<rparr>"
    using assms by (simp add: number_field_def number_spec_def is_hex_def plain_spec_def Let_def)
  moreover have "c \<in> set ?d \<Longrightarrow> c \<noteq> 0" for c by (rule digits_ok)
  moreover have "length ?d \<le> 64" by (rule digits_ok)
  ultimately show ?thesis using assms number_runs [of ?d ?sp ?Z ?prefix "of_nat (length ?d) + (if ?prefix \<noteq> 0 then 1 else 0)"]
    by (auto simp: plain_spec_def signed_text_def padded_def field_width_def)
qed

lemma bit_31: "n < 32 \<Longrightarrow> 31 \<le> n \<Longrightarrow> n = (31::nat)" by simp

lemma low_half_scast [simp]: "low_half (scast (ucast w :: u32)) = low_half w"
  unfolding low_half_def by (rule arg_cong [where f = ucast]) (rule bit_word_eqI, auto simp: bit_simps min_def dest: bit_31)

lemma low_half_value: "\<not> (scast (ucast (w :: u64) :: u32) :: u64) <s 0 \<Longrightarrow> scast (ucast w :: u32) = low_half w"
proof -
  define x where "x = (ucast w :: u32)"
  assume "\<not> (scast (ucast w :: u32) :: u64) <s 0"
  then have "\<not> bit (scast x :: u64) 63" using bit_last_iff [of "scast x :: u64"] by (simp add: word_sless_alt x_def)
  then have x: "\<not> bit x 31" by (simp add: bit_simps)
  have b: "bit x n \<Longrightarrow> n < 31" for n using bit_imp_le_length [of x n] x by (cases "n = 31") auto
  have "scast x = (ucast x :: u64)" using x by (intro bit_word_eqI) (auto simp: bit_simps min_def not_less dest: b)
  then show ?thesis by (simp add: low_half_def x_def)
qed

lemma hex_value: "(if \<not> LONG_TYPE s \<and> number_value s w <s 0 then low_half (number_value s w) else number_value s w) =
   (if LONG_TYPE s then w else low_half w)"
  using low_half_value [of w] by (auto simp: number_value_def)

lemma number_text_u:
  assumes "plain_spec sp"
  shows "runs_text True (field_runs (number_field (wch CHR ''u'') sp w)) =
    padded (field_width sp) (value_text 10 (if LONG_TYPE sp then w else low_half w))"
proof -
  let ?d = "value_text 10 (if LONG_TYPE sp then w else low_half w)" let ?Z = "PREFIX_ZERO sp \<and> PAD_TO_WIDTH sp"
  let ?sp = "sp\<lparr>PREFIX_SIGN := False, Precision := if ?Z then Width sp else 1\<rparr>"
  have "number_field (wch CHR ''u'') sp w = \<lparr>fd_spec = ?sp, fd_text = ?d, fd_count = Some (of_nat (length ?d)), fd_prefix = 0,
      fd_comma = False, fd_digits = (if length ?d mod 3 \<noteq> 0 then 3 - length ?d mod 3 else 0)\<rparr>"
    using assms by (simp add: number_field_def number_spec_def number_value_def is_hex_def plain_spec_def Let_def)
  moreover have "c \<in> set ?d \<Longrightarrow> c \<noteq> 0" for c by (rule digits_ok)
  moreover have "length ?d \<le> 64" by (rule digits_ok)
  ultimately show ?thesis using assms number_runs [of ?d ?sp ?Z 0 "of_nat (length ?d)"]
    by (auto simp: plain_spec_def padded_def field_width_def)
qed

lemma hex_field:
  assumes "is_hex c" "c \<noteq> wch CHR ''u''" "\<not> COMMA_TYPE (number_spec c sp)" "\<not> PREFIX_SIGN (number_spec c sp)"
    "\<not> PREFIX_BLANK (number_spec c sp)" "Precision (number_spec c sp) = 1" "\<not> LEFT_JUSTIFY (number_spec c sp)" "\<not> PRECISION (number_spec c sp)"
  shows "number_field c sp w = (let s = number_spec c sp; d = value_text 16 (if LONG_TYPE s then w else low_half w)
    in \<lparr>fd_spec = s\<lparr>Precision := if PREFIX_ZERO s \<and> PAD_TO_WIDTH s then Width s else 1\<rparr>, fd_text = d, fd_count = Some (of_nat (length d)),
        fd_prefix = 0, fd_comma = False, fd_digits = (if length d mod 3 \<noteq> 0 then 3 - length d mod 3 else 0)\<rparr>)"
  using assms hex_value [of "number_spec c sp" w]
  by (simp add: number_field_def Let_def del: mod_greater_zero_iff_not_dvd)

lemma number_text_x:
  assumes "plain_spec sp" and c: "is_hex c"
  shows "runs_text True (field_runs (number_field c sp w)) =
    padded (field_width sp) (value_text 16 (if LONG_TYPE sp \<or> c = wch CHR ''p'' then w else low_half w))"
proof -
  define s where "s = number_spec c sp"
  define d where "d = value_text 16 (if LONG_TYPE s then w else low_half w)"
  let ?Z = "PREFIX_ZERO s \<and> PAD_TO_WIDTH s"
  let ?sp = "s\<lparr>Precision := if ?Z then Width s else 1\<rparr>"
  have s: "LONG_TYPE s \<longleftrightarrow> LONG_TYPE sp \<or> c = wch CHR ''p''" "\<not> COMMA_TYPE s" "\<not> PREFIX_SIGN s" "\<not> PREFIX_BLANK s" "Precision s = 1"
    "\<not> LEFT_JUSTIFY s" "\<not> PRECISION s" "PAD_TO_WIDTH s = PAD_TO_WIDTH sp" "Width s = Width sp" "c \<noteq> wch CHR ''u''"
    "PAD_TO_WIDTH sp \<longrightarrow> PREFIX_ZERO s"
    using assms by (auto simp: number_spec_def plain_spec_def is_hex_def s_def)
  have d: "length d \<le> 64" "d \<noteq> []" "\<And>c. c \<in> set d \<Longrightarrow> c \<noteq> 0" using digits_ok(2,4) by (simp_all add: d_def)
  have f: "number_field c sp w = \<lparr>fd_spec = ?sp, fd_text = d, fd_count = Some (of_nat (length d)), fd_prefix = 0, fd_comma = False,
      fd_digits = (if length d mod 3 \<noteq> 0 then 3 - length d mod 3 else 0)\<rparr>"
    unfolding d_def using hex_field [OF c s(10), of sp w] s(2-7) by (simp only: s_def Let_def simp_thms)
  have "runs_text True (field_runs (number_field c sp w)) = padded (field_width sp) d"
    unfolding f by (subst number_runs [where Z = ?Z])
      (use d s assms(1) in \<open>auto simp: plain_spec_def padded_def field_width_def\<close>)
  then show ?thesis by (simp only: d_def s(1))
qed

section \<open>Text of a format\<close>

definition format_text :: "nested_print \<Rightarrow> wtext \<Rightarrow> va list \<Rightarrow> fault + wtext" where
  "format_text nested fmt va = map_sum id (runs_text True) (format_runs nested fmt va)"

lemma cstr_id: "(\<And>c. c \<in> set t \<Longrightarrow> c \<noteq> 0) \<Longrightarrow> cstr t = t"
  unfolding cstr_def by (rule takeWhile_eq_all_conv [THEN iffD2]) blast

lemma cstr_nonzero: "c \<in> set (cstr t) \<Longrightarrow> c \<noteq> 0"
  by (auto simp: cstr_def dest: set_takeWhileD)

lemma cstr_cstr [simp]: "cstr (cstr t) = cstr t"
  by (rule cstr_id) (rule cstr_nonzero)

lemma text_runs:
  assumes "\<not> PAD_TO_WIDTH sp" and "\<not> PRECISION sp" and "unat (Precision sp) \<le> length t"
    and nz: "\<And>c. c \<in> set t \<Longrightarrow> c \<noteq> 0" and len: "length t < 2 ^ 62"
  shows "runs_text True (field_runs (text_field sp t)) = t"
proof -
  let ?n = "of_nat (length t) :: u64"
  have n: "unat ?n = length t" using len by (simp add: unat_of_nat)
  have c: "copy_arg False ?n 0 0 t = map (Pair 1) t" by (rule copy_all) (use nz n in auto)
  have "(if Precision sp < ?n then ?n else Precision sp) = ?n" using assms(3) n
    by (metis le_neq_implies_less word_less_nat_alt word_unat_eq_iff)
  then show ?thesis using assms(1,2) cstr_id [OF nz]
    by (simp add: field_runs_def field_count_def text_field_def Let_def c runs_text_chars run_text_def)
qed

lemma string_runs:
  "\<not> PAD_TO_WIDTH sp \<Longrightarrow> \<not> PRECISION sp \<Longrightarrow> length (cstr t) < 2 ^ 62 \<Longrightarrow>
   runs_text True (field_runs (string_field sp (Some t))) = cstr t"
  unfolding string_field_def by (simp add: text_runs cstr_nonzero)

lemma format_text_Nil [simp]: "format_text nested [] va = Inr []"
  by (simp add: format_text_def)

lemma format_text_item:
  "format_item nested c fmt va = Inr (runs, fmt', va') \<Longrightarrow>
   format_text nested (c # fmt) va = map_sum id ((@) (runs_text True runs)) (format_text nested fmt' va')"
  by (cases "format_runs nested fmt' va'") (simp_all add: format_text_def format_runs.simps(2))

definition plain_char :: "u16 \<Rightarrow> bool" where
  "plain_char c \<longleftrightarrow> c \<noteq> 0 \<and> c \<noteq> 10 \<and> c \<noteq> 13 \<and> c \<noteq> wch CHR ''%''"

lemma format_text_char:
  "plain_char c \<Longrightarrow> format_text nested (c # fmt) va = map_sum id ((#) c) (format_text nested fmt va)"
proof -
  assume c: "plain_char c"
  then have i: "format_item nested c fmt va = Inr (field_runs (text_field no_spec [c]), fmt, va)"
    by (simp add: format_item_def plain_char_def plain_text_def)
  have "runs_text True (field_runs (text_field no_spec [c])) = [c]"
    by (rule text_runs) (use c in \<open>auto simp: no_spec_def plain_char_def\<close>)
  then show ?thesis by (simp only: format_text_item [OF i]) (simp add: append_Cons [abs_def])
qed

lemma format_text_percent:
  assumes "parse_spec fmt va no_spec = Inr (fmt', va', sp)" and "convert nested fmt' va' sp = Inr (fd, fmt'', va'')"
  shows "format_text nested (wch CHR ''%'' # fmt) va = map_sum id ((@) (runs_text True (field_runs fd))) (format_text nested fmt'' va'')"
  by (rule format_text_item) (simp add: format_item_def assms)

lemma format_text_d:
  assumes "parse_spec fmt va no_spec = Inr (wch CHR ''d'' # fmt', VaWord w # va', sp)" and "plain_spec sp"
  shows "format_text nested (wch CHR ''%'' # fmt) va =
    map_sum id ((@) (signed_text (field_width sp) (number_value sp w))) (format_text nested fmt' va')"
  unfolding number_text_d [OF assms(2), symmetric]
  by (rule format_text_percent [OF assms(1)]) (simp add: convert_def ch_def is_hex_def field_of_def Let_def)

lemma format_text_u:
  assumes "parse_spec fmt va no_spec = Inr (wch CHR ''u'' # fmt', VaWord w # va', sp)" and "plain_spec sp"
  shows "format_text nested (wch CHR ''%'' # fmt) va =
    map_sum id ((@) (padded (field_width sp) (value_text 10 (if LONG_TYPE sp then w else low_half w)))) (format_text nested fmt' va')"
  unfolding number_text_u [OF assms(2), symmetric]
  by (rule format_text_percent [OF assms(1)]) (simp add: convert_def ch_def is_hex_def field_of_def Let_def)

lemma format_text_x:
  assumes "parse_spec fmt va no_spec = Inr (c # fmt', VaWord w # va', sp)" and "plain_spec sp" and "is_hex c"
  shows "format_text nested (wch CHR ''%'' # fmt) va =
    map_sum id ((@) (padded (field_width sp) (value_text 16 (if LONG_TYPE sp \<or> c = wch CHR ''p'' then w else low_half w))))
      (format_text nested fmt' va')"
  unfolding number_text_x [OF assms(2,3), symmetric]
  by (rule format_text_percent [OF assms(1)]) (use assms(3) in \<open>simp add: convert_def ch_def field_of_def Let_def\<close>)

lemma format_text_s:
  assumes "parse_spec fmt va no_spec = Inr (wch CHR ''s'' # fmt', VaWide (Some t) # va', sp)"
    and "\<not> PAD_TO_WIDTH sp" and "\<not> PRECISION sp" and "length (cstr t) < 2 ^ 62"
  shows "format_text nested (wch CHR ''%'' # fmt) va = map_sum id ((@) (cstr t)) (format_text nested fmt' va')"
proof -
  have "convert nested (wch CHR ''s'' # fmt') (VaWide (Some t) # va') sp = Inr (string_field sp (Some t), fmt', va')"
    by (simp add: convert_def ch_def is_hex_def field_of_def Let_def)
  from format_text_percent [OF assms(1) this] show ?thesis by (simp only: string_runs [OF assms(2-4)])
qed

lemma marker_text:
  "format_text BasePrintLibSPrint fmt va = Inr t \<Longrightarrow> 0 < n \<Longrightarrow> n \<le> RSIZE_MAX \<Longrightarrow> length fmt \<le> RSIZE_MAX \<Longrightarrow>
   BasePrintLibSPrintMarker True n fmt va = Inr (Some (take (n - 1) t))"
  by (cases "format_runs BasePrintLibSPrint fmt va")
    (auto simp: format_text_def BasePrintLibSPrintMarker_def print_marker_runs)

lemmas parse_eval = parse_spec.simps set_flag_def is_digit_def set_number_def zero_flag_def no_spec_def

lemmas spec_eval = plain_spec_def field_width_def number_value_def

lemma print_d: "format_text nested (wide ''%lld'') [VaWord v] = Inr (signed_text 0 v)"
proof -
  have "parse_spec (wide ''lld'') [VaWord v] no_spec = Inr (wch CHR ''d'' # [], [VaWord v], no_spec\<lparr>LONG_TYPE := True\<rparr>)"
    by (simp add: wide_def parse_eval)
  from format_text_d [OF this] show ?thesis by (simp add: spec_eval no_spec_def wide_def)
qed

lemma print_loop_extends:
  "print_loop nested fmt va d = Inr d' \<Longrightarrow> pd_room d = Some fin \<Longrightarrow> length (pd_out d) \<le> fin \<Longrightarrow> \<exists>x. pd_out d' = pd_out d @ x"
proof (induction nested fmt va d rule: print_loop.induct)
  case (2 nested c fmt va d)
  show ?case
  proof (cases "buffer_full d")
    case False
    then obtain r1 fmt' va' where i: "format_item nested c fmt va = Inr (r1, fmt', va')"
      using 2(2) by (cases "format_item nested c fmt va") (auto simp: print_loop.simps(2))
    have o: "pd_out (foldl put_run d r1) = pd_out d @ take (fin - length (pd_out d)) (runs_text (pd_uni d) r1)"
      using put_runs_out [OF 2(3,4), of r1] 2(4) by simp
    then have "\<exists>x. pd_out d' = pd_out (foldl put_run d r1) @ x"
      using 2(1) [OF False i refl refl] 2(2-4) False i by (simp add: print_loop.simps(2))
    then show ?thesis by (auto simp: o)
  qed (use 2 in \<open>simp add: print_loop.simps(2)\<close>)
qed simp

lemma print_loop_prefix:
  "print_loop nested fmt va d = Inr d1 \<Longrightarrow> print_loop nested fmt va e = Inr e1 \<Longrightarrow> pd_room d = Some m \<Longrightarrow> pd_room e = Some n \<Longrightarrow>
   m \<le> n \<Longrightarrow> pd_uni d = pd_uni e \<Longrightarrow> length (pd_out e) \<le> n \<Longrightarrow> pd_out d = take m (pd_out e) \<Longrightarrow> pd_out d1 = take m (pd_out e1)"
proof (induction nested fmt va d arbitrary: e rule: print_loop.induct)
  case (2 nested c fmt va d)
  note p = 2(2-9)
  show ?case
  proof (cases "buffer_full d")
    case full: True
    then have l: "m \<le> length (pd_out e)" using p by (simp add: buffer_full_def)
    have "\<exists>x. pd_out e1 = pd_out e @ x" using print_loop_extends [OF p(2,4,7)] .
    then show ?thesis using full l p by (auto simp: print_loop.simps(2))
  next
    case False
    then have e: "\<not> buffer_full e" using p by (auto simp: buffer_full_def)
    obtain r1 fmt' va' where i: "format_item nested c fmt va = Inr (r1, fmt', va')"
      using p(1) False by (cases "format_item nested c fmt va") (auto simp: print_loop.simps(2))
    have d: "pd_out (foldl put_run d r1) = take m (pd_out d @ runs_text (pd_uni d) r1)"
      by (rule put_runs_out) (use p in auto)
    have e': "pd_out (foldl put_run e r1) = take n (pd_out e @ runs_text (pd_uni e) r1)"
      by (rule put_runs_out) (use p in auto)
    show ?thesis
      by (rule 2(1) [OF False i refl refl, where e = "foldl put_run e r1"])
        (use p i False e d e' in \<open>auto simp: print_loop.simps(2) take_append min_def\<close>)
  qed
qed auto

section \<open>Reading numbers back, and commas\<close>

definition signed_value :: "wtext \<Rightarrow> int" where
  "signed_value t = (if ch t = wch CHR ''-'' then - int (text_value 10 (tl t)) else int (text_value 10 t))"

lemma digit_not_sign: "d < 16 \<Longrightarrow> mHexStr ! d \<noteq> wch CHR ''-''"
  by (drule hex_digit_cases) (auto simp: mHexStr_def wide_def)

lemma ValueToString_not_sign: "c \<in> set (BasePrintLibValueToString v 10) \<Longrightarrow> c \<noteq> wch CHR ''-''"
proof (induction v "10 :: nat" rule: BasePrintLibValueToString.induct)
  case (1 v)
  have "mHexStr ! (v mod 10) \<noteq> wch CHR ''-''" by (rule digit_not_sign) (use mod_less_divisor [of 10 v] in simp)
  then show ?case using 1 by (auto simp: BasePrintLibValueToString.simps [of v] split: if_splits)
qed

lemma ch_value_text: "ch (value_text 10 v) \<noteq> wch CHR ''-''"
  by (cases "value_text 10 v")
    (use ValueToString_not_sign [of _ "unat v"] in \<open>auto simp: ch_def value_text_def [symmetric] simp flip: set_rev [of "BasePrintLibValueToString (unat v) 10"]\<close>)

lemma ValueToString_digits:
  "2 \<le> radix \<Longrightarrow> v < radix ^ k \<Longrightarrow> 0 < k \<Longrightarrow> length (BasePrintLibValueToString v radix) \<le> k"
proof (induction v radix arbitrary: k rule: BasePrintLibValueToString.induct)
  case (1 v radix)
  show ?case
  proof (cases "v div radix = 0")
    case False
    then obtain j where k: "k = Suc j" and j: "0 < j" using 1(2-4) by (cases k; cases "k - 1") (auto simp: div_eq_0_iff)
    have "v div radix < radix ^ j" using 1(2,3) k by (simp add: less_mult_imp_div_less mult.commute)
    then show ?thesis using 1(1) [of j] False 1(2) k j by (simp add: BasePrintLibValueToString.simps [of v])
  qed (use 1 in \<open>simp add: BasePrintLibValueToString.simps [of v]\<close>)
qed

lemma decimal_length: "length (value_text 10 v) \<le> 20"
  using ValueToString_digits [of 10 "unat v" 20] unat_bound [of v] by (simp add: value_text_def)

lemma hex_length: "length (value_text 16 v) \<le> 16"
  using ValueToString_digits [of 16 "unat v" 16] unat_bound [of v] by (simp add: value_text_def)

lemma sint_bounds: "- (2 ^ 63) \<le> sint (v :: u64)" "sint v < 2 ^ 63"
  using sint_ge [of v] sint_lt [of v] by simp_all

lemma uint_of_small: "0 \<le> k \<Longrightarrow> k < 2 ^ 64 \<Longrightarrow> uint (word_of_int k :: u64) = k"
  by (simp add: unsigned_of_int take_bit_int_eq_self)

lemma uint_minus_neg: "v <s 0 \<Longrightarrow> uint (- v :: u64) = - sint v"
  using uint_of_small [of "- sint v"] sint_bounds [of v] by (simp add: word_sless_alt)

lemma uint_nonneg: "\<not> v <s 0 \<Longrightarrow> uint (v :: u64) = sint v"
  using uint_of_small [of "sint v"] sint_bounds [of v] by (simp add: word_sless_alt)

lemma signed_text_value: "signed_value (signed_text 0 v) = sint v"
  using value_text_value [of 10] ch_value_text [of v] 
  by (auto simp: signed_text_def signed_value_def padded_def uint_minus_neg uint_nonneg ch_def)

lemma signed_text_length: "length (signed_text 0 v) \<le> 21"
  using decimal_length [of v] decimal_length [of "- v"] by (simp add: signed_text_def padded_def)

lemma print_x: "format_text nested (wide ''%llx'') [VaWord v] = Inr (value_text 16 v)"
proof -
  have "parse_spec (wide ''llx'') [VaWord v] no_spec = Inr (wch CHR ''x'' # [], [VaWord v], no_spec\<lparr>LONG_TYPE := True\<rparr>)"
    by (simp add: wide_def parse_eval)
  from format_text_x [OF this] show ?thesis by (simp add: spec_eval no_spec_def wide_def is_hex_def padded_def)
qed

lemma take_whole: "length t \<le> n \<Longrightarrow> take n t = t"
  by simp

lemma number_runs_sum:
  assumes nz: "\<And>c. c \<in> set digits \<Longrightarrow> c \<noteq> 0" and n: "length digits \<le> 64"
    and count: "count = of_nat (length digits) + (if prefix \<noteq> 0 then 1 else 0)"
    and p: "PAD_TO_WIDTH sp" "\<not> LEFT_JUSTIFY sp"
  shows "sum_list (map fst (field_runs \<lparr>fd_spec = sp, fd_text = digits, fd_count = Some count, fd_prefix = prefix,
      fd_comma = False, fd_digits = dg\<rparr>)) = Width sp"
proof -
  have u: "unat count = length digits + (if prefix \<noteq> 0 then 1 else 0)" using n by (simp add: count unat_word_ariths unat_of_nat)
  have "copy_arg False count (if prefix \<noteq> 0 then 1 else 0) dg digits = map (Pair 1) digits"
    by (rule copy_all) (use nz u in auto)
  moreover have "sum_list (map fst (map (Pair (1 :: u64)) digits)) = of_nat (length digits)" by (induction digits) auto
  ultimately show ?thesis using p by (auto simp: field_runs_def field_count_def Let_def count)
qed

lemma format_runs_one:
  "format_item nested c fmt va = Inr (runs, [], va') \<Longrightarrow> format_runs nested (c # fmt) va = Inr runs"
  by (simp add: format_runs.simps(2))


lemma copy_commas:
  "(\<And>c. c \<in> set t \<Longrightarrow> c \<noteq> 0) \<Longrightarrow> unat i + length (comma_loop True k t) = unat count \<Longrightarrow> unat count < 2 ^ 62 \<Longrightarrow>
   copy_arg True count i k t = map (Pair 1) (comma_loop True k t)"
proof (induction t arbitrary: i k)
  case (Cons c t)
  note b = Cons(4)
  then have i: "i < count" "unat (i + 1) = unat i + 1" using Cons(3) by (auto simp: word_less_nat_alt unat_word_ariths split: if_splits)
  show ?case
  proof (cases "k + 1 = 3")
    case True
    show ?thesis
    proof (cases "t = []")
      case False
      then obtain m where l: "length (comma_loop True 0 t) = Suc m" by (cases t) auto
      have u: "unat (i + 2) = unat i + 2" using Cons(3) b True False l by (simp add: unat_word_ariths)
      have c: "copy_arg True count (i + 2) 0 t = map (Pair 1) (comma_loop True 0 t)"
        by (rule Cons(1)) (use Cons(2-4) True False u in auto)
      have "i + 2 < count" using Cons(3) True False u l by (simp add: word_less_nat_alt)
      then show ?thesis using Cons(2) i True False c by simp
    next
      case t: True
      then have "unat count = unat i + 1" using Cons(3) True by simp
      then have "\<not> i + 2 < count" using b by (auto simp: word_less_nat_alt unat_word_ariths)
      then show ?thesis using t i Cons(2) True by simp
    qed
  next
    case False
    then show ?thesis using Cons i by auto
  qed
qed simp

lemma comma_loop_length: "t \<noteq> [] \<Longrightarrow> k < 3 \<Longrightarrow> length (comma_loop True k t) = length t + (length t - 1 + k) div 3"
proof (induction t arbitrary: k)
  case (Cons c t)
  show ?case
  proof (cases "t = []")
    case False
    then obtain m where m: "length t = Suc m" by (cases t) auto
    then show ?thesis using Cons(1) [OF False, of 0] Cons(1) [OF False, of "k + 1"] Cons(3) False by auto
  qed (use Cons(3) in auto)
qed simp

lemma take_take_append: "take n (take n a @ b) = take n (a @ b)"
  by (simp add: take_append min_def)

lemma put_chars_take: "length out \<le> fin \<Longrightarrow> put_chars True fin t out = take fin (out @ t)"
proof (induction t arbitrary: out)
  case (Cons c t)
  have f: "BasePrintLibFillBuffer True fin 1 c out = take fin (out @ [c])"
    using fill_take [OF Cons(2), of True 1 c] by (simp add: run_text_def)
  have "put_chars True fin (c # t) out = put_chars True fin t (take fin (out @ [c]))" by (simp add: put_chars_def f)
  also have "\<dots> = take fin (take fin (out @ [c]) @ t)" by (rule Cons(1)) simp
  finally show ?case using take_take_append [of fin "out @ [c]" t] by simp
qed (simp add: put_chars_def)

text \<open>The digits of a value with commas, and its sign.\<close>

definition comma_text :: "bool \<Rightarrow> u64 \<Rightarrow> wtext" where
  "comma_text comma v = (let d = value_text 10 (if v <s 0 then - v else v)
     in (if v <s 0 then [wch CHR ''-''] else []) @ comma_loop comma (if length d mod 3 \<noteq> 0 then 3 - length d mod 3 else 0) d)"

lemma comma_loop_False: "comma_loop False k t = t"
  by (induction t arbitrary: k) auto

lemma comma_count: "t \<noteq> [] \<Longrightarrow>
  length (comma_loop True (if length t mod 3 \<noteq> 0 then 3 - length t mod 3 else 0) t) = length t + (length t - 1) div 3"
proof -
  assume t: "t \<noteq> []"
  then obtain n where n: "length t = Suc n" by (cases t) auto
  define k where "k = (if Suc n mod 3 \<noteq> 0 then 3 - Suc n mod 3 else 0)"
  have "k < 3 \<and> (n + k) div 3 = n div 3" unfolding k_def by presburger
  then show ?thesis using comma_loop_length [OF t, of k] n unfolding k_def n by simp
qed

lemma comma_loop_nonzero: "(\<And>c. c \<in> set t \<Longrightarrow> c \<noteq> 0) \<Longrightarrow> c \<in> set (comma_loop comma k t) \<Longrightarrow> c \<noteq> 0"
  by (induction t arbitrary: k) (auto split: if_splits)

lemma comma_field:
  "number_field (wch CHR ''d'') (no_spec\<lparr>COMMA_TYPE := comma, LONG_TYPE := True\<rparr>) v =
   (let neg = (v <s 0); d = value_text 10 (if neg then - v else v); n = length d
    in \<lparr>fd_spec = no_spec\<lparr>COMMA_TYPE := comma, LONG_TYPE := True, Precision := if neg then 2 else 1\<rparr>, fd_text = d,
        fd_count = Some (of_nat (n + (if comma then (n - 1) div 3 else 0)) + (if neg then 1 else 0)),
        fd_prefix = (if neg then wch CHR ''-'' else 0), fd_comma = comma,
        fd_digits = (if n mod 3 \<noteq> 0 then 3 - n mod 3 else 0)\<rparr>)"
  by (cases comma) (simp_all add: number_field_def number_spec_def number_value_def is_hex_def no_spec_def Let_def)

lemma comma_text_False: "comma_text False v = signed_text 0 v"
  by (simp add: comma_text_def signed_text_def comma_loop_False padded_def Let_def)

lemma comma_text_count:
  "length (comma_text comma v) = (let d = value_text 10 (if v <s 0 then - v else v)
     in length d + (if v <s 0 then 1 else 0) + (if comma then (length d - 1) div 3 else 0))"
proof -
  define d where "d = value_text 10 (if v <s 0 then - v else v)"
  define k where "k = (if length d mod 3 \<noteq> 0 then 3 - length d mod 3 else 0)"
  have "d \<noteq> []" by (simp add: d_def)
  from comma_count [OF this, folded k_def]
  have "length ((if v <s 0 then [wch CHR ''-''] else []) @ comma_loop comma k d) =
      length d + (if v <s 0 then 1 else 0) + (if comma then (length d - 1) div 3 else 0)"
    by (cases comma) (simp_all add: comma_loop_False)
  then show ?thesis by (simp only: comma_text_def d_def k_def Let_def)
qed

lemma comma_text_length: "length (comma_text comma v) \<le> 27"
proof -
  define d where "d = value_text 10 (if v <s 0 then - v else v)"
  have "length d \<le> 20" using decimal_length by (simp add: d_def)
  moreover from this have "(length d - 1) div 3 \<le> 6" using div_le_mono [of "length d - 1" 19 3] by simp
  ultimately have "length d + (if v <s 0 then 1 else 0) + (if comma then (length d - 1) div 3 else 0) \<le> 27" by auto
  then show ?thesis by (simp only: comma_text_count Let_def d_def)
qed

lemma comma_runs:
  "runs_text True (field_runs (number_field (wch CHR ''d'') (no_spec\<lparr>COMMA_TYPE := True, LONG_TYPE := True\<rparr>) v)) = comma_text True v"
proof -
  define neg where "neg = (v <s 0)"
  define d where "d = value_text 10 (if neg then - v else v)"
  define k where "k = (if length d mod 3 \<noteq> 0 then 3 - length d mod 3 else 0)"
  define count where "count = (of_nat (length d + (length d - 1) div 3) + (if neg then 1 else 0) :: u64)"
  have d: "length d \<le> 20" "d \<noteq> []" "\<And>c. c \<in> set d \<Longrightarrow> c \<noteq> 0" using digits_ok(1) decimal_length by (simp_all add: d_def)
  have l: "length (comma_loop True k d) = length d + (length d - 1) div 3" unfolding k_def by (rule comma_count [OF d(2)])
  have u: "unat count = length d + (length d - 1) div 3 + (if neg then 1 else 0)" using d(1) by (simp add: count_def unat_word_ariths unat_of_nat)
  have c: "copy_arg True count (if neg then 1 else 0) k d = map (Pair 1) (comma_loop True k d)"
    by (rule copy_commas) (use d u l in auto)
  have p: "neg \<Longrightarrow> 2 \<le> count" "\<not> neg \<Longrightarrow> 1 \<le> count" using d(2) u by (cases d; simp add: word_le_nat_alt)+
  have q: "neg \<Longrightarrow> (if 2 < count then count else 2) = count" "\<not> neg \<Longrightarrow> (if 1 < count then count else 1) = count"
    using p by (auto simp: order_le_less)
  have "number_field (wch CHR ''d'') (no_spec\<lparr>COMMA_TYPE := True, LONG_TYPE := True\<rparr>) v =
    \<lparr>fd_spec = no_spec\<lparr>COMMA_TYPE := True, LONG_TYPE := True, Precision := if neg then 2 else 1\<rparr>, fd_text = d,
      fd_count = Some count, fd_prefix = (if neg then wch CHR ''-'' else 0), fd_comma = True, fd_digits = k\<rparr>"
    using comma_field [of True v] by (simp only: neg_def d_def k_def count_def Let_def if_True)
  moreover have "comma_text True v = (if neg then [wch CHR ''-''] else []) @ comma_loop True k d"
    by (simp only: comma_text_def neg_def d_def k_def Let_def)
  ultimately show ?thesis
    using c q by (cases neg) (simp_all add: field_runs_def field_count_def no_spec_def runs_text_chars run_text_def Let_def, auto split: if_splits)
qed

lemma print_comma: "format_text nested (wide ''%,lld'') [VaWord v] = Inr (comma_text True v)"
proof -
  let ?sp = "no_spec\<lparr>COMMA_TYPE := True, LONG_TYPE := True\<rparr>"
  have a: "parse_spec (wide '',lld'') [VaWord v] no_spec = Inr (wch CHR ''d'' # [], [VaWord v], ?sp)"
    by (simp add: wide_def parse_eval)
  have b: "convert nested (wch CHR ''d'' # []) [VaWord v] ?sp = Inr (number_field (wch CHR ''d'') ?sp v, [], [])"
    by (simp add: convert_def ch_def is_hex_def field_of_def Let_def)
  have w: "wide ''%,lld'' = wch CHR ''%'' # wide '',lld''" by (simp add: wide_def)
  show ?thesis unfolding w by (subst format_text_percent [OF a b]) (simp only: comma_runs format_text_Nil map_sum.simps append_Nil2)
qed

section \<open>The contract of the printing functions\<close>

text \<open>
  What a caller relies on: the text and its terminator fit the buffer, and a smaller
  buffer gets the beginning of what a larger one gets.
\<close>

locale bounded_print =
  fixes pr :: "nat \<Rightarrow> 'f \<Rightarrow> va list \<Rightarrow> fault + 'c list option"
  assumes bounded: "pr n f a = Inr (Some t) \<Longrightarrow> length t < n"
    and truncates: "n \<le> m \<Longrightarrow> pr n f a = Inr (Some s) \<Longrightarrow> pr m f a = Inr (Some t) \<Longrightarrow> s = take (n - 1) t"
begin

lemma two_prints: "pr n f a = Inr (Some s) \<Longrightarrow> pr (n - length s) g b = Inr (Some t) \<Longrightarrow> length (s @ t) < n"
  using bounded [of n f a s] bounded [of "n - length s" g b t] by simp

lemma whole_text: "pr n f a = Inr (Some s) \<Longrightarrow> length s < n - 1 \<Longrightarrow> n \<le> m \<Longrightarrow> pr m f a = Inr (Some t) \<Longrightarrow> t = s"
  using truncates [of n m f a s t] by (cases "length t \<le> n - 1") auto

end

lemma print_marker_contract:
  "print_marker nested uni n fmt va = Inr (Some t) \<Longrightarrow> length t < n"
  "n \<le> m \<Longrightarrow> print_marker nested uni n fmt va = Inr (Some s) \<Longrightarrow> print_marker nested uni m fmt va = Inr (Some t) \<Longrightarrow> s = take (n - 1) t"
proof -
  have d: "\<exists>d. print_loop nested fmt va (print_dst_of uni (Some (n - 1))) = Inr d \<and> pd_out d = t \<and> 0 < n"
    if "print_marker nested uni n fmt va = Inr (Some t)" for n t
    using that by (cases "print_loop nested fmt va (print_dst_of uni (Some (n - 1)))") (auto simp: print_marker_def split: if_splits)
  show "length t < n" if "print_marker nested uni n fmt va = Inr (Some t)"
    using d [OF that] print_loop_fits [of nested fmt va "print_dst_of uni (Some (n - 1))" _ "n - 1"] by (force simp: print_dst_of_def)
  show "s = take (n - 1) t" if "n \<le> m" "print_marker nested uni n fmt va = Inr (Some s)" "print_marker nested uni m fmt va = Inr (Some t)"
    using d [OF that(2)] d [OF that(3)] that(1) print_loop_prefix [of nested fmt va "print_dst_of uni (Some (n - 1))" _ "print_dst_of uni (Some (m - 1))"]
    by (fastforce simp: print_dst_of_def)
qed

lemma ascii_marker_contract:
  "map_sum id (map_option (map f)) (print_marker nested uni n fmt va) = Inr (Some t) \<Longrightarrow> length t < n"
  "n \<le> m \<Longrightarrow> map_sum id (map_option (map f)) (print_marker nested uni n fmt va) = Inr (Some s) \<Longrightarrow>
   map_sum id (map_option (map f)) (print_marker nested uni m fmt va) = Inr (Some t) \<Longrightarrow> s = take (n - 1) t"
proof -
  have e: "\<exists>x. print_marker nested uni n fmt va = Inr (Some x) \<and> t = map f x"
    if "map_sum id (map_option (map f)) (print_marker nested uni n fmt va) = Inr (Some t)" for n t
    using that by (cases "print_marker nested uni n fmt va") auto
  show "length t < n" if "map_sum id (map_option (map f)) (print_marker nested uni n fmt va) = Inr (Some t)"
    using e [OF that] print_marker_contract(1) by fastforce
  show "s = take (n - 1) t" if "n \<le> m" "map_sum id (map_option (map f)) (print_marker nested uni n fmt va) = Inr (Some s)"
    "map_sum id (map_option (map f)) (print_marker nested uni m fmt va) = Inr (Some t)"
    using e [OF that(2)] e [OF that(3)] print_marker_contract(2) [OF that(1)] by (auto simp: take_map)
qed

lemmas print_entries = UnicodeSPrint_def UnicodeVSPrint_def UnicodeVSPrintAsciiFormat_def AsciiSPrint_def AsciiVSPrint_def
  AsciiVSPrintUnicodeFormat_def BasePrintLibSPrintMarker_def

interpretation usp: bounded_print "\<lambda>n. UnicodeSPrint (n * 2)"
  by unfold_locales (auto simp: print_entries dest: print_marker_contract)

interpretation usa: bounded_print "\<lambda>n. UnicodeVSPrintAsciiFormat (n * 2)"
  by unfold_locales (auto simp: print_entries dest: print_marker_contract)

interpretation asp: bounded_print AsciiSPrint
  by unfold_locales (auto simp: print_entries dest: ascii_marker_contract)

interpretation asu: bounded_print AsciiVSPrintUnicodeFormat
  by unfold_locales (auto simp: print_entries dest: ascii_marker_contract)

end
