(* ===== verification/Sbc_Log.thy ===== *)
theory Sbc_Log
  imports Print_Facts
begin

unbundle bit_operations_syntax

text \<open>
  Logging: \<^verbatim>\<open>SBC_Log.c\<close> up to its disabled second half, and the printing helpers of
  \<^verbatim>\<open>FSBL.c\<close>.  The log line goes to the console only, so it is the result of the call.  The
  print buffer size, a setting of the build, is the parameter \<open>maxp\<close>; what lies in an
  uninitialised ASCII buffer is the parameter \<open>junk\<close>.  A write or read outside a buffer
  is the fault \<open>OutOfBounds\<close>.
\<close>

section \<open>String functions\<close>

fun strn_len :: "nat \<Rightarrow> wtext \<Rightarrow> fault + nat" where
  "strn_len 0 s = Inr 0"
| "strn_len (Suc n) [] = Inl OutOfBounds"
| "strn_len (Suc n) (c # s) = (if c = 0 then Inr 0 else map_sum id Suc (strn_len n s))"

definition MyUnicodeStrnLenS :: "wtext option \<Rightarrow> nat \<Rightarrow> fault + nat" where
  "MyUnicodeStrnLenS s MaxSize = (case s of None \<Rightarrow> Inr 0 | Some t \<Rightarrow> strn_len MaxSize t)"

definition to_ascii :: "u16 \<Rightarrow> byte" where
  "to_ascii c = (if c > 0xFF then of_char CHR ''?'' else ucast c)"

fun ascii_loop :: "nat \<Rightarrow> wtext \<Rightarrow> fault + bytes" where
  "ascii_loop 0 s = Inr []"
| "ascii_loop (Suc k) [] = Inl OutOfBounds"
| "ascii_loop (Suc k) (c # s) = (if c = 0 then Inr [] else map_sum id ((#) (to_ascii c)) (ascii_loop k s))"

definition MyUnicodeStrToAsciiStrS :: "bytes option \<Rightarrow> nat \<Rightarrow> wtext option \<Rightarrow> fault + (bytes option \<times> nat)" where
  "MyUnicodeStrToAsciiStrS dest n src =
     (case (dest, src) of (Some d, Some s) \<Rightarrow>
        if n = 0 then Inr (dest, 0)
        else (case ascii_loop (n - 1) s of Inl f \<Rightarrow> Inl f
          | Inr t \<Rightarrow> if length d < length t + 1 then Inl OutOfBounds else Inr (Some (overlay 0 (t @ [0]) d), length t))
      | _ \<Rightarrow> Inr (dest, 0))"

function space_loop :: "nat \<Rightarrow> nat \<Rightarrow> nat \<Rightarrow> bytes \<Rightarrow> fault + (bytes \<times> nat)" where
  "space_loop n r w buf =
     (if r < n then
        if length buf \<le> r then Inl OutOfBounds
        else if buf ! r = 0 then Inr (buf, w)
        else if buf ! r \<noteq> of_char CHR '' '' then space_loop n (r + 1) (w + 1) (buf[w := buf ! r])
        else space_loop n (r + 1) w buf
      else Inr (buf, w))"
  by auto
termination by (relation "measure (\<lambda>(n, r, _). n - r)") auto

declare space_loop.simps [simp del]

definition remove_all_space :: "bytes option \<Rightarrow> nat \<Rightarrow> fault + (bytes option \<times> nat)" where
  "remove_all_space buffer n =
     (case buffer of None \<Rightarrow> Inr (None, 0)
      | Some b \<Rightarrow> if n = 0 then Inr (buffer, 0)
        else (case space_loop n 0 0 b of Inl f \<Rightarrow> Inl f
          | Inr (b, w) \<Rightarrow> if length b \<le> w then Inl OutOfBounds else Inr (Some (b[w := 0]), w)))"

text \<open>The log is only printed: the text handed to \<^verbatim>\<open>Print\<close>, if any.\<close>

definition sbc_write_log_file :: "bytes option \<Rightarrow> nat \<Rightarrow> efi_status \<times> bytes option" where
  "sbc_write_log_file log_data n = (case log_data of None \<Rightarrow> (EFI_INVALID_PARAMETER, None)
     | Some b \<Rightarrow> if n = 0 then (EFI_INVALID_PARAMETER, None) else (EFI_SUCCESS, Some (cstr b)))"

section \<open>Hexadecimal dumps\<close>

text \<open>The cells \<^verbatim>\<open>%02x\<close> of a line, empty ones behind the end of the data, and the column of printable characters.\<close>

definition hex_cell :: "byte \<Rightarrow> wtext" where
  "hex_cell b = padded 2 (value_text 16 (ucast b))"

definition dump_char :: "byte \<Rightarrow> u16" where
  "dump_char b = (if b > 31 \<and> b < 127 then ucast b else wch CHR ''.'')"

definition dump_cells :: "bytes \<Rightarrow> wtext" where
  "dump_cells buf = concat (map (\<lambda>i. if i < length buf then hex_cell (buf ! i) @ wide '' '' else wide ''   '') [0..<16])"

definition dump_chars :: "bytes \<Rightarrow> wtext" where
  "dump_chars buf = map dump_char (take 16 buf)"

function dump_lines :: "bytes \<Rightarrow> wtext list" where
  "dump_lines buf = (if buf = [] then [] else ([9] @ dump_cells buf @ wide ''| '' @ dump_chars buf) # dump_lines (drop 16 buf))"
  by auto
termination by (relation "measure length") auto

declare dump_lines.simps [simp del]

text \<open>The lines of a dump without their line ends.\<close>

definition dump_head :: "bytes option \<Rightarrow> u32 \<Rightarrow> wtext list" where
  "dump_head title len = (case title of None \<Rightarrow> []
     | Some t \<Rightarrow> [widen (cstr t) @ wide '' (length of buffer: '' @ signed_text 0 (scast len) @ wide '') ''])"

definition SBC_mem_print_bin :: "bytes option \<Rightarrow> bytes option \<Rightarrow> u32 \<Rightarrow> fault + wtext list" where
  "SBC_mem_print_bin title buffer len =
     (case buffer of None \<Rightarrow> Inr (dump_head title len @ [9 # wide ''NULL''])
      | Some b \<Rightarrow> if length b < unat len then Inl OutOfBounds else Inr (dump_head title len @ dump_lines (take (unat len) b)))"

function offset_lines :: "u32 \<Rightarrow> bytes \<Rightarrow> wtext list" where
  "offset_lines ofs buf = (if buf = [] then []
     else (wide '' [0x'' @ padded 8 (value_text 16 (ucast ofs)) @ wide ''] :  '' @ dump_cells buf @ wide '' | '' @ dump_chars buf)
       # offset_lines (ofs + 16) (drop 16 buf))"
  by auto
termination by (relation "measure (\<lambda>(_, b). length b)") auto

declare offset_lines.simps [simp del]

definition SBC_external_mem_print_bin :: "bytes option \<Rightarrow> bytes option \<Rightarrow> u32 \<Rightarrow> fault + wtext list" where
  "SBC_external_mem_print_bin title buffer len =
     (case buffer of None \<Rightarrow> Inr (dump_head title len)
      | Some b \<Rightarrow> if length b < unat len then Inl OutOfBounds else Inr (dump_head title len @ offset_lines 0 (take (unat len) b)))"

section \<open>The formatter of the log\<close>

fun log_flags :: "wtext \<Rightarrow> bool \<Rightarrow> bool \<Rightarrow> wtext \<times> bool \<times> bool" where
  "log_flags (c # fmt) zero left =
     (if c = wch CHR ''-'' then log_flags fmt zero True
      else if c = wch CHR ''0'' then log_flags fmt True left
      else (c # fmt, zero, left))"
| "log_flags [] zero left = ([], zero, left)"

fun log_number :: "wtext \<Rightarrow> u64 \<Rightarrow> wtext \<times> u64" where
  "log_number (c # fmt) n = (if is_digit c then log_number fmt (n * 10 + (ucast c - 48)) else (c # fmt, n))"
| "log_number [] n = ([], n)"

definition log_width :: "wtext \<Rightarrow> va list \<Rightarrow> fault + (wtext \<times> u64 \<times> va list)" where
  "log_width fmt va =
     (if ch fmt = wch CHR ''*'' then (case va_word va of Inl f \<Rightarrow> Inl f | Inr (w, va) \<Rightarrow> Inr (tl fmt, w, va))
      else (case log_number fmt 0 of (fmt, w) \<Rightarrow> Inr (fmt, w, va)))"

definition log_precision :: "wtext \<Rightarrow> va list \<Rightarrow> fault + (wtext \<times> u64 \<times> va list)" where
  "log_precision fmt va = (if ch fmt = wch CHR ''.'' then log_width (tl fmt) va else Inr (fmt, - 1, va))"

text \<open>The length modifiers are skipped: every number is taken as a 64-bit argument.\<close>

definition log_length :: "wtext \<Rightarrow> wtext" where
  "log_length fmt =
     (if ch fmt = wch CHR ''l'' \<or> ch fmt = wch CHR ''L''
      then (if ch (tl fmt) = wch CHR ''l'' then tl (tl fmt) else tl fmt)
      else if ch fmt = wch CHR ''h''
      then (if ch (tl fmt) = wch CHR ''h'' then tl (tl fmt) else tl fmt)
      else fmt)"

record log_spec =
  PadWithZero :: bool
  LeftJustify :: bool
  LogWidth :: u64
  LogPrecision :: u64

definition log_directive :: "wtext \<Rightarrow> va list \<Rightarrow> fault + (wtext \<times> log_spec \<times> va list)" where
  "log_directive fmt va =
     (case log_flags fmt False False of (fmt, zero, left) \<Rightarrow>
      case log_width fmt va of Inl f \<Rightarrow> Inl f | Inr (fmt, width, va) \<Rightarrow>
      case log_precision fmt va of Inl f \<Rightarrow> Inl f | Inr (fmt, prec, va) \<Rightarrow>
      Inr (log_length fmt, \<lparr>PadWithZero = zero, LeftJustify = left, LogWidth = width, LogPrecision = prec\<rparr>, va))"

text \<open>
  An ASCII argument: the result of the copy, a status, is taken for the length of the
  string.  The room is what remains less what has been printed already.
\<close>

definition AsciiStrCpyS :: "nat \<Rightarrow> bytes \<Rightarrow> u64" where
  "AsciiStrCpyS DestMax s = (if RSIZE_MAX < DestMax \<or> DestMax = 0 then 0x8000000000000002
     else if length s < DestMax then 0 else 0x8000000000000005)"

definition ascii_field :: "(nat \<Rightarrow> byte) \<Rightarrow> nat \<Rightarrow> bytes \<Rightarrow> log_spec \<Rightarrow> nat \<Rightarrow> nat \<Rightarrow> fault + wtext" where
  "ascii_field junk maxp s sp remaining printed =
     (let len0 = AsciiStrCpyS (maxp + 1) s; cut = (LogPrecision sp \<noteq> - 1 \<and> len0 > LogPrecision sp);
          len = (if cut then LogPrecision sp else len0);
          pad = (if PadWithZero sp then wch CHR ''0'' else wch CHR '' '');
          fill = (if LogWidth sp > len then unat (LogWidth sp - len) else 0);
          before = (if LeftJustify sp then 0 else min fill (remaining - (printed + 1)));
          mid = min (unat len) (remaining - (printed + before + 1));
          after = (if LeftJustify sp then min fill (remaining - (printed + mid + 1)) else 0)
      in if cut \<and> unat len > maxp \<or> mid > maxp + 1 then Inl OutOfBounds
         else Inr (replicate before pad @ map (\<lambda>i. ucast (junk i)) [0..<mid] @ replicate after pad))"

definition log_print :: "nat \<Rightarrow> wtext \<Rightarrow> va list \<Rightarrow> fault + wtext" where
  "log_print remaining fmt va = map_sum id (case_option [] id) (UnicodeSPrint (remaining * 2) fmt va)"

definition log_field :: "(fault + 'a \<times> va list) \<Rightarrow> ('a \<Rightarrow> fault + wtext) \<Rightarrow> fault + (wtext \<times> va list)" where
  "log_field arg f = (case arg of Inl e \<Rightarrow> Inl e | Inr (x, va) \<Rightarrow> map_sum id (\<lambda>t. (t, va)) (f x))"

definition gNullStringUefi :: wtext where "gNullStringUefi = wide ''(null)''"
definition gNullStringAscii :: bytes where "gNullStringAscii = map of_char ''(null)''"

text \<open>The text of a conversion, or None when the character is none.\<close>

definition log_conversion :: "(nat \<Rightarrow> byte) \<Rightarrow> nat \<Rightarrow> u16 \<Rightarrow> log_spec \<Rightarrow> nat \<Rightarrow> nat \<Rightarrow> va list \<Rightarrow> (fault + (wtext \<times> va list)) option" where
  "log_conversion junk maxp c sp remaining printed va =
     (if c = wch CHR ''s'' then
        Some (log_field (va_wide va) (\<lambda>s. log_print remaining (wide ''%s'') [VaWide (Some (case s of None \<Rightarrow> gNullStringUefi | Some t \<Rightarrow> t))]))
      else if c = wch CHR ''a'' then
        Some (log_field (va_ascii va) (\<lambda>s. ascii_field junk maxp (case s of None \<Rightarrow> gNullStringAscii | Some t \<Rightarrow> cstr t) sp remaining printed))
      else if c = wch CHR ''d'' \<or> c = wch CHR ''i'' then Some (log_field (va_word va) (\<lambda>v. log_print remaining (wide ''%lld'') [VaWord v]))
      else if c = wch CHR ''u'' then Some (log_field (va_word va) (\<lambda>v. log_print remaining (wide ''%llu'') [VaWord v]))
      else if c = wch CHR ''x'' then Some (log_field (va_word va) (\<lambda>v. log_print remaining (wide ''%llx'') [VaWord v]))
      else if c = wch CHR ''X'' then Some (log_field (va_word va) (\<lambda>v. log_print remaining (wide ''%llX'') [VaWord v]))
      else if c = wch CHR ''p'' then Some (log_field (va_word va) (\<lambda>v. log_print remaining (wide ''%p'') [VaWord v]))
      else if c = wch CHR ''c'' then Some (log_field (va_word va) (\<lambda>v. Inr [ucast v]))
      else if c = wch CHR ''%'' then Some (Inr ([wch CHR ''%''], va))
      else None)"

lemma log_flags_length: "length (fst (log_flags fmt zero left)) \<le> length fmt"
  by (induction fmt zero left rule: log_flags.induct) auto

lemma log_number_length: "length (fst (log_number fmt n)) \<le> length fmt"
  by (induction fmt n rule: log_number.induct) auto

lemma log_width_length: "log_width fmt va = Inr (fmt', w, va') \<Longrightarrow> length fmt' \<le> length fmt"
  using log_number_length [of fmt 0] by (auto simp: log_width_def split: if_splits sum.splits prod.splits)

lemma log_precision_length: "log_precision fmt va = Inr (fmt', w, va') \<Longrightarrow> length fmt' \<le> length fmt"
  by (auto simp: log_precision_def split: if_splits dest!: log_width_length)

lemma log_length_length: "length (log_length fmt) \<le> length fmt"
  by (simp add: log_length_def)

lemma log_directive_length: "log_directive fmt va = Inr (fmt', sp, va') \<Longrightarrow> length fmt' \<le> length fmt"
  using log_flags_length [of fmt False False]
  by (auto simp: log_directive_def split: sum.splits prod.splits dest!: log_width_length log_precision_length
      intro: log_length_length [THEN order_trans])

text \<open>
  The loop with the text written so far.  A character that is no conversion takes two
  places at once, and the terminator is written behind the text in the end.
\<close>

function log_loop :: "(nat \<Rightarrow> byte) \<Rightarrow> nat \<Rightarrow> nat \<Rightarrow> wtext \<Rightarrow> va list \<Rightarrow> wtext \<Rightarrow> fault + wtext" where
  "log_loop junk maxp room [] va out = (if length out < room then Inr out else Inl OutOfBounds)"
| "log_loop junk maxp room (c # fmt) va out =
     (if room - length out \<le> 1 then (if length out < room then Inr out else Inl OutOfBounds)
      else if c \<noteq> wch CHR ''%'' then log_loop junk maxp room fmt va (out @ [c])
      else case log_directive fmt va of Inl f \<Rightarrow> Inl f
        | Inr (fmt, sp, va) \<Rightarrow>
            (case log_conversion junk maxp (ch fmt) sp (room - length out) (length out) va of
               None \<Rightarrow> if fmt = [] then Inl OutOfBounds else log_loop junk maxp room (tl fmt) va (out @ [wch CHR ''%'', ch fmt])
             | Some (Inl f) \<Rightarrow> Inl f
             | Some (Inr (t, va)) \<Rightarrow> log_loop junk maxp room (tl fmt) va (out @ t)))"
  by pat_completeness auto
termination
  by (relation "measure (\<lambda>(_, _, _, fmt, _). length fmt)") (auto simp: less_Suc_eq_le dest!: log_directive_length)

declare log_loop.simps (2) [simp del]

definition LogFmtVPrint :: "(nat \<Rightarrow> byte) \<Rightarrow> nat \<Rightarrow> wtext \<Rightarrow> va list \<Rightarrow> nat \<Rightarrow> fault + wtext" where
  "LogFmtVPrint junk maxp Format va BufLenBytes =
     (if BufLenBytes div 2 = 0 then Inr [] else log_loop junk maxp (BufLenBytes div 2) (cstr Format) va [])"

section \<open>A log line\<close>

record log_event =
  prio :: u32
  ver :: u32
  host :: "wtext option"
  appname :: "wtext option"
  csc :: "wtext option"
  sfrid :: u32
  evtype :: "wtext option"

definition log_time :: "print_time option \<Rightarrow> print_time" where
  "log_time t = (case t of Some t \<Rightarrow> t
     | None \<Rightarrow> \<lparr>Year = 2000, Month = 1, Day = 1, Hour = 0, Minute = 0, Second = 0\<rparr>)"

definition header_format :: wtext where
  "header_format = wide ''%d %d %04d-%02d-%02dT%02d:%02d:%02d %s %s %s R-SAT-PWT-SFR-%03d %s ''"

definition header_args :: "log_event \<Rightarrow> print_time \<Rightarrow> va list" where
  "header_args e t =
     (let safe = (\<lambda>s. VaWide (Some (case s of None \<Rightarrow> gNullStringUefi | Some s \<Rightarrow> s)))
      in [VaWord (ucast (prio e)), VaWord (ucast (ver e)), VaWord (ucast (Year t)), VaWord (ucast (Month t)), VaWord (ucast (Day t)),
          VaWord (ucast (Hour t)), VaWord (ucast (Minute t)), VaWord (ucast (Second t)), safe (host e), safe (appname e), safe (csc e),
          VaWord (ucast (sfrid e)), safe (evtype e)])"

text \<open>
  The buffers have \<open>maxp + 1\<close> cells.  When no more than four characters remain behind the header,
  three dots and a terminator are written and nothing is logged.
\<close>

definition log_finish :: "(nat \<Rightarrow> byte) \<Rightarrow> nat \<Rightarrow> wtext \<Rightarrow> fault + bytes option" where
  "log_finish junk maxp full_log_msg =
     (let full = full_log_msg @ replicate (maxp + 1 - length full_log_msg) 0;
          full = full[min (length full_log_msg) maxp := 0]
      in case MyUnicodeStrToAsciiStrS (Some (map junk [0..<maxp + 1])) (maxp + 1) (Some full) of Inl f \<Rightarrow> Inl f
         | Inr (buf, n) \<Rightarrow>
             if n = 0 \<and> full ! 0 \<noteq> 0 then Inr None
             else (case remove_all_space buf n of Inl f \<Rightarrow> Inl f
               | Inr (buf, n) \<Rightarrow> Inr (snd (sbc_write_log_file buf n))))"

definition SBC_LogPrint :: "(nat \<Rightarrow> byte) \<Rightarrow> nat \<Rightarrow> print_time option \<Rightarrow> log_event \<Rightarrow> wtext \<Rightarrow> va list \<Rightarrow> fault + bytes option" where
  "SBC_LogPrint junk maxp now e format va =
     (case log_print (maxp + 1) header_format (header_args e (log_time now)) of Inl f \<Rightarrow> Inl f
      | Inr header \<Rightarrow>
          let remaining = maxp + 1 - length header
          in if remaining \<le> 4 then (if remaining < 4 then Inl OutOfBounds else Inr None)
             else (case LogFmtVPrint junk maxp format va (remaining * 2) of Inl f \<Rightarrow> Inl f
               | Inr msg \<Rightarrow> log_finish junk maxp (header @ msg)))"

text \<open>The arguments are collected but not passed on.\<close>

definition SBC_LogMrg :: "wtext \<Rightarrow> va list \<Rightarrow> fault + wtext option" where
  "SBC_LogMrg fmt va = UnicodeSPrint (8192 * 2) (cstr fmt) []"

text \<open>The number of characters printed into a buffer from the pool; it is zero when the pool gives none, or one that is not aligned.\<close>

definition SBC_InternalPrint :: "nat \<Rightarrow> u64 option \<Rightarrow> wtext \<Rightarrow> va list \<Rightarrow> fault + nat" where
  "SBC_InternalPrint maxp pool fmt va = (case pool of None \<Rightarrow> Inr 0
     | Some buffer \<Rightarrow> if buffer mod 8 \<noteq> 0 then Inr 0
       else map_sum id (case_option 0 length) (UnicodeVSPrint ((maxp + 1) * 2) (cstr fmt) va))"

section \<open>Printing helpers of the first stage\<close>

fun manual_digits :: "nat \<Rightarrow> nat \<Rightarrow> wtext" where
  "manual_digits 0 v = []"
| "manual_digits (Suc n) v = (if v = 0 then [] else (48 + of_nat (v mod 10)) # manual_digits n (v div 10))"

text \<open>The count, and the text in the buffer unless it is left alone.  For a negative value the reversal leaves out the first character.\<close>

definition IntToUnicodeStringManual :: "u64 \<Rightarrow> nat \<Rightarrow> nat \<times> wtext option" where
  "IntToUnicodeStringManual v BufferSize =
     (if BufferSize < 2 then (0, None)
      else let neg = v <s 0; a = unat (if neg then - v else v); room = BufferSize div 2 - 1
        in if a = 0 \<and> BufferSize < 4 then (0, None)
           else let t = (if a = 0 then [wch CHR ''0''] else manual_digits room a)
             in if neg \<and> room \<le> length t then (0, Some t)
                else let t = (if neg then t @ [wch CHR ''-''] else t)
                  in (length t, Some (if neg then hd t # rev (tl t) else rev t)))"

text \<open>
  The size that remains is that of a local buffer, but the characters go to the caller's
  \<^verbatim>\<open>OutFormat\<close>: the second result.  What is put on the console is the local
  buffer, the third; the console takes it.
\<close>

function custom_loop :: "wtext \<Rightarrow> va list \<Rightarrow> nat \<Rightarrow> wtext \<Rightarrow> fault + (efi_status \<times> wtext)" where
  "custom_loop [] va rem out = Inr (EFI_SUCCESS, out)"
| "custom_loop (c # fmt) va rem out =
     (if rem \<le> 2 then Inr (EFI_SUCCESS, out)
      else if c \<noteq> wch CHR ''%'' then
        (if 4 \<le> rem then custom_loop fmt va (rem - 2) (out @ [c]) else Inr (EFI_BUFFER_TOO_SMALL, out))
      else if ch fmt = wch CHR ''d'' then
        (case va_word va of Inl f \<Rightarrow> Inl f
         | Inr (v, va) \<Rightarrow> (case IntToUnicodeStringManual v 60 of (n, txt) \<Rightarrow>
             if n = 0 then custom_loop (tl fmt) va rem out
             else if n * 2 < rem then custom_loop (tl fmt) va (rem - n * 2) (out @ take n (case_option [] id txt))
             else Inr (EFI_BUFFER_TOO_SMALL, out)))
      else if ch fmt = wch CHR ''s'' then
        (case va_wide va of Inl f \<Rightarrow> Inl f
         | Inr (None, va) \<Rightarrow> Inl NullDeref
         | Inr (Some s, va) \<Rightarrow>
             if length (cstr s) * 2 < rem then custom_loop (tl fmt) va (rem - length (cstr s) * 2) (out @ cstr s)
             else Inr (EFI_BUFFER_TOO_SMALL, out))
      else if ch fmt = wch CHR ''%'' then
        (if 4 \<le> rem then custom_loop (tl fmt) va (rem - 2) (out @ [wch CHR ''%'']) else Inr (EFI_BUFFER_TOO_SMALL, out))
      else if rem < 4 then Inr (EFI_BUFFER_TOO_SMALL, out)
      else if fmt = [] then Inl OutOfBounds
      else custom_loop (tl fmt) va (rem - 4) (out @ [wch CHR ''%'', ch fmt]))"
  by pat_completeness auto
termination by (relation "measure (\<lambda>(fmt, _). length fmt)") auto

declare custom_loop.simps (2) [simp del]

definition SBC_LogCustomPrint :: "wtext option \<Rightarrow> va list \<Rightarrow> fault + (efi_status \<times> wtext \<times> wtext)" where
  "SBC_LogCustomPrint Format va = (case Format of None \<Rightarrow> Inr (EFI_INVALID_PARAMETER, [], [])
     | Some fmt \<Rightarrow> map_sum id (\<lambda>(s, out). (s, out, [])) (custom_loop (cstr fmt) va 512 []))"

end
