(* ===== verification/Log_Facts.thy ===== *)
theory Log_Facts
  imports Sbc_Log
begin

unbundle bit_operations_syntax

text \<open>
  Facts about the log: the conversion to ASCII and the removal of spaces in closed form,
  the text of every conversion of the formatter, formats whose conversions are known
  and whose arguments fit (\<open>known_format\<close>), the message a format stands for
  (\<open>log_message\<close>), and the header of a line by its fields (\<open>header_text\<close>).
\<close>

section \<open>Facts\<close>

abbreviation not_space :: "byte \<Rightarrow> bool" where "not_space c \<equiv> c \<noteq> of_char CHR '' ''"

lemma space_loop_filter:
  "(\<And>i. r \<le> i \<Longrightarrow> i < n \<Longrightarrow> buf ! i \<noteq> 0) \<Longrightarrow> w \<le> r \<Longrightarrow> n \<le> length buf \<Longrightarrow>
   \<exists>buf'. space_loop n r w buf = Inr (buf', w + length (filter not_space (drop r (take n buf)))) \<and> length buf' = length buf \<and>
     take (w + length (filter not_space (drop r (take n buf)))) buf' = take w buf @ filter not_space (drop r (take n buf))"
proof (induction n r w buf rule: space_loop.induct)
  case (1 n r w buf)
  show ?case
  proof (cases "r < n")
    case r: True
    then have d: "drop r (take n buf) = buf ! r # drop (r + 1) (take n buf)" using 1(5) by (simp add: Cons_nth_drop_Suc [symmetric])
    have b: "\<not> length buf \<le> r" "buf ! r \<noteq> 0" using r 1(3,5) by auto
    show ?thesis
    proof (cases "not_space (buf ! r)")
      case s: True
      let ?b = "buf[w := buf ! r]"
      have e: "drop (r + 1) (take n ?b) = drop (r + 1) (take n buf)" using 1(4) by (simp add: drop_take)
      have "\<exists>buf'. space_loop n (r + 1) (w + 1) ?b = Inr (buf', w + 1 + length (filter not_space (drop (r + 1) (take n ?b)))) \<and> length buf' = length ?b \<and>
          take (w + 1 + length (filter not_space (drop (r + 1) (take n ?b)))) buf' = take (w + 1) ?b @ filter not_space (drop (r + 1) (take n ?b))"
        by (rule 1(1) [OF r b s]) (use 1(3-5) in auto)
      then show ?thesis using r b s 1(4) unfolding e
        by (auto simp: space_loop.simps [of n r w] d take_Suc_conv_app_nth)
    next
      case s: False
      have "\<exists>buf'. space_loop n (r + 1) w buf = Inr (buf', w + length (filter not_space (drop (r + 1) (take n buf)))) \<and> length buf' = length buf \<and>
          take (w + length (filter not_space (drop (r + 1) (take n buf)))) buf' = take w buf @ filter not_space (drop (r + 1) (take n buf))"
        by (rule 1(2) [OF r b s]) (use 1(3-5) in auto)
      then show ?thesis using r b s by (simp add: space_loop.simps [of n r w] d)
    qed
  qed (simp add: space_loop.simps [of n r w])
qed

lemma remove_all_space_filter:
  assumes "\<And>c. c \<in> set t \<Longrightarrow> c \<noteq> 0" and "t \<noteq> []"
  shows "\<exists>b. remove_all_space (Some (t @ 0 # rest)) (length t) = Inr (Some b, length (filter not_space t)) \<and> cstr b = filter not_space t"
proof -
  let ?f = "filter not_space t"
  obtain b where b: "space_loop (length t) 0 0 (t @ 0 # rest) = Inr (b, length ?f)" "length b = length t + 1 + length rest" "take (length ?f) b = ?f"
    using space_loop_filter [of 0 "length t" "t @ 0 # rest" 0] assms(1) by (auto simp: nth_append)
  have l: "length ?f \<le> length t" by (rule length_filter_le)
  then have n: "\<not> length b \<le> length ?f" using b(2) by linarith
  then have "length ?f < length b" by simp
  then have "b[length ?f := 0] = ?f @ 0 # drop (Suc (length ?f)) b" by (subst upd_conv_take_nth_drop) (simp_all only: b(3))
  moreover have "cstr (?f @ 0 # x) = ?f" for x
    unfolding cstr_def by (subst takeWhile_append2) (use assms(1) in auto)
  ultimately show ?thesis using b(1) n assms(2) by (simp add: remove_all_space_def)
qed

lemma to_ascii_nonzero: "c \<noteq> 0 \<Longrightarrow> to_ascii c \<noteq> 0"
proof (cases "c > 0xFF")
  case False
  assume "c \<noteq> 0"
  then have "unat c \<noteq> unat (0 :: u16)" using word_unat_eq_iff by blast
  moreover have "unat c < 256" using False by (simp add: word_less_nat_alt not_less)
  then have "unat (ucast c :: byte) = unat c" by (simp add: unsigned_ucast_eq take_bit_nat_eq_self)
  ultimately show ?thesis using False by (auto simp: to_ascii_def)
qed (simp add: to_ascii_def)

lemma ascii_loop_text:
  "(\<And>c. c \<in> set t \<Longrightarrow> c \<noteq> 0) \<Longrightarrow> length t \<le> k \<Longrightarrow> ascii_loop k (t @ 0 # rest) = Inr (map to_ascii t)"
proof (induction t arbitrary: k)
  case Nil
  then show ?case by (cases k) auto
next
  case (Cons c t)
  then show ?case by (cases k) auto
qed

lemma cstr_split: "length m < n \<Longrightarrow> \<exists>rest. (m :: wtext) @ replicate (n - length m) 0 = cstr m @ 0 # rest"
proof -
  assume n: "length m < n"
  then obtain k where k: "replicate (n - length m) (0 :: u16) = 0 # replicate k 0" by (cases "n - length m") auto
  show ?thesis
  proof (cases "cstr m = m")
    case True
    then show ?thesis using k by auto
  next
    case False
    have "m = cstr m @ dropWhile (\<lambda>c. c \<noteq> 0) m" by (simp add: cstr_def)
    moreover obtain x xs where x: "dropWhile (\<lambda>c. c \<noteq> 0) m = x # xs" using False calculation by (cases "dropWhile (\<lambda>c. c \<noteq> 0) m") auto
    moreover have "x = 0" using hd_dropWhile [of "\<lambda>c. c \<noteq> 0" m] x by auto
    ultimately show ?thesis by (metis append.assoc append_Cons)
  qed
qed

definition log_text :: "wtext \<Rightarrow> bytes" where
  "log_text m = filter not_space (map to_ascii (cstr m))"

lemma log_finish_text:
  assumes "length m \<le> maxp"
  shows "log_finish junk maxp m = Inr (if log_text m = [] then None else Some (log_text m))"
proof -
  let ?full = "m @ replicate (maxp + 1 - length m) 0"
  have f: "?full[min (length m) maxp := 0] = ?full" using assms by (simp add: list_update_append min_def nth_append list_update_same_conv)
  obtain rest where r: "?full = cstr m @ 0 # rest" using cstr_split [of m "maxp + 1"] assms by auto
  let ?a = "map to_ascii (cstr m)"
  have l: "length (cstr m) \<le> maxp" using assms length_takeWhile_le [of _ m] unfolding cstr_def by (rule order_trans [rotated])
  have a: "ascii_loop maxp ?full = Inr ?a" unfolding r by (rule ascii_loop_text) (use l cstr_nonzero in auto)
  have nz: "c \<in> set ?a \<Longrightarrow> c \<noteq> 0" for c using cstr_nonzero to_ascii_nonzero by auto
  define buf where "buf = map junk [0..<maxp + 1]"
  define tail where "tail = drop (length ?a + 1) buf"
  have "length buf = maxp + 1" by (simp add: buf_def)
  then have s: "MyUnicodeStrToAsciiStrS (Some buf) (maxp + 1) (Some ?full) = Inr (Some (?a @ 0 # tail), length ?a)"
    using l a by (simp add: MyUnicodeStrToAsciiStrS_def overlay_def tail_def)
  have lf: "log_finish junk maxp m = (if length ?a = 0 \<and> ?full ! 0 \<noteq> 0 then Inr None
      else case remove_all_space (Some (?a @ 0 # tail)) (length ?a) of Inl f \<Rightarrow> Inl f
        | Inr (buf, n) \<Rightarrow> Inr (snd (sbc_write_log_file buf n)))"
    by (simp only: log_finish_def Let_def f buf_def [symmetric] s sum.case prod.case)
  show ?thesis
  proof (cases "cstr m = []")
    case True
    then show ?thesis using r by (simp add: lf remove_all_space_def sbc_write_log_file_def log_text_def)
  next
    case False
    then obtain b where "remove_all_space (Some (?a @ 0 # tail)) (length ?a) = Inr (Some b, length (filter not_space ?a))" "cstr b = filter not_space ?a"
      using remove_all_space_filter [of ?a tail, OF nz] by auto
    then show ?thesis using False by (auto simp: lf sbc_write_log_file_def log_text_def filter_map)
  qed
qed

section \<open>Conversions of the log\<close>

lemma log_print_text:
  assumes "format_text BasePrintLibSPrint fmt va = Inr t" and "length fmt \<le> RSIZE_MAX" and "0 < n"
  shows "log_print n fmt va = Inr (if n \<le> RSIZE_MAX then take (n - 1) t else [])"
proof (cases "n \<le> RSIZE_MAX")
  case True
  then show ?thesis using marker_text [OF assms(1,3)] assms(2) by (simp add: log_print_def UnicodeSPrint_def UnicodeVSPrint_def)
qed (simp add: log_print_def UnicodeSPrint_def UnicodeVSPrint_def BasePrintLibSPrintMarker_def print_marker_def)

lemma print_s: "length (cstr t) < 2 ^ 62 \<Longrightarrow> format_text nested (wide ''%s'') [VaWide (Some t)] = Inr (cstr t)"
proof -
  assume l: "length (cstr t) < 2 ^ 62"
  have p: "parse_spec (wide ''s'') [VaWide (Some t)] no_spec = Inr (wch CHR ''s'' # [], [VaWide (Some t)], no_spec)"
    by (simp add: wide_def parse_eval)
  have w: "wide ''%s'' = wch CHR ''%'' # wide ''s''" by (simp add: wide_def)
  show ?thesis unfolding w by (subst format_text_s [OF p _ _ l]) (simp_all add: no_spec_def)
qed

lemma print_u: "format_text nested (wide ''%llu'') [VaWord v] = Inr (value_text 10 v)"
proof -
  have "parse_spec (wide ''llu'') [VaWord v] no_spec = Inr (wch CHR ''u'' # [], [VaWord v], no_spec\<lparr>LONG_TYPE := True\<rparr>)"
    by (simp add: wide_def parse_eval)
  from format_text_u [OF this] show ?thesis by (simp add: spec_eval no_spec_def wide_def padded_def)
qed

lemma print_X: "format_text nested (wide ''%llX'') [VaWord v] = Inr (value_text 16 v)"
proof -
  have "parse_spec (wide ''llX'') [VaWord v] no_spec = Inr (wch CHR ''X'' # [], [VaWord v], no_spec\<lparr>LONG_TYPE := True\<rparr>)"
    by (simp add: wide_def parse_eval)
  from format_text_x [OF this] show ?thesis by (simp add: spec_eval no_spec_def wide_def is_hex_def padded_def)
qed

lemma print_p: "format_text nested (wide ''%p'') [VaWord v] = Inr (value_text 16 v)"
proof -
  have "parse_spec (wide ''p'') [VaWord v] no_spec = Inr (wch CHR ''p'' # [], [VaWord v], no_spec)"
    by (simp add: wide_def parse_eval)
  from format_text_x [OF this] show ?thesis by (simp add: spec_eval no_spec_def wide_def is_hex_def padded_def)
qed

lemmas log_prints = print_s print_d print_u print_x print_X print_p

lemma wide_length [simp]: "length (wide s) = length s"
  by (simp add: wide_def)

text \<open>
  The arguments a conversion takes: a string for \<^verbatim>\<open>%s\<close>, an ASCII string shorter than the print
  buffer for \<^verbatim>\<open>%a\<close>, a number for the others.  The text is what the conversion stands for.
\<close>

definition conversion_text :: "u16 \<Rightarrow> u64 \<Rightarrow> wtext" where
  "conversion_text c v =
     (if c = wch CHR ''d'' \<or> c = wch CHR ''i'' then signed_text 0 v
      else if c = wch CHR ''u'' then value_text 10 v
      else if c = wch CHR ''c'' then [ucast v]
      else value_text 16 v)"

definition is_number :: "u16 \<Rightarrow> bool" where
  "is_number c \<longleftrightarrow> c \<in> {wch CHR ''d'', wch CHR ''i'', wch CHR ''u'', wch CHR ''x'', wch CHR ''X'', wch CHR ''p'', wch CHR ''c''}"

definition takes_args :: "nat \<Rightarrow> u16 \<Rightarrow> va list \<Rightarrow> va list option" where
  "takes_args maxp c va =
     (if c = wch CHR ''%'' then Some va
      else case va of
        VaWord v # va \<Rightarrow> if is_number c then Some va else None
      | VaWide s # va \<Rightarrow> if c = wch CHR ''s'' \<and> (case s of None \<Rightarrow> True | Some t \<Rightarrow> length t < 2 ^ 62) then Some va else None
      | VaAscii s # va \<Rightarrow> if c = wch CHR ''a'' \<and> 6 \<le> maxp \<and> maxp < RSIZE_MAX \<and> (case s of None \<Rightarrow> True | Some t \<Rightarrow> length t \<le> maxp) then Some va else None
      | _ \<Rightarrow> None)"

lemma log_number_text:
  assumes "is_number c" and "1 < n"
  shows "log_conversion junk maxp c sp n k (VaWord v # va) =
    Some (Inr (if n \<le> RSIZE_MAX \<or> c = wch CHR ''c'' then take (n - 1) (conversion_text c v) else [], va))"
  using assms
  by (auto simp: is_number_def log_conversion_def conversion_text_def log_field_def log_print_text [OF log_prints(2)]
      log_print_text [OF log_prints(3)] log_print_text [OF log_prints(4)] log_print_text [OF log_prints(5)] log_print_text [OF log_prints(6)])

lemma log_conversion_ok:
  assumes "takes_args maxp c va = Some va'" and "1 < n"
  shows "\<exists>t. log_conversion junk maxp c sp n k va = Some (Inr (t, va')) \<and> length t < n"
proof -
  consider "c = wch CHR ''%''" "va' = va" | v where "va = VaWord v # va'" "is_number c"
    | s where "va = VaWide s # va'" "c = wch CHR ''s''" "case s of None \<Rightarrow> True | Some t \<Rightarrow> length t < 2 ^ 62"
    | s where "va = VaAscii s # va'" "c = wch CHR ''a''" "6 \<le> maxp" "maxp < RSIZE_MAX" "case s of None \<Rightarrow> True | Some t \<Rightarrow> length t \<le> maxp"
    using assms(1) by (auto simp: takes_args_def split: list.splits va.splits if_splits)
  then show ?thesis
  proof cases
    case 1
    then show ?thesis using assms(2) by (simp add: log_conversion_def)
  next
    case 2
    then show ?thesis using log_number_text [OF 2(2) assms(2)] assms(2) by auto
  next
    case 3
    define s' where "s' = (case s of None \<Rightarrow> gNullStringUefi | Some t \<Rightarrow> t)"
    have "length s' < 2 ^ 62" using 3(3) by (auto simp: s'_def gNullStringUefi_def split: option.splits)
    then have "length (cstr s') < 2 ^ 62" unfolding cstr_def by (rule le_less_trans [OF length_takeWhile_le])
    from log_print_text [OF print_s [OF this], of n] show ?thesis using 3 assms(2)
      by (auto simp: log_conversion_def log_field_def s'_def)
  next
    case 4
    define s' where "s' = (case s of None \<Rightarrow> gNullStringAscii | Some t \<Rightarrow> cstr t)"
    have "length s' < maxp + 1" using 4(3,5) length_takeWhile_le
      by (auto simp: s'_def gNullStringAscii_def cstr_def less_Suc_eq_le split: option.splits intro: order_trans)
    then show ?thesis using 4(1,2,4) assms(2)
      by (auto simp: log_conversion_def log_field_def s'_def [symmetric] ascii_field_def AsciiStrCpyS_def Let_def)
  qed
qed

section \<open>Formats of known conversions\<close>

function known_format :: "nat \<Rightarrow> wtext \<Rightarrow> va list \<Rightarrow> bool" where
  "known_format maxp [] va = True"
| "known_format maxp (c # fmt) va =
     (if c \<noteq> wch CHR ''%'' then known_format maxp fmt va
      else case log_directive fmt va of Inl f \<Rightarrow> False
        | Inr (fmt, sp, va) \<Rightarrow> (case takes_args maxp (ch fmt) va of None \<Rightarrow> False | Some va \<Rightarrow> known_format maxp (tl fmt) va))"
  by pat_completeness auto
termination
  by (relation "measure (\<lambda>(_, fmt, _). length fmt)") (auto simp: less_Suc_eq_le dest!: log_directive_length)

declare known_format.simps (2) [simp del]

lemma log_loop_safe:
  "known_format maxp fmt va \<Longrightarrow> length out < room \<Longrightarrow> \<exists>t. log_loop junk maxp room fmt va out = Inr t \<and> length t < room"
proof (induction junk maxp room fmt va out rule: log_loop.induct)
  case (2 junk maxp room c fmt va out)
  show ?case
  proof (cases "room - length out \<le> 1")
    case True
    then show ?thesis using 2(5) by (simp add: log_loop.simps(2))
  next
    case r: False
    show ?thesis
    proof (cases "c = wch CHR ''%''")
      case False
      then show ?thesis using 2(1) [OF r] 2(4) r by (simp add: log_loop.simps(2) known_format.simps(2))
    next
      case True
      then obtain fmt' sp va1 va2 where d: "log_directive fmt va = Inr (fmt', sp, va1)" "takes_args maxp (ch fmt') va1 = Some va2"
        "known_format maxp (tl fmt') va2"
        using 2(4) by (auto simp: known_format.simps(2) split: sum.splits prod.splits option.splits)
      obtain t where t: "log_conversion junk maxp (ch fmt') sp (room - length out) (length out) va1 = Some (Inr (t, va2))"
        "length t < room - length out" using log_conversion_ok [OF d(2), of "room - length out" junk sp "length out"] r by (auto simp: not_le)
      have "\<exists>u. log_loop junk maxp room (tl fmt') va2 (out @ t) = Inr u \<and> length u < room"
        by (rule 2(3) [OF r _ d(1) refl refl t(1) refl refl]) (use True t(2) d(3) in auto)
      then show ?thesis using r True d(1) t(1) by (simp add: log_loop.simps(2))
    qed
  qed
qed simp

section \<open>The message of a format\<close>

text \<open>What a format with string and number conversions stands for, without a buffer.\<close>

definition message_part :: "u16 \<Rightarrow> va list \<Rightarrow> (wtext \<times> va list) option" where
  "message_part c va =
     (if c = wch CHR ''%'' then Some ([wch CHR ''%''], va)
      else case va of
        VaWord v # va \<Rightarrow> if is_number c then Some (conversion_text c v, va) else None
      | VaWide s # va \<Rightarrow> let t = cstr (case s of None \<Rightarrow> gNullStringUefi | Some t \<Rightarrow> t)
          in if c = wch CHR ''s'' \<and> length t < 2 ^ 62 then Some (t, va) else None
      | _ \<Rightarrow> None)"

function log_message :: "wtext \<Rightarrow> va list \<Rightarrow> wtext option" where
  "log_message [] va = Some []"
| "log_message (c # fmt) va =
     (if c \<noteq> wch CHR ''%'' then map_option ((#) c) (log_message fmt va)
      else case log_directive fmt va of Inl f \<Rightarrow> None
        | Inr (fmt, sp, va) \<Rightarrow> (case message_part (ch fmt) va of None \<Rightarrow> None
            | Some (t, va) \<Rightarrow> map_option ((@) t) (log_message (tl fmt) va)))"
  by pat_completeness auto
termination
  by (relation "measure (\<lambda>(fmt, _). length fmt)") (auto simp: less_Suc_eq_le dest!: log_directive_length)

declare log_message.simps (2) [simp del]

lemma message_part_conversion:
  assumes "message_part c va = Some (t, va')" and "1 < n" and "n \<le> RSIZE_MAX"
  shows "log_conversion junk maxp c sp n k va = Some (Inr (take (n - 1) t, va'))"
proof -
  consider "c = wch CHR ''%''" "va' = va" "t = [wch CHR ''%'']" | v where "va = VaWord v # va'" "is_number c" "t = conversion_text c v"
    | s where "va = VaWide s # va'" "c = wch CHR ''s''" "t = cstr (case s of None \<Rightarrow> gNullStringUefi | Some t \<Rightarrow> t)" "length t < 2 ^ 62"
    using assms(1) by (auto simp: message_part_def Let_def split: list.splits va.splits if_splits)
  then show ?thesis
  proof cases
    case 1
    then show ?thesis using assms(2) by (simp add: log_conversion_def)
  next
    case 2
    then show ?thesis using log_number_text [OF 2(2) assms(2)] assms(3) by simp
  next
    case 3
    then show ?thesis using log_print_text [OF print_s, of "case s of None \<Rightarrow> gNullStringUefi | Some t \<Rightarrow> t" n] assms(2,3)
      by (simp add: log_conversion_def log_field_def)
  qed
qed

lemma log_loop_message:
  "log_message fmt va = Some m \<Longrightarrow> length out < room \<Longrightarrow> room \<le> RSIZE_MAX \<Longrightarrow>
   log_loop junk maxp room fmt va out = Inr (take (room - 1) (out @ m))"
proof (induction junk maxp room fmt va out arbitrary: m rule: log_loop.induct)
  case (2 junk maxp room c fmt va out)
  show ?case
  proof (cases "room - length out \<le> 1")
    case True
    then show ?thesis using 2(5) by (simp add: log_loop.simps(2))
  next
    case r: False
    show ?thesis
    proof (cases "c = wch CHR ''%''")
      case False
      then show ?thesis using 2(1) [OF r] 2(4-6) r by (auto simp: log_loop.simps(2) log_message.simps(2))
    next
      case True
      then obtain fmt' sp va1 t va2 m' where d: "log_directive fmt va = Inr (fmt', sp, va1)" "message_part (ch fmt') va1 = Some (t, va2)"
        "log_message (tl fmt') va2 = Some m'" "m = t @ m'"
        using 2(4) by (auto simp: log_message.simps(2) split: sum.splits prod.splits option.splits)
      let ?n = "room - length out"
      have c: "log_conversion junk maxp (ch fmt') sp ?n (length out) va1 = Some (Inr (take (?n - 1) t, va2))"
        by (rule message_part_conversion [OF d(2)]) (use r 2(6) in auto)
      have "log_loop junk maxp room (tl fmt') va2 (out @ take (?n - 1) t) = Inr (take (room - 1) ((out @ take (?n - 1) t) @ m'))"
        by (rule 2(3) [OF r _ d(1) refl refl c refl refl d(3)]) (use True r 2(6) in auto)
      moreover have "take (room - 1) ((out @ take (?n - 1) t) @ m') = take (room - 1) (out @ m)"
        using 2(5) by (auto simp: d(4) min_def)
      ultimately show ?thesis using r True d(1) c by (simp add: log_loop.simps(2))
    qed
  qed
qed simp

lemma LogFmtVPrint_message:
  "log_message (cstr fmt) va = Some m \<Longrightarrow> 0 < n \<Longrightarrow> n \<le> RSIZE_MAX \<Longrightarrow> LogFmtVPrint junk maxp fmt va (n * 2) = Inr (take (n - 1) m)"
  using log_loop_message [of "cstr fmt" va m "[]" n junk maxp] by (simp add: LogFmtVPrint_def)

section \<open>Messages by their pieces\<close>

text \<open>
  A message without a parser: literal characters and conversions, each with its flags,
  width, precision, length modifier and argument.  A number in a conversion is written
  out or a star, which takes an argument.  The format and the arguments of a message are
  put together from its pieces.
\<close>

datatype log_number_form = Digits wtext | Star u64

datatype log_piece = Literal u16 | Conversion wtext log_number_form "log_number_form option" wtext u16 "va list"

fun number_format :: "log_number_form \<Rightarrow> wtext" where
  "number_format (Digits ds) = ds"
| "number_format (Star v) = [wch CHR ''*'']"

fun number_args :: "log_number_form \<Rightarrow> va list" where
  "number_args (Digits ds) = []"
| "number_args (Star v) = [VaWord v]"

fun number_ok :: "log_number_form \<Rightarrow> bool" where
  "number_ok (Digits ds) = list_all is_digit ds"
| "number_ok (Star v) = True"

fun piece_format :: "log_piece \<Rightarrow> wtext" where
  "piece_format (Literal c) = [c]"
| "piece_format (Conversion flags width prec lm c arg) =
     wch CHR ''%'' # flags @ number_format width @ (case prec of None \<Rightarrow> [] | Some p \<Rightarrow> wch CHR ''.'' # number_format p) @ lm @ [c]"

fun piece_args :: "log_piece \<Rightarrow> va list" where
  "piece_args (Literal c) = []"
| "piece_args (Conversion flags width prec lm c arg) =
     number_args width @ (case prec of None \<Rightarrow> [] | Some p \<Rightarrow> number_args p) @ arg"

text \<open>What a piece prints.  Flags, width and precision do not enter.\<close>

fun piece_text :: "log_piece \<Rightarrow> wtext" where
  "piece_text (Literal c) = [c]"
| "piece_text (Conversion flags width prec lm c arg) = (case arg of
       [VaWord v] \<Rightarrow> conversion_text c v
     | [VaWide s] \<Rightarrow> cstr (case s of None \<Rightarrow> gNullStringUefi | Some t \<Rightarrow> t)
     | _ \<Rightarrow> [wch CHR ''%''])"

text \<open>
  The conversions of strings, numbers and the percent sign, with an argument of their kind.
  A zero at the start of a width is a flag.
\<close>

fun piece_ok :: "log_piece \<Rightarrow> bool" where
  "piece_ok (Literal c) \<longleftrightarrow> c \<noteq> 0 \<and> c \<noteq> wch CHR ''%''"
| "piece_ok (Conversion flags width prec lm c arg) \<longleftrightarrow>
     list_all (\<lambda>f. f = wch CHR ''-'' \<or> f = wch CHR ''0'') flags \<and>
     number_ok width \<and> ch (number_format width) \<noteq> wch CHR ''0'' \<and> (case prec of None \<Rightarrow> True | Some p \<Rightarrow> number_ok p) \<and>
     lm \<in> {[], wide ''h'', wide ''hh'', wide ''l'', wide ''ll'', wide ''L'', wide ''Ll''} \<and>
     (case arg of [] \<Rightarrow> c = wch CHR ''%''
      | [VaWord v] \<Rightarrow> is_number c
      | [VaWide s] \<Rightarrow> c = wch CHR ''s'' \<and> length (cstr (case s of None \<Rightarrow> gNullStringUefi | Some t \<Rightarrow> t)) < 2 ^ 62
      | _ \<Rightarrow> False)"

lemma log_flags_skip:
  "list_all (\<lambda>f. f = wch CHR ''-'' \<or> f = wch CHR ''0'') fl \<Longrightarrow> ch rest \<noteq> wch CHR ''-'' \<Longrightarrow> ch rest \<noteq> wch CHR ''0'' \<Longrightarrow>
   \<exists>z' l'. log_flags (fl @ rest) z l = (rest, z', l')"
proof (induction fl arbitrary: z l)
  case Nil
  then show ?case by (cases rest) (simp_all add: ch_def)
qed auto

lemma log_number_skip: "list_all is_digit ds \<Longrightarrow> \<not> is_digit (ch rest) \<Longrightarrow> \<exists>w. log_number (ds @ rest) n = (rest, w)"
proof (induction ds arbitrary: n)
  case Nil
  then show ?case by (cases rest) (simp_all add: ch_def)
qed simp

lemma digit_not_star: "is_digit c \<Longrightarrow> c \<noteq> wch CHR ''*''"
  by (auto simp: is_digit_def)

lemma log_width_skip:
  assumes "number_ok n" "\<not> is_digit (ch rest)" "ch rest \<noteq> wch CHR ''*''"
  shows "\<exists>w. log_width (number_format n @ rest) (number_args n @ va) = Inr (rest, w, va)"
proof (cases n)
  case (Digits ds)
  have "ch (ds @ rest) \<noteq> wch CHR ''*''" using assms Digits digit_not_star by (cases ds) (auto simp: ch_def)
  then show ?thesis using log_number_skip [of ds rest 0] assms Digits by (auto simp: log_width_def)
qed (simp add: log_width_def ch_def)

definition piece_end :: "u16 \<Rightarrow> bool" where
  "piece_end c \<longleftrightarrow> is_number c \<or> c = wch CHR ''s'' \<or> c = wch CHR ''%''"

lemma piece_end_char:
  assumes "piece_end c"
  shows "c \<noteq> wch CHR ''l'' \<and> c \<noteq> wch CHR ''L'' \<and> c \<noteq> wch CHR ''h'' \<and> c \<noteq> wch CHR ''.'' \<and> c \<noteq> wch CHR ''*'' \<and> \<not> is_digit c
    \<and> c \<noteq> wch CHR ''-'' \<and> c \<noteq> wch CHR ''0'' \<and> c \<noteq> 0"
  using assms by (auto simp: piece_end_def is_number_def is_digit_def)

lemma log_length_skip:
  assumes "lm \<in> {[], wide ''h'', wide ''hh'', wide ''l'', wide ''ll'', wide ''L'', wide ''Ll''}" "piece_end c"
  shows "log_length (lm @ c # rest) = c # rest"
  using assms(1) piece_end_char [OF assms(2)] by (auto simp: log_length_def ch_def wide_def)

text \<open>The parser takes the conversion apart as it was put together.\<close>

lemma log_directive_piece:
  assumes ok: "piece_ok (Conversion flags width prec lm c arg)"
  shows "\<exists>sp. log_directive (tl (piece_format (Conversion flags width prec lm c arg)) @ rest) (piece_args (Conversion flags width prec lm c arg) @ va)
    = Inr (c # rest, sp, arg @ va)"
proof -
  define tail where "tail = lm @ c # rest"
  define mid where "mid = (case prec of None \<Rightarrow> [] | Some p \<Rightarrow> wch CHR ''.'' # number_format p) @ tail"
  have c: "piece_end c" using ok by (auto simp: piece_end_def split: list.splits va.splits)
  note cc = piece_end_char [OF c]
  have lm: "lm \<in> {[], wide ''h'', wide ''hh'', wide ''l'', wide ''ll'', wide ''L'', wide ''Ll''}" using ok by simp
  then have t: "\<not> is_digit (ch tail) \<and> ch tail \<noteq> wch CHR ''*'' \<and> ch tail \<noteq> wch CHR ''.'' \<and> ch tail \<noteq> wch CHR ''-'' \<and> ch tail \<noteq> wch CHR ''0''"
    using cc by (auto simp: tail_def ch_def wide_def is_digit_def)
  have m: "\<not> is_digit (ch mid) \<and> ch mid \<noteq> wch CHR ''*'' \<and> ch mid \<noteq> wch CHR ''-'' \<and> ch mid \<noteq> wch CHR ''0''"
    using t by (cases prec) (auto simp: mid_def ch_def is_digit_def)
  have w: "ch (number_format width @ mid) \<noteq> wch CHR ''-'' \<and> ch (number_format width @ mid) \<noteq> wch CHR ''0''"
    using ok m by (cases width; cases "number_format width") (auto simp: ch_def is_digit_def)
  obtain z l where fl: "log_flags (flags @ number_format width @ mid) False False = (number_format width @ mid, z, l)"
    using log_flags_skip [of flags "number_format width @ mid"] w ok by fastforce
  define va1 where "va1 = (case prec of None \<Rightarrow> [] | Some p \<Rightarrow> number_args p) @ arg @ va"
  obtain wd where wd: "log_width (number_format width @ mid) (number_args width @ va1) = Inr (mid, wd, va1)"
    using log_width_skip [of width mid va1] m ok by auto
  have "\<exists>pr. log_precision mid va1 = Inr (tail, pr, arg @ va)"
  proof (cases prec)
    case None
    then show ?thesis using t by (simp add: mid_def va1_def log_precision_def)
  next
    case (Some p)
    then show ?thesis using log_width_skip [of p tail "arg @ va"] t ok by (auto simp: mid_def va1_def log_precision_def ch_def)
  qed
  then obtain pr where "log_precision mid va1 = Inr (tail, pr, arg @ va)" ..
  moreover have "tl (piece_format (Conversion flags width prec lm c arg)) @ rest = flags @ number_format width @ mid"
    by (simp add: mid_def tail_def)
  moreover have "piece_args (Conversion flags width prec lm c arg) @ va = number_args width @ va1" by (simp add: va1_def)
  ultimately show ?thesis using fl wd log_length_skip [OF lm c, of rest] by (simp only: log_directive_def) (simp add: tail_def)
qed

lemma message_piece:
  assumes "piece_ok (Conversion flags width prec lm c arg)"
  shows "message_part c (arg @ va) = Some (piece_text (Conversion flags width prec lm c arg), va)"
  using assms by (auto simp: message_part_def is_number_def Let_def split: list.splits va.splits)

lemma log_message_pieces:
  "list_all piece_ok ps \<Longrightarrow> log_message (concat (map piece_format ps)) (concat (map piece_args ps)) = Some (concat (map piece_text ps))"
proof (induction ps)
  case (Cons q ps)
  show ?case
  proof (cases q)
    case (Literal c)
    then show ?thesis using Cons by (simp add: log_message.simps(2))
  next
    case (Conversion flags width prec lm c arg)
    let ?rest = "concat (map piece_format ps)" and ?va = "concat (map piece_args ps)"
    have ok: "piece_ok (Conversion flags width prec lm c arg)" using Cons.prems Conversion by simp
    define f where "f = tl (piece_format q) @ ?rest"
    obtain sp where "log_directive f (piece_args q @ ?va) = Inr (c # ?rest, sp, arg @ ?va)"
      unfolding f_def using log_directive_piece [OF ok, of ?rest ?va] Conversion by blast
    moreover have "message_part c (arg @ ?va) = Some (piece_text q, ?va)" using message_piece [OF ok] Conversion by simp
    moreover have "log_message ?rest ?va = Some (concat (map piece_text ps))" using Cons by simp
    ultimately have "log_message (wch CHR ''%'' # f) (piece_args q @ ?va) = Some (piece_text q @ concat (map piece_text ps))"
      by (simp add: log_message.simps(2) ch_def)
    moreover have "piece_format q @ ?rest = wch CHR ''%'' # f" by (simp add: Conversion f_def)
    ultimately show ?thesis by (simp only: list.map concat.simps)
  qed
qed simp

lemma pieces_nonzero: "list_all piece_ok ps \<Longrightarrow> cstr (concat (map piece_format ps)) = concat (map piece_format ps)"
proof -
  have "x \<noteq> 0" if "piece_ok q" "x \<in> set (piece_format q)" for q x
  proof (cases q)
    case (Literal c)
    then show ?thesis using that by simp
  next
    case (Conversion flags width prec lm c arg)
    have n: "x \<noteq> 0" if "number_ok n" "x \<in> set (number_format n)" for n
      using that by (cases n) (auto simp: list_all_iff is_digit_def)
    have "piece_end c" using that(1) Conversion by (auto simp: piece_end_def split: list.splits va.splits)
    then have "c \<noteq> 0" using piece_end_char by blast
    then show ?thesis using that Conversion n
      by (auto simp: list_all_iff wide_def split: option.splits)
  qed
  then show "list_all piece_ok ps \<Longrightarrow> ?thesis"
    unfolding cstr_def takeWhile_eq_all_conv by (fastforce simp: list_all_iff)
qed

section \<open>The header\<close>

definition int_arg :: "u64 \<Rightarrow> u64" where
  "int_arg w = scast (ucast w :: u32)"

definition safe_text :: "wtext option \<Rightarrow> wtext" where
  "safe_text s = cstr (case s of None \<Rightarrow> gNullStringUefi | Some s \<Rightarrow> s)"

text \<open>The header a line starts with, by its fields.\<close>

definition header_rest :: "log_event \<Rightarrow> print_time \<Rightarrow> wtext" where
  "header_rest e t =
     signed_text 4 (ucast (Year t)) @ wide ''-'' @ signed_text 2 (ucast (Month t)) @ wide ''-'' @ signed_text 2 (ucast (Day t)) @ wide ''T''
     @ signed_text 2 (ucast (Hour t)) @ wide '':'' @ signed_text 2 (ucast (Minute t)) @ wide '':'' @ signed_text 2 (ucast (Second t)) @ wide '' ''
     @ safe_text (host e) @ wide '' '' @ safe_text (appname e) @ wide '' '' @ safe_text (csc e)
     @ wide '' R-SAT-PWT-SFR-'' @ signed_text 3 (scast (sfrid e)) @ wide '' '' @ safe_text (evtype e) @ wide '' ''"

definition header_text :: "log_event \<Rightarrow> print_time \<Rightarrow> wtext" where
  "header_text e t = signed_text 0 (scast (prio e)) @ wide '' '' @ signed_text 0 (scast (ver e)) @ wide '' '' @ header_rest e t"

lemma print_int:
  "format_text nested (37 # 100 # fmt) (VaWord w # va) = map_sum id ((@) (signed_text 0 (int_arg w))) (format_text nested fmt va)"
  "format_text nested (37 # 48 # 50 # 100 # fmt) (VaWord w # va) = map_sum id ((@) (signed_text 2 (int_arg w))) (format_text nested fmt va)"
  "format_text nested (37 # 48 # 51 # 100 # fmt) (VaWord w # va) = map_sum id ((@) (signed_text 3 (int_arg w))) (format_text nested fmt va)"
  "format_text nested (37 # 48 # 52 # 100 # fmt) (VaWord w # va) = map_sum id ((@) (signed_text 4 (int_arg w))) (format_text nested fmt va)"
proof -
  have p: "plain_spec no_spec" "field_width no_spec = 0" "number_value no_spec w = int_arg w" by (simp_all add: spec_eval no_spec_def int_arg_def)
  have "parse_spec (100 # fmt) (VaWord w # va) no_spec = Inr (wch CHR ''d'' # fmt, VaWord w # va, no_spec)" by (simp add: parse_eval)
  from format_text_d [OF this p(1), of nested]
  show "format_text nested (37 # 100 # fmt) (VaWord w # va) = map_sum id ((@) (signed_text 0 (int_arg w))) (format_text nested fmt va)"
    by (simp add: p)
  let ?sp = "\<lambda>k. no_spec\<lparr>PREFIX_ZERO := True, PAD_TO_WIDTH := True, Width := k\<rparr>"
  have q: "plain_spec (?sp k)" "field_width (?sp k) = unat k" "number_value (?sp k) w = int_arg w" if "unat k < 5" for k
    using that by (simp_all add: spec_eval no_spec_def int_arg_def)
  have r: "parse_spec (48 # 50 # 100 # fmt) (VaWord w # va) no_spec = Inr (wch CHR ''d'' # fmt, VaWord w # va, ?sp 2)"
    "parse_spec (48 # 51 # 100 # fmt) (VaWord w # va) no_spec = Inr (wch CHR ''d'' # fmt, VaWord w # va, ?sp 3)"
    "parse_spec (48 # 52 # 100 # fmt) (VaWord w # va) no_spec = Inr (wch CHR ''d'' # fmt, VaWord w # va, ?sp 4)"
    by (simp_all add: parse_eval)
  show "format_text nested (37 # 48 # 50 # 100 # fmt) (VaWord w # va) = map_sum id ((@) (signed_text 2 (int_arg w))) (format_text nested fmt va)"
    using format_text_d [OF r(1) q(1), of nested] by (simp add: q)
  show "format_text nested (37 # 48 # 51 # 100 # fmt) (VaWord w # va) = map_sum id ((@) (signed_text 3 (int_arg w))) (format_text nested fmt va)"
    using format_text_d [OF r(2) q(1), of nested] by (simp add: q)
  show "format_text nested (37 # 48 # 52 # 100 # fmt) (VaWord w # va) = map_sum id ((@) (signed_text 4 (int_arg w))) (format_text nested fmt va)"
    using format_text_d [OF r(3) q(1), of nested] by (simp add: q)
qed

lemma print_string:
  "length (cstr t) < 2 ^ 62 \<Longrightarrow>
   format_text nested (37 # 115 # fmt) (VaWide (Some t) # va) = map_sum id ((@) (cstr t)) (format_text nested fmt va)"
proof -
  assume l: "length (cstr t) < 2 ^ 62"
  have "parse_spec (115 # fmt) (VaWide (Some t) # va) no_spec = Inr (wch CHR ''s'' # fmt, VaWide (Some t) # va, no_spec)" by (simp add: parse_eval)
  from format_text_s [OF this _ _ l] show ?thesis by (simp add: no_spec_def)
qed

lemma int_arg_simps [simp]:
  "int_arg (ucast (w :: u32)) = scast w" "int_arg (ucast (h :: u16)) = ucast h" "int_arg (ucast (b :: byte)) = ucast b"
  unfolding int_arg_def
  by (rule bit_word_eqI; auto simp: bit_simps min_def dest: bit_imp_le_length)+

definition fields_fit :: "log_event \<Rightarrow> bool" where
  "fields_fit e \<longleftrightarrow> (\<forall>s \<in> {host e, appname e, csc e, evtype e}. length (safe_text s) < 2 ^ 62)"

lemma header_printed:
  assumes "fields_fit e"
  shows "format_text nested header_format (header_args e t) = Inr (header_text e t)"
proof -
  have s: "length (cstr (case s of None \<Rightarrow> gNullStringUefi | Some s \<Rightarrow> s)) < 2 ^ 62" if "s \<in> {host e, appname e, csc e, evtype e}" for s
    using assms that by (auto simp: fields_fit_def safe_text_def)
  show ?thesis
    unfolding header_format_def header_args_def header_text_def header_rest_def Let_def wide_def
    by (simp add: format_text_char plain_char_def print_int print_string [OF s] safe_text_def)
qed

lemma ValueToString_set: "2 \<le> radix \<Longrightarrow> radix \<le> 16 \<Longrightarrow> c \<in> set (BasePrintLibValueToString v radix) \<Longrightarrow> \<exists>d < 16. c = mHexStr ! d"
proof (induction v radix rule: BasePrintLibValueToString.induct)
  case (1 v radix)
  have "v mod radix < 16" using 1(2,3) mod_less_divisor [of radix v] by linarith
  then show ?case using 1 by (auto simp: BasePrintLibValueToString.simps [of v] split: if_splits)
qed

lemma hex_digit_ascii: "d < 16 \<Longrightarrow> to_ascii (mHexStr ! d) \<noteq> of_char CHR '' '' \<and> mHexStr ! d \<noteq> 0"
  by (drule hex_digit_cases) (auto simp: mHexStr_def wide_def to_ascii_def)

lemma value_text_ascii: "c \<in> set (value_text 10 v) \<Longrightarrow> to_ascii c \<noteq> of_char CHR '' '' \<and> c \<noteq> 0"
  using ValueToString_set [of 10 c "unat v"] hex_digit_ascii by (auto simp: value_text_def)

lemma signed_text_head: "\<exists>c r. signed_text 0 v = c # r \<and> c \<noteq> 0 \<and> to_ascii c \<noteq> of_char CHR '' ''"
proof (cases "v <s 0")
  case False
  obtain c r where "value_text 10 v = c # r" by (cases "value_text 10 v") auto
  then show ?thesis using False value_text_ascii [of c v] by (simp add: signed_text_def padded_def)
qed (simp add: signed_text_def to_ascii_def)

lemma log_text_header: "0 < n \<Longrightarrow> log_text (take n (header_text e t @ m)) \<noteq> []"
proof -
  assume "0 < n"
  obtain c r where "signed_text 0 (scast (prio e)) = c # r" "c \<noteq> 0" "to_ascii c \<noteq> of_char CHR '' ''" using signed_text_head by blast
  then show ?thesis using \<open>0 < n\<close> by (cases n) (simp_all add: header_text_def log_text_def cstr_def)
qed

lemma header_written:
  assumes "fields_fit e" and "maxp < RSIZE_MAX"
  shows "log_print (maxp + 1) header_format (header_args e t) = Inr (take maxp (header_text e t))"
  using log_print_text [OF header_printed [OF assms(1)], of "maxp + 1"] assms(2) by (simp add: header_format_def)

lemma log_text_Cons:
  "c \<noteq> 0 \<Longrightarrow> log_text (c # m) = (if not_space (to_ascii c) then [to_ascii c] else []) @ log_text m"
  by (simp add: log_text_def cstr_def)

lemma small_numbers:
  "signed_text 0 1 = wide ''1''" "signed_text 0 12 = wide ''12''"
  "signed_text 0 11 = wide ''11''" "signed_text 0 2 = wide ''2''"
  by (simp_all add: signed_text_def padded_def value_text_def BasePrintLibValueToString.simps mHexStr_def wide_def word_sless_alt)

section \<open>Examples\<close>

definition demo_event :: log_event where
  "demo_event = \<lparr>prio = 14, ver = 1, host = Some (wide ''sbc''), appname = None, csc = Some (wide ''csc''), sfrid = 7, evtype = Some (wide ''boot'')\<rparr>"

definition demo_now :: print_time where
  "demo_now = \<lparr>Year = 2025, Month = 3, Day = 9, Hour = 8, Minute = 5, Second = 0\<rparr>"

lemmas text_eval = signed_text_def padded_def value_text_def BasePrintLibValueToString.simps mHexStr_def wide_def word_sless_alt

lemma two_zeros: "replicate 2 x = [x, x]"
  by (simp add: numeral_2_eq_2)

lemma demo_header: "header_text demo_event demo_now = wide ''14 1 2025-03-09T08:05:00 sbc (null) csc R-SAT-PWT-SFR-007 boot ''"
  by (simp add: header_text_def header_rest_def demo_event_def demo_now_def safe_text_def gNullStringUefi_def cstr_def text_eval two_zeros)

lemma demo_message: "log_message (cstr (wide ''fw %s %d ok'')) [VaWide (Some (wide ''1a'')), VaWord 42] = Some (wide ''fw 1a 42 ok'')"
  by (simp add: cstr_def wide_def log_message.simps log_directive_def log_width_def log_precision_def log_length_def ch_def is_digit_def
      message_part_def is_number_def conversion_text_def) (simp add: text_eval)

text \<open>The message \<^verbatim>\<open>fw %-8.1s %05ld ok\<close> by its pieces.\<close>

definition demo_pieces :: "log_piece list" where
  "demo_pieces = map Literal (wide ''fw '') @
     [Conversion (wide ''-'') (Digits (wide ''8'')) (Some (Digits (wide ''1''))) [] (wch CHR ''s'') [VaWide (Some (wide ''1a''))], Literal (wch CHR '' ''),
      Conversion (wide ''0'') (Digits (wide ''5'')) None (wide ''l'') (wch CHR ''d'') [VaWord 42]] @ map Literal (wide '' ok'')"

lemma demo_pieces_ok: "list_all piece_ok demo_pieces"
  by (simp add: demo_pieces_def wide_def is_digit_def ch_def is_number_def cstr_def)

lemma demo_pieces_format:
  "concat (map piece_format demo_pieces) = wide ''fw %-8.1s %05ld ok''"
  "concat (map piece_args demo_pieces) = [VaWide (Some (wide ''1a'')), VaWord 42]"
  by (simp_all add: demo_pieces_def wide_def)

lemma demo_pieces_text: "concat (map piece_text demo_pieces) = wide ''fw 1a 42 ok''"
  by (simp add: demo_pieces_def wide_def cstr_def conversion_text_def) (simp add: text_eval)

section \<open>Writes of the formatter\<close>

lemma log_print_fits: "log_print n fmt va = Inr t \<Longrightarrow> 0 < n \<Longrightarrow> length t < n"
  using usp.bounded [of n fmt va] by (cases "UnicodeSPrint (n * 2) fmt va") (auto simp: log_print_def split: option.splits)

lemma ascii_field_fits: "ascii_field junk maxp s sp n k = Inr t \<Longrightarrow> 0 < n \<Longrightarrow> length t < n"
proof -
  assume f: "ascii_field junk maxp s sp n k = Inr t" and n: "0 < n"
  define len0 where "len0 = AsciiStrCpyS (maxp + 1) s"
  define cut where "cut = (LogPrecision sp \<noteq> - 1 \<and> len0 > LogPrecision sp)"
  define len where "len = (if cut then LogPrecision sp else len0)"
  define fill where "fill = (if LogWidth sp > len then unat (LogWidth sp - len) else 0)"
  define before where "before = (if LeftJustify sp then 0 else min fill (n - (k + 1)))"
  define mid where "mid = min (unat len) (n - (k + before + 1))"
  define after where "after = (if LeftJustify sp then min fill (n - (k + mid + 1)) else 0)"
  have "ascii_field junk maxp s sp n k = (if cut \<and> unat len > maxp \<or> mid > maxp + 1 then Inl OutOfBounds
      else Inr (replicate before (if PadWithZero sp then wch CHR ''0'' else wch CHR '' '') @ map (\<lambda>i. ucast (junk i)) [0..<mid]
        @ replicate after (if PadWithZero sp then wch CHR ''0'' else wch CHR '' '')))"
    by (simp only: ascii_field_def Let_def len0_def cut_def len_def fill_def before_def mid_def after_def)
  then have "length t = before + mid + after" using f by (cases "cut \<and> unat len > maxp \<or> mid > maxp + 1") auto
  moreover have "before \<le> n - (k + 1)" "mid \<le> n - (k + before + 1)" "after \<le> n - (k + mid + 1)" "before = 0 \<or> after = 0"
    by (simp_all add: before_def mid_def after_def)
  ultimately show ?thesis using n by linarith
qed

text \<open>
  A conversion leaves a place for the terminator; only a character that is none takes
  two places when two remain.  So the text never leaves the buffer, and the check of
  the terminator in \<open>log_loop\<close> is the only one needed.
\<close>

lemma log_field_text: "log_field arg f = Inr (t, va) \<Longrightarrow> \<exists>x. f x = Inr t"
proof (cases arg)
  case (Inr p)
  assume "log_field arg f = Inr (t, va)"
  then have "f (fst p) = Inr t" using Inr by (cases "f (fst p)") (auto simp: log_field_def split: prod.splits)
  then show ?thesis by blast
qed (simp add: log_field_def)

lemma log_conversion_fits:
  assumes "log_conversion junk maxp c sp n k va = Some (Inr (t, va'))" and "1 < n"
  shows "length t < n"
  using assms
  by (auto simp: log_conversion_def split: if_splits dest!: log_field_text dest: log_print_fits ascii_field_fits)

section \<open>Defects of the formatter\<close>

lemma unknown_conversion_overruns: "LogFmtVPrint junk maxp (wide ''%q'') va 4 = Inl OutOfBounds"
  by (simp add: LogFmtVPrint_def wide_def cstr_def log_loop.simps log_directive_def log_width_def log_precision_def log_length_def ch_def
      is_digit_def log_conversion_def)

lemma percent_at_end_overruns: "2 \<le> n \<Longrightarrow> LogFmtVPrint junk maxp (wide ''%'') va (n * 2) = Inl OutOfBounds"
  by (simp add: LogFmtVPrint_def wide_def cstr_def log_loop.simps log_directive_def log_width_def log_precision_def log_length_def ch_def
      is_digit_def log_conversion_def)

lemma ascii_argument_lost:
  "length s \<le> maxp \<Longrightarrow> maxp < RSIZE_MAX \<Longrightarrow> 2 \<le> n \<Longrightarrow> LogFmtVPrint junk maxp (wide ''%a'') [VaAscii (Some s)] (n * 2) = Inr []"
proof -
  have c: "cstr [37, 97 :: u16] = [37, 97]" by (simp add: cstr_def)
  assume s: "length s \<le> maxp" and r: "maxp < RSIZE_MAX" and n: "2 \<le> n"
  have "length (cstr s) < maxp + 1" unfolding cstr_def using s length_takeWhile_le [of _ s] by (metis le_imp_less_Suc order_trans Suc_eq_plus1)
  then show ?thesis using n r
    by (simp add: LogFmtVPrint_def wide_def c log_loop.simps log_directive_def log_width_def log_precision_def log_length_def ch_def
        is_digit_def log_conversion_def log_field_def ascii_field_def AsciiStrCpyS_def Let_def)
qed

section \<open>Printing helpers of the first stage\<close>

lemma digit_char: "d < 10 \<Longrightarrow> 48 + of_nat d = mHexStr ! d"
proof -
  assume "d < 10"
  then have "d \<in> {0, 1, 2, 3, 4, 5, 6, 7, 8, 9 :: nat}" by simp presburger
  then show ?thesis by (auto simp: mHexStr_def wide_def)
qed

lemma manual_digits_value:
  "0 < v \<Longrightarrow> length (BasePrintLibValueToString v 10) \<le> n \<Longrightarrow> manual_digits n v = BasePrintLibValueToString v 10"
proof (induction n arbitrary: v)
  case 0
  then show ?case by (simp add: BasePrintLibValueToString.simps [of v])
next
  case (Suc n)
  have d: "48 + of_nat (v mod 10) = mHexStr ! (v mod 10)" by (rule digit_char) simp
  show ?case
  proof (cases "v div 10 = 0")
    case True
    then show ?thesis using Suc(2) d by (cases n) (simp_all add: BasePrintLibValueToString.simps [of v])
  next
    case False
    then show ?thesis using Suc d by (simp add: BasePrintLibValueToString.simps [of v])
  qed
qed

lemma manual_number:
  assumes "\<not> v <s 0"
  shows "IntToUnicodeStringManual v 60 = (length (value_text 10 v), Some (value_text 10 v))"
proof (cases "v = 0")
  case True
  then show ?thesis by (simp add: IntToUnicodeStringManual_def value_text_def BasePrintLibValueToString.simps mHexStr_def wide_def)
next
  case False
  then have p: "0 < unat v" by (simp add: unat_gt_0)
  have "manual_digits 29 (unat v) = BasePrintLibValueToString (unat v) 10"
    by (rule manual_digits_value [OF p]) (use decimal_length [of v] in \<open>simp add: value_text_def\<close>)
  then show ?thesis using assms p by (simp add: IntToUnicodeStringManual_def value_text_def Let_def)
qed

lemma manual_negative: "IntToUnicodeStringManual (- 12) 60 = (3, Some (wide ''2-1''))"
proof -
  have m: "manual_digits (Suc n) v = (if v = 0 then [] else (48 + of_nat (v mod 10)) # manual_digits n (v div 10))" for n v by simp
  have "manual_digits 29 12 = wide ''21''" using m [of 28 12] m [of 27 1] m [of 26 0] by (simp add: wide_def)
  then show ?thesis by (simp add: IntToUnicodeStringManual_def word_sless_alt wide_def)
qed

lemma hex_cell_printed: "format_text nested (wide ''%02x '') [VaWord (ucast b)] = Inr (hex_cell b @ wide '' '')"
proof -
  let ?sp = "no_spec\<lparr>PREFIX_ZERO := True, PAD_TO_WIDTH := True, Width := 2\<rparr>"
  have p: "parse_spec (wide ''02x '') [VaWord (ucast b)] no_spec = Inr (wch CHR ''x'' # wide '' '', [VaWord (ucast b)], ?sp)"
    by (simp add: wide_def parse_eval)
  have w: "wide ''%02x '' = wch CHR ''%'' # wide ''02x ''" by (simp add: wide_def)
  have l: "low_half (ucast b) = ucast b" unfolding low_half_def by (rule bit_word_eqI) (auto simp: bit_simps dest: bit_imp_le_length)
  show ?thesis unfolding w
    by (subst format_text_x [OF p]) (simp_all add: spec_eval no_spec_def is_hex_def hex_cell_def l wide_def format_text_char plain_char_def)
qed

lemma merged_arguments_lost: "SBC_LogMrg (wide ''%d'') va = Inl WildPointer"
  by (simp add: SBC_LogMrg_def cstr_def wide_def UnicodeSPrint_def UnicodeVSPrint_def BasePrintLibSPrintMarker_def print_marker_def print_loop.simps
      print_dst_of_def buffer_full_def format_item_def parse_eval convert_def ch_def is_hex_def field_of_def Let_def)

lemma custom_print_shows_nothing: "SBC_LogCustomPrint fmt va = Inr (s, out, shown) \<Longrightarrow> shown = []"
  by (cases "custom_loop (cstr (the fmt)) va 512 []") (auto simp: SBC_LogCustomPrint_def split: option.splits prod.splits)

lemma custom_print_null: "SBC_LogCustomPrint (Some (wide ''%s'')) [VaWide None] = Inl NullDeref"
  by (simp add: SBC_LogCustomPrint_def cstr_def wide_def custom_loop.simps ch_def)

section \<open>A whole line\<close>

lemma log_printed:
  assumes "fields_fit e" and "maxp < RSIZE_MAX" and "length (header_text e (log_time now)) + 4 \<le> maxp"
    and "log_message (cstr format) va = Some m"
  shows "SBC_LogPrint junk maxp now e format va = Inr (Some (log_text (take maxp (header_text e (log_time now) @ m))))"
proof -
  let ?h = "header_text e (log_time now)" let ?n = "maxp + 1 - length ?h"
  have h: "log_print (maxp + 1) header_format (header_args e (log_time now)) = Inr ?h"
    using header_written [OF assms(1,2)] assms(3) by simp
  have m: "LogFmtVPrint junk maxp format va (?n * 2) = Inr (take (?n - 1) m)"
    by (rule LogFmtVPrint_message [OF assms(4)]) (use assms(2,3) in auto)
  have r: "\<not> ?n \<le> 4" using assms(3) by simp
  have t: "?h @ take (?n - 1) m = take maxp (?h @ m)" using assms(3) by simp
  have "SBC_LogPrint junk maxp now e format va = log_finish junk maxp (take maxp (?h @ m))"
    unfolding SBC_LogPrint_def h sum.case Let_def m t if_not_P [OF r] ..
  then show ?thesis using assms(3) log_text_header [of maxp e "log_time now" m] by (simp add: log_finish_text)
qed

lemma demo_fits: "fields_fit demo_event"
  by (simp add: fields_fit_def demo_event_def safe_text_def gNullStringUefi_def cstr_def wide_def)

end
