(* ===== verification/Log_Theorems.thy ===== *)
theory Log_Theorems
  imports Log_Facts
begin

unbundle bit_operations_syntax

text \<open>The properties of the printing library and of the log.\<close>

section \<open>Formatted printing\<close>

text \<open>C13: A buffer of n characters receives the first n - 1 characters of what any larger
  buffer receives, so with its terminator the output never leaves the buffer, whatever
  the format and the arguments are.\<close>

theorem print_truncates:
  assumes "BasePrintLibSPrintMarker uni n fmt va = Inr (Some s)" and "BasePrintLibSPrintMarker uni m fmt va = Inr (Some t)"
    and "n \<le> m"
  shows "s = take (n - 1) t \<and> length s < n"
  using print_marker_contract(1) [OF assms(1) [unfolded BasePrintLibSPrintMarker_def]]
    print_marker_contract(2) [OF assms(3) assms(1,2) [unfolded BasePrintLibSPrintMarker_def]] by simp

theorem print_truncates_witness:
  "BasePrintLibSPrintMarker True 3 (wide ''%lld'') [VaWord 1234] = Inr (Some (wide ''12'')) \<and>
   BasePrintLibSPrintMarker True 22 (wide ''%lld'') [VaWord 1234] = Inr (Some (wide ''1234'')) \<and>
   wide ''12'' = take (3 - 1) (wide ''1234'') \<and> length (wide ''12'') < 3"
proof -
  have s: "signed_text 0 1234 = wide ''1234''" by (simp add: text_eval)
  have a: "BasePrintLibSPrintMarker True 3 (wide ''%lld'') [VaWord 1234] = Inr (Some (wide ''12''))"
    using marker_text [OF print_d, of 3 1234] by (simp add: s) (simp add: wide_def)
  have b: "BasePrintLibSPrintMarker True 22 (wide ''%lld'') [VaWord 1234] = Inr (Some (wide ''1234''))"
    using marker_text [OF print_d, of 22 1234] by (simp add: s)
  show ?thesis using a b print_truncates [OF a b] by simp
qed

text \<open>C14: Numbers print and read back: the text of \<^verbatim>\<open>%lld\<close> read as a decimal number is the signed
  value of the argument, the text of \<^verbatim>\<open>%llx\<close> read as a hexadecimal number its unsigned value, for
  all 64-bit values, the most negative one included, in buffers of 44 and 34 bytes.\<close>

theorem numbers_read_back:
  "(\<exists>t. UnicodeSPrint 44 (wide ''%lld'') [VaWord v] = Inr (Some t) \<and> signed_value t = sint v) \<and>
   (\<exists>t. UnicodeSPrint 34 (wide ''%llx'') [VaWord v] = Inr (Some t) \<and> text_value 16 t = unat v)"
proof
  have "BasePrintLibSPrintMarker True 22 (wide ''%lld'') [VaWord v] = Inr (Some (take 21 (signed_text 0 v)))"
    using marker_text [OF print_d, of 22] by (simp add: wide_def)
  then show "\<exists>t. UnicodeSPrint 44 (wide ''%lld'') [VaWord v] = Inr (Some t) \<and> signed_value t = sint v"
    using signed_text_length [of v] by (simp add: UnicodeSPrint_def UnicodeVSPrint_def take_whole signed_text_value)
next
  have "BasePrintLibSPrintMarker True 17 (wide ''%llx'') [VaWord v] = Inr (Some (take 16 (value_text 16 v)))"
    using marker_text [OF print_x, of 17] by (simp add: wide_def)
  then show "\<exists>t. UnicodeSPrint 34 (wide ''%llx'') [VaWord v] = Inr (Some t) \<and> text_value 16 t = unat v"
    using hex_length [of v] by (simp add: UnicodeSPrint_def UnicodeVSPrint_def take_whole value_text_value)
qed

text \<open>The two ways to print a decimal number agree: \<^verbatim>\<open>%lld\<close> and \<^verbatim>\<open>%,lld\<close> give the same text as
  \<^verbatim>\<open>UnicodeValueToStringS\<close> without and with its flag for commas, although one counts the commas
  beforehand and the other while it copies.\<close>

theorem value_printers_agree:
  "UnicodeSPrint 100 (if comma then wide ''%,lld'' else wide ''%lld'') [VaWord v] = Inr (Some (comma_text comma v)) \<and>
   UnicodeValueToStringS 100 (if comma then 0x08 else 0) v 0 = (EFI_SUCCESS, Some (comma_text comma v))"
proof
  have "BasePrintLibSPrintMarker True 50 (if comma then wide ''%,lld'' else wide ''%lld'') [VaWord v] = Inr (Some (take 49 (comma_text comma v)))"
    using marker_text [OF print_d, of 50] marker_text [OF print_comma, of 50] by (simp add: wide_def comma_text_False)
  then show "UnicodeSPrint 100 (if comma then wide ''%,lld'' else wide ''%lld'') [VaWord v] = Inr (Some (comma_text comma v))"
    using comma_text_length [of comma v] by (simp add: UnicodeSPrint_def UnicodeVSPrint_def)
next
  define d where "d = value_text 10 (if v <s 0 then - v else v)"
  define k where "k = (if length d mod 3 \<noteq> 0 then 3 - length d mod 3 else 0)"
  have d: "length d \<le> 20" "d \<noteq> []" using decimal_length by (simp_all add: d_def)
  define fin where "fin = length d + (if v <s 0 then 1 else 0) + (if comma then (length d - 1) div 3 else 0)"
  have t: "comma_text comma v = (if v <s 0 then [wch CHR ''-''] else []) @ comma_loop comma k d"
    by (simp only: comma_text_def d_def k_def Let_def)
  have l: "length (comma_text comma v) = fin" by (simp only: comma_text_count fin_def d_def Let_def)
  have f: "fin \<le> 27" using comma_text_length [of comma v] l by simp
  have s: "BasePrintLibFillBuffer True fin 1 (wch CHR ''-'') [] = (if fin = 0 then [] else [wch CHR ''-''])"
    by (simp add: BasePrintLibFillBuffer_def)
  have "put_chars True fin (comma_loop comma k d) (if v <s 0 then [wch CHR ''-''] else []) = comma_text comma v"
    by (subst put_chars_take) (use l d in \<open>auto simp: t fin_def\<close>)
  moreover have "(if v <s 0 then BasePrintLibFillBuffer True fin 1 (wch CHR ''-'') [] else []) = (if v <s 0 then [wch CHR ''-''] else [])"
    using s d(2) by (auto simp: fin_def)
  moreover have "min fin (38 - 1) = fin" "\<not> 100 < (fin + 1) * 2" using f by auto
  moreover define fl where "fl = (if comma then 0x08 else 0 :: u64)"
  have "(fl AND 0x08 \<noteq> 0) = comma" "fl AND 0x80 = 0" "value_flags_ok fl" by (simp_all add: fl_def value_flags_ok_def)
  ultimately have "BasePrintLibConvertValueToStringS True 100 fl v 0 = (EFI_SUCCESS, Some (comma_text comma v))"
    unfolding BasePrintLibConvertValueToStringS_def Let_def
    by (simp only: simp_thms if_True if_False d_def [symmetric] k_def [symmetric] fin_def [symmetric] zero_less_numeral) simp
  then show "UnicodeValueToStringS 100 (if comma then 0x08 else 0) v 0 = (EFI_SUCCESS, Some (comma_text comma v))"
    by (simp only: UnicodeValueToStringS_def fl_def)
qed

text \<open>C28: The length reported for a number with a width is the width, also when the number
  is longer: the padding that is left out is counted as a negative length.  A buffer
  sized with \<^verbatim>\<open>SPrintLength\<close> is then too small for the text.\<close>

theorem width_is_counted:
  assumes "\<not> w <s 0"
  shows "SPrintLength (wide ''%*d'') [VaWord w, VaWord v] = Inr w"
proof -
  let ?sp = "no_spec\<lparr>PAD_TO_WIDTH := True, Width := w\<rparr>"
  let ?v = "number_value ?sp v" let ?d = "value_text 10 (if ?v <s 0 then - ?v else ?v)" let ?prefix = "if ?v <s 0 then wch CHR ''-'' else 0"
  let ?c = "of_nat (length ?d) + (if ?prefix \<noteq> 0 then 1 else 0) :: u64"
  let ?fd = "number_field (wch CHR ''d'') ?sp v"
  have "format_item BasePrintLibSPrint (wch CHR ''%'') (wide ''*d'') [VaWord w, VaWord v] = Inr (field_runs ?fd, [], [])"
    by (simp add: format_item_def wide_def parse_eval convert_def ch_def is_hex_def field_of_def Let_def)
  then have r: "format_runs BasePrintLibSPrint (wide ''%*d'') [VaWord w, VaWord v] = Inr (field_runs ?fd)"
    using format_runs_one by (simp add: wide_def)
  have fd: "?fd = \<lparr>fd_spec = ?sp\<lparr>Precision := if ?v <s 0 then 2 else 1\<rparr>, fd_text = ?d, fd_count = Some ?c, fd_prefix = ?prefix,
      fd_comma = False, fd_digits = (if length ?d mod 3 \<noteq> 0 then 3 - length ?d mod 3 else 0)\<rparr>"
    by (simp add: number_field_def number_spec_def is_hex_def no_spec_def number_value_def Let_def)
  have s: "sum_list (map fst (field_runs ?fd)) = w"
    unfolding fd by (subst number_runs_sum) (use digits_ok in \<open>auto simp: no_spec_def\<close>)
  have "w * 2 div 2 = w" using uint_nonneg [OF assms, symmetric] sint_bounds(2) [of w]
    by (simp add: word_uint_eq_iff uint_div uint_word_ariths)
  then show ?thesis using print_loop_count [OF r, of "print_dst_of True None"] s
    by (auto simp: SPrintLength_def print_count_def print_dst_of_def BytesPerOutputCharacter_def wide_def)
qed

theorem width_is_counted_witness:
  "SPrintLength (wide ''%*d'') [VaWord 1, VaWord 12345] = Inr 1 \<and>
   UnicodeSPrint 100 (wide ''%*d'') [VaWord 1, VaWord 12345] = Inr (Some (wide ''12345''))"
proof
  show "SPrintLength (wide ''%*d'') [VaWord 1, VaWord 12345] = Inr 1" by (rule width_is_counted) (simp add: word_sless_alt)
  have "format_runs BasePrintLibSPrint (wide ''%*d'') [VaWord 1, VaWord 12345] =
      Inr (field_runs (number_field (wch CHR ''d'') (no_spec\<lparr>PAD_TO_WIDTH := True, Width := 1\<rparr>) 12345))"
    by (simp add: format_runs.simps(2) format_item_def wide_def parse_eval convert_def ch_def is_hex_def field_of_def Let_def)
  moreover have "value_text 10 12345 = wide ''12345''" by (simp add: text_eval)
  then have "runs_text True (field_runs (number_field (wch CHR ''d'') (no_spec\<lparr>PAD_TO_WIDTH := True, Width := 1\<rparr>) 12345)) = wide ''12345''"
    by (simp add: number_field_def number_spec_def number_value_def is_hex_def no_spec_def field_runs_def field_count_def Let_def
        run_text_def word_sless_alt number_digits_def) (simp add: wide_def run_text_def)
  ultimately have "format_text BasePrintLibSPrint (wide ''%*d'') [VaWord 1, VaWord 12345] = Inr (wide ''12345'')" by (simp add: format_text_def)
  from marker_text [OF this, of 50] show "UnicodeSPrint 100 (wide ''%*d'') [VaWord 1, VaWord 12345] = Inr (Some (wide ''12345''))"
    by (simp add: UnicodeSPrint_def UnicodeVSPrint_def)
qed

section \<open>The log\<close>



text \<open>C16: The formatter of the log stays in its buffer: with conversions it knows, arguments of
  their kinds and ASCII strings no longer than the print buffer, it returns a text that
  leaves a place for the terminator, for every buffer size.\<close>

theorem log_format_safe:
  assumes "known_format maxp (cstr format) va" and "0 < n"
  shows "\<exists>t. LogFmtVPrint junk maxp format va (n * 2) = Inr t \<and> length t < n"
  using log_loop_safe [OF assms(1), of "[]" n] assms(2) by (simp add: LogFmtVPrint_def)

theorem log_format_safe_witness:
  "known_format 8192 (cstr (wide ''%-4a|%s %lx'')) [VaAscii (Some [65]), VaWide None, VaWord 255] \<and>
   (\<exists>t. LogFmtVPrint (\<lambda>_. 0) 8192 (wide ''%-4a|%s %lx'') [VaAscii (Some [65]), VaWide None, VaWord 255] (6 * 2) = Inr t \<and> length t < 6)"
proof -
  have k: "known_format 8192 (cstr (wide ''%-4a|%s %lx'')) [VaAscii (Some [65]), VaWide None, VaWord 255]"
    by (simp add: cstr_def wide_def known_format.simps log_directive_def log_width_def log_precision_def log_length_def ch_def is_digit_def
        takes_args_def is_number_def)
  then show ?thesis using log_format_safe [OF k, of 6 "\<lambda>_. 0"] by simp
qed

text \<open>C29: A header that leaves fewer than four characters overruns the buffer of the log: the
  three dots and the terminator are written behind the header without a check.  A long
  host, application or event name is enough.\<close>

theorem log_header_overruns:
  assumes "fields_fit e" and "maxp < RSIZE_MAX" and "2 \<le> maxp" and "maxp - 2 \<le> length (header_text e (log_time now))"
  shows "SBC_LogPrint junk maxp now e format va = Inl OutOfBounds"
proof -
  have "maxp + 1 - length (take maxp (header_text e (log_time now))) < 4" using assms(3,4) by simp
  then show ?thesis unfolding SBC_LogPrint_def header_written [OF assms(1,2)] sum.case Let_def by simp
qed

theorem log_header_overruns_witness:
  "SBC_LogPrint (\<lambda>_. 0) 50 (Some demo_now) demo_event (wide ''ok'') [] = Inl OutOfBounds"
proof (rule log_header_overruns)
  show "fields_fit demo_event" by (rule demo_fits)
  show "50 - 2 \<le> length (header_text demo_event (log_time (Some demo_now)))" by (simp add: log_time_def demo_header)
qed simp_all

text \<open>C30: The log loses the borders of its fields: all spaces are removed, the separators of the
  header among them, so an event of priority 1 and version 12 and one of priority 11 and
  version 2 give the same line.\<close>

theorem log_fields_merge:
  assumes "fields_fit e" and "maxp < RSIZE_MAX" and "length (header_text (e\<lparr>prio := 1, ver := 12\<rparr>) (log_time now)) + 4 \<le> maxp"
    and "log_message (cstr format) va = Some m"
  shows "SBC_LogPrint junk maxp now (e\<lparr>prio := 1, ver := 12\<rparr>) format va = SBC_LogPrint junk maxp now (e\<lparr>prio := 11, ver := 2\<rparr>) format va"
proof -
  let ?x = "header_rest e (log_time now)"
  have x: "header_rest (e\<lparr>prio := p, ver := v\<rparr>) t = header_rest e t" for p v t by (simp add: header_rest_def)
  have h: "header_text (e\<lparr>prio := 1, ver := 12\<rparr>) (log_time now) = wide ''1 12 '' @ ?x"
    "header_text (e\<lparr>prio := 11, ver := 2\<rparr>) (log_time now) = wide ''11 2 '' @ ?x"
    by (simp_all add: header_text_def small_numbers x) (simp_all add: wide_def)
  have f: "fields_fit (e\<lparr>prio := 1, ver := 12\<rparr>)" "fields_fit (e\<lparr>prio := 11, ver := 2\<rparr>)" using assms(1) by (simp_all add: fields_fit_def)
  have k: "take maxp ((wide s @ ?x) @ m) = wide s @ take (maxp - 5) (?x @ m)" if "length s = 5" for s
    using that assms(3) by (simp add: h)
  have "log_text (take maxp ((wide ''1 12 '' @ ?x) @ m)) = log_text (take maxp ((wide ''11 2 '' @ ?x) @ m))"
    by (subst (1 2) k) (simp_all add: log_text_Cons wide_def to_ascii_def)
  then show ?thesis
    using log_printed [OF f(1) assms(2) _ assms(4)] log_printed [OF f(2) assms(2) _ assms(4)] assms(3) by (simp add: h)
qed

theorem log_fields_merge_witness:
  "SBC_LogPrint (\<lambda>_. 0) 8192 (Some demo_now) (demo_event\<lparr>prio := 1, ver := 12\<rparr>) (wide ''fw %s %d ok'') [VaWide (Some (wide ''1a'')), VaWord 42] =
   SBC_LogPrint (\<lambda>_. 0) 8192 (Some demo_now) (demo_event\<lparr>prio := 11, ver := 2\<rparr>) (wide ''fw %s %d ok'') [VaWide (Some (wide ''1a'')), VaWord 42]"
proof (rule log_fields_merge)
  show "fields_fit demo_event" by (rule demo_fits)
  show "log_message (cstr (wide ''fw %s %d ok'')) [VaWide (Some (wide ''1a'')), VaWord 42] = Some (wide ''fw 1a 42 ok'')" by (rule demo_message)
  have r: "header_rest (demo_event\<lparr>prio := 1, ver := 12\<rparr>) demo_now = header_rest demo_event demo_now" by (simp add: header_rest_def)
  have "signed_text 0 14 = wide ''14''" by (simp add: text_eval)
  then have "length (header_rest demo_event demo_now) + 5 = length (header_text demo_event demo_now)"
    by (simp add: header_text_def demo_event_def small_numbers)
  then show "length (header_text (demo_event\<lparr>prio := 1, ver := 12\<rparr>) (log_time (Some demo_now))) + 4 \<le> 8192"
    unfolding demo_header by (simp add: log_time_def header_text_def small_numbers r)
qed simp

end
