(* ===== verification/Spec2Isabelle.thy ===== *)
theory Spec2Isabelle
  imports Storage_Theorems Identity_Theorems Sha_Theorems Boot_Theorems Fsbl_Theorems Log_Theorems
begin

text \<open>
  Verification of the secure boot chain of \<^verbatim>\<open>src/SBCPkg\<close>, a package of two UEFI
  boot loaders in a tree of EDK II.

  \<^bold>\<open>The program.\<close>  The first stage (\<^verbatim>\<open>Application/FSBL\<close>) is started by the firmware.  It
  finds the raw partition on an NVMe disk, checks the signature of its own file,
  makes the device identifier, copies the second stage from a bank of the partition
  to a file and starts the second stage (\<^verbatim>\<open>Application/SSBL\<close>).  The second stage checks
  the first stage's file, derives the chain of identifiers, and runs the machine of
  boot and key modes: it seals and validates a secret, the base answer, in the
  settings area of the partition, changes the modes in the partition's header,
  restarts or powers off, and in the end starts GRUB.

  \<^bold>\<open>Theories, bottom up.\<close>
  \<^item> \<open>Sbc_Prelude\<close>: machine integers, byte buffers, little endian numbers, and the
    outcome of a C call: it returns, it leaves for good (reset, shutdown), or it reaches
    an operation without a meaning in C.
  \<^item> \<open>Uefi_Nvme\<close>: block reads and writes of \<^verbatim>\<open>NvmExpressBlockIo.c\<close> with their cutting into
    commands and the checks of \<^verbatim>\<open>NvmExpressPassthru.c\<close>; the interface \<open>raw_store\<close>, interpreted on them
    as \<open>nvme\<close>.
  \<^item> \<open>Sbc_Machine\<close>: the firmware services as a record of their answers, the status codes
    of \<^verbatim>\<open>SBC_ErrorType.h\<close>, the modes of \<^verbatim>\<open>SBC_FileCtrl.h\<close>.
  \<^item> \<open>Fat_Names\<close>: how the FAT driver finds the entry a path names, without regard to case
    (\<^verbatim>\<open>DirectoryManage.c\<close>, \<^verbatim>\<open>FileName.c\<close>, \<^verbatim>\<open>UnicodeCollationEng.c\<close>).
  \<^item> \<open>Sbc_RawPrt\<close>: header layout, block access, search for the partition and system
    settings of \<^verbatim>\<open>SBC_FileCtrl.c\<close>.
  \<^item> \<open>Sbc_FileCtrl\<close>: open, search, size, read and the boot mode file of \<^verbatim>\<open>SBC_FileCtrl.c\<close>.
  \<^item> \<open>Sbc_FileWrite\<close>: create, write and append of \<^verbatim>\<open>SBC_FileCtrl.c\<close> over the open and write
    of the FAT driver; the interface \<open>file_store\<close>, interpreted on \<open>SBC_WriteFile\<close> as \<open>files\<close>.
  \<^item> \<open>Ossl_Sha256\<close>: SHA-256 of OpenSSL (\<^verbatim>\<open>crypto/sha/sha256.c\<close>, \<^verbatim>\<open>md32_common.h\<close>), both block functions,
    the bit counter and the buffered update, beside the function of FIPS 180-4; the interface
    \<open>stream_digest\<close>, interpreted as \<open>s256\<close> and \<open>s224\<close>.
  \<^item> \<open>Print_Lib\<close> and \<open>Print_Facts\<close>: formatted printing, \<^verbatim>\<open>MdePkg/Library/BasePrintLib\<close>, and its text in
    closed form; the interface \<open>bounded_print\<close>, interpreted on four of its entry points as \<open>usp\<close>,
    \<open>usa\<close>, \<open>asp\<close> and \<open>asu\<close>.
  \<^item> \<open>Sbc_Log\<close> and \<open>Log_Facts\<close>: \<^verbatim>\<open>SBC_Log.c\<close>, the log, and the printing helpers of \<^verbatim>\<open>FSBL.c\<close>.
  \<^item> \<open>Sbc_Crypt\<close>: \<^verbatim>\<open>SBC_Hashing.c\<close>, \<^verbatim>\<open>SBC_CryptAES.c\<close>, \<^verbatim>\<open>SBC_X509.c\<close> over the entry points of
    \<^verbatim>\<open>CryptoPkg/Library/BaseCryptLib\<close>.
  \<^item> \<open>Sbc_BaseAnswer\<close> and \<open>Sbc_AntiTampering\<close>: \<^verbatim>\<open>SBC_AntiTampering.c\<close>, the base answer and the
    rest: serial numbers, identifiers, migration key, image and certificate checks.
  \<^item> \<open>Sbc_SystemControl\<close>: \<^verbatim>\<open>SBC_SystemControl.c\<close>, the modes.
  \<^item> \<open>Sbc_Util\<close>: byte order macros and hexadecimal conversion of \<^verbatim>\<open>SBC_Util.h\<close>.
  \<^item> \<open>Sbc_Ssbl\<close>: \<^verbatim>\<open>SSBL.c\<close>, the second stage; \<open>Sbc_Runs\<close>: its runs, one boot mode after the other and
    across restarts.
  \<^item> \<open>Sbc_Fsbl\<close>: \<^verbatim>\<open>FSBL.c\<close>, the first stage, with the second as a parameter; \<open>Sbc_Chain\<close>: both.
  \<^item> \<open>Sbc_Example\<close>: a concrete machine, disk and OpenSSL for the witnesses.
  \<^item> \<open>Sha_Vectors\<close>: the constants of SHA-256 and three digests, evaluated.
  \<^item> \<open>Storage_Theorems\<close>, \<open>Identity_Theorems\<close>, \<open>Sha_Theorems\<close>, \<open>Boot_Theorems\<close>, \<open>Fsbl_Theorems\<close>,
    \<open>Log_Theorems\<close>: the properties; \<open>Sha_Theorems\<close> also holds the self test of \<^verbatim>\<open>SBC_Hashing.c\<close>.

  \<^bold>\<open>How the model reads.\<close>  A C function is a definition of the same name.  A pointer that
  may be null is an option, a buffer a list of bytes with its length, an integer a word of
  its width.  A function that touches the machine is a program \<open>machine \<Rightarrow> outcome\<close>; \<open>andthen\<close>
  is the semicolon.  An access outside a buffer or through a null pointer is the outcome
  \<open>Faulted\<close>.  What the code reads before it has written it is \<open>stale\<close>, an arbitrary part of the
  machine.  Loops over handles are recursions over a counter.  The loops of the NVMe driver
  are partial functions: \<open>None\<close> stands for an arithmetic operation without a value (a shift or
  product beyond \<^verbatim>\<open>int\<close>, a division by a block size of zero) and for a loop that does not end, and
  it is proved that they return in every other case, a limit of zero blocks included
  (\<open>transfer_loops_return\<close>).

  \<^bold>\<open>What is shown.\<close>
  \<^item> The checks: a run of the second stage that changes anything, and a run of both stages
    that starts GRUB, has found signed images (\<open>only_signed_images_boot\<close>,
    \<open>chain_needs_both_signatures\<close>); the check accepts exactly the signed layouts.
  \<^item> The modes: the mode check refines a table of modes, mode changes survive a restart, an
    update is carried through three power cycles, a machine that is set up boots; an unknown
    mode boots as well.
  \<^item> Storage: writes are read back, under every spelling of the file name, and stay inside their
    blocks, slots and files; the transfer loops return; the base answer makes a round trip
    through encryption and disk.
  \<^item> Hashes: any sequence of updates gives the digest FIPS 180-4 defines for the whole message,
    the two block functions agree.
  \<^item> Identifiers: the serial numbers in terms of the SMBIOS tables and the controller's answer,
    the values of the chain and of the migration key, and where they differ from what the
    header file of the package says.
  \<^item> Printing and the log: what is printed fits its buffer and is the beginning of the whole
    text, numbers read back, and a log line is its header and message, put together from
    literal text and conversions whose flags, width and precision have no effect.
  \<^item> What goes wrong: the properties of kind error and those named in the list of findings
    state where the code does not do what it means to.

  \<^bold>\<open>Parameters.\<close>  The ciphers and signatures of OpenSSL are the record \<open>openssl\<close>; the one
  hypothesis on it (\<open>gcm_correct\<close>) is that GCM decrypts what it encrypted.  What the started
  second stage does is a parameter of the first stage.  The size of the print buffer is a
  setting of the build, the parameter \<open>maxp\<close> of the log.

  \<^bold>\<open>Not modelled.\<close>  The console itself; functions nothing calls (\<^verbatim>\<open>SBC_FindPrtoSW\<close>, the menu and
  memory image loaders of \<^verbatim>\<open>SBC_LoadKernelImage.c\<close>, the key derivation and elliptic curve
  wrappers); the disabled second half of \<^verbatim>\<open>SBC_Log.c\<close>; the code under \<^verbatim>\<open>_SBC_DEVID_VERIFY_\<close>, which
  no build description defines; the copy of the cmocka test framework; the clusters, caches and
  directory records of the FAT driver, whose errors are answers of the volume; the null checks,
  buffer alignment, task priorities and queue failures of the NVMe driver; the block ciphers and
  curve arithmetic of OpenSSL; the rest of EDK II.  Freeing of pool memory is not modelled: a
  block that was freed is not used again on any path of the model, but for the base answer, which
  \<^verbatim>\<open>SBC_BaseAnswerEncryptStore\<close> frees for its caller right before the caller restarts or powers off.
  The messages that \<^verbatim>\<open>SBC_BaseAnswerValidate\<close> and the first stage print with the base answer itself
  as a string are left out with the console: the answer is no string with a terminator, so how
  far that print reads is decided by the memory behind it.
\<close>

end
